(* ===== verification/Prelude.thy ===== *)
theory Prelude
  imports Main
begin

text \<open>
  Shared vocabulary of the AutoPR development.

  The service is written in Python, so this theory fixes how Python values appear in the model:
  \<^item> a \<open>str\<close> is a \<open>string\<close> whose characters are the code points up to 255 (the text operations
    below are the ones of Python on that range); the few symbols of fixed markup outside it are
    written as their UTF-8 bytes, and no code counts their length;
  \<^item> a value decoded from JSON (a webhook payload, a model reply) is a \<open>json\<close>, with Python's
    truth value, \<open>str\<close> and \<open>repr\<close>;
  \<^item> an exception is a value \<open>exc\<close>, and code that may raise returns \<open>'a res\<close>, a sum whose left
    part is the exception;
  \<^item> a database table is a \<open>table\<close>: its rows in insertion order and the next primary key.

  The last part holds the generic facts on unique tables, as the locale \<open>unique_table\<close>, which the
  three tables of the service interpret.
\<close>

named_theorems py_text "facts on Python text operations"
named_theorems tables "facts on table operations"
named_theorems wf_intros "rules that establish well-formedness of the database"


section \<open>Exceptions and results\<close>

datatype exc_class =
    ValueError | TypeError | AttributeError | KeyError | IntegrityError
  | RedisError | OverflowError | GitHubAppError | HTTPError | RuntimeError | OtherException
  | JSONDecodeError | UnicodeDecodeError | RecursionError

text \<open>An exception carries its class and the text that \<open>repr\<close> shows for it.\<close>

datatype exc = Exc (exc_class: exc_class) (exc_repr: string)

type_synonym 'a res = "exc + 'a"

abbreviation Ret :: "'a \<Rightarrow> 'a res" where "Ret \<equiv> Inr"
abbreviation Raise :: "exc \<Rightarrow> 'a res" where "Raise \<equiv> Inl"

definition rbind :: "'a res \<Rightarrow> ('a \<Rightarrow> 'b res) \<Rightarrow> 'b res" where
  "rbind m f = (case m of Inl e \<Rightarrow> Inl e | Inr x \<Rightarrow> f x)"

lemma rbind_simps [simp]: "rbind (Inl e) f = Inl e" "rbind (Inr x) f = f x"
  by (simp_all add: rbind_def)

lemma rbind_eq_Inr [simp]: "rbind m f = Inr y \<longleftrightarrow> (\<exists>x. m = Inr x \<and> f x = Inr y)"
  by (cases m) auto

lemma rbind_eq_Inl: "rbind m f = Inl e \<longleftrightarrow> m = Inl e \<or> (\<exists>x. m = Inr x \<and> f x = Inl e)"
  by (cases m) auto

lemma map_prod_Inr [simp]: "map_prod id Inr p = (a, r) \<longleftrightarrow> (\<exists>x. p = (a, x) \<and> r = Inr x)"
  by (cases p) auto

fun rmap :: "('a \<Rightarrow> 'b res) \<Rightarrow> 'a list \<Rightarrow> 'b list res" where
  "rmap f [] = Ret []"
| "rmap f (x # xs) = rbind (f x) (\<lambda>y. rbind (rmap f xs) (\<lambda>ys. Ret (y # ys)))"

lemma rmap_Ret: "rmap f xs = Ret ys \<Longrightarrow> length ys = length xs"
  by (induction xs arbitrary: ys) auto

lemma rmap_total: "(\<And>x. x \<in> set xs \<Longrightarrow> \<exists>y. f x = Ret y) \<Longrightarrow> \<exists>ys. rmap f xs = Ret ys"
  by (induction xs) force+

definition get_default :: "'a \<Rightarrow> 'a option \<Rightarrow> 'a" where
  "get_default d v = (case v of None \<Rightarrow> d | Some x \<Rightarrow> x)"

lemma get_default_simps [simp]: "get_default d None = d" "get_default d (Some x) = x"
  by (simp_all add: get_default_def)


section \<open>Python text\<close>

definition py_isspace :: "char \<Rightarrow> bool" where
  "py_isspace c \<longleftrightarrow> (let n = (of_char c :: nat) in
     (9 \<le> n \<and> n \<le> 13) \<or> (28 \<le> n \<and> n \<le> 32) \<or> n = 133 \<or> n = 160)"

definition lstrip :: "string \<Rightarrow> string" where
  "lstrip s = dropWhile py_isspace s"

definition rstrip :: "string \<Rightarrow> string" where
  "rstrip s = rev (dropWhile py_isspace (rev s))"

definition strip :: "string \<Rightarrow> string" where
  "strip s = rstrip (lstrip s)"

definition lower_char :: "char \<Rightarrow> char" where
  "lower_char c = (let n = (of_char c :: nat) in
     if (65 \<le> n \<and> n \<le> 90) \<or> (192 \<le> n \<and> n \<le> 222 \<and> n \<noteq> 215) then char_of (n + 32) else c)"

definition lower :: "string \<Rightarrow> string" where
  "lower s = map lower_char s"

definition startswith :: "string \<Rightarrow> string \<Rightarrow> bool" where
  "startswith s p \<longleftrightarrow> take (length p) s = p"

definition endswith :: "string \<Rightarrow> string \<Rightarrow> bool" where
  "endswith s p \<longleftrightarrow> length p \<le> length s \<and> drop (length s - length p) s = p"

definition is_digit :: "char \<Rightarrow> bool" where
  "is_digit c \<longleftrightarrow> (let n = (of_char c :: nat) in 48 \<le> n \<and> n \<le> 57)"

definition is_ascii :: "string \<Rightarrow> bool" where
  "is_ascii s \<longleftrightarrow> list_all (\<lambda>c. (of_char c :: nat) < 128) s"

text \<open>\<open>s.split(c)\<close> for a separator of one character.\<close>

fun split_on :: "char \<Rightarrow> string \<Rightarrow> string list" where
  "split_on c [] = [[]]"
| "split_on c (x # xs) =
     (if x = c then [] # split_on c xs
      else (case split_on c xs of [] \<Rightarrow> [[x]] | p # ps \<Rightarrow> (x # p) # ps))"

fun join :: "string \<Rightarrow> string list \<Rightarrow> string" where
  "join sep [] = []"
| "join sep [x] = x"
| "join sep (x # y # ys) = x @ sep @ join sep (y # ys)"

definition newline :: string where
  "newline = [CHR 0x0A]"

abbreviation join_lines :: "string list \<Rightarrow> string" where
  "join_lines \<equiv> join newline"

text \<open>The line boundaries of \<open>str.splitlines\<close> in the modelled range; \<open>\r\n\<close> is one boundary.\<close>

definition is_linebreak :: "char \<Rightarrow> bool" where
  "is_linebreak c \<longleftrightarrow> (let n = (of_char c :: nat) in
     (10 \<le> n \<and> n \<le> 13) \<or> (28 \<le> n \<and> n \<le> 30) \<or> n = 133)"

fun splitlines_aux :: "string \<Rightarrow> string \<Rightarrow> string list" where
  "splitlines_aux acc [] = (if acc = [] then [] else [rev acc])"
| "splitlines_aux acc (x # xs) =
     (if is_linebreak x
      then rev acc # splitlines_aux []
             (if x = CHR 0x0D \<and> take 1 xs = [CHR 0x0A] then drop 1 xs else xs)
      else splitlines_aux (x # acc) xs)"

definition splitlines :: "string \<Rightarrow> string list" where
  "splitlines s = splitlines_aux [] s"

text \<open>\<open>needle in hay\<close> and \<open>hay.replace(old, new)\<close> for a non-empty \<open>old\<close>.\<close>

fun contains :: "string \<Rightarrow> string \<Rightarrow> bool" where
  "contains [] needle = (needle = [])"
| "contains (x # xs) needle = (startswith (x # xs) needle \<or> contains xs needle)"

function replace :: "string \<Rightarrow> string \<Rightarrow> string \<Rightarrow> string" where
  "replace old new [] = []"
| "replace old new (x # xs) =
     (if old \<noteq> [] \<and> startswith (x # xs) old then new @ replace old new (drop (length old) (x # xs))
      else x # replace old new xs)"
  by pat_completeness auto
termination
  by (relation "measure (\<lambda>(old, new, s). length s)") auto

text \<open>The first element of \<open>s.split(mark)\<close>, and the text after the first mark if there is one.\<close>

fun text_before :: "string \<Rightarrow> string \<Rightarrow> string" where
  "text_before mark [] = []"
| "text_before mark (c # cs) = (if startswith (c # cs) mark then [] else c # text_before mark cs)"

fun text_after :: "string \<Rightarrow> string \<Rightarrow> string option" where
  "text_after mark [] = None"
| "text_after mark (c # cs) = (if startswith (c # cs) mark then Some (drop (length mark) (c # cs)) else text_after mark cs)"

text \<open>\<open>s[-n:]\<close> for a positive \<open>n\<close>.\<close>

definition tail_slice :: "nat \<Rightarrow> string \<Rightarrow> string" where
  "tail_slice n s = drop (length s - n) s"


text \<open>\<open>s.encode("utf-8")\<close> on the modelled range of characters.\<close>

definition utf8 :: "string \<Rightarrow> string" where
  "utf8 s = concat (map (\<lambda>c. let n = (of_char c :: nat) in
     if n < 128 then [c] else [char_of (192 + n div 64), char_of (128 + n mod 64)]) s)"

text \<open>
  \<open>b.decode()\<close>, and with \<open>pass\<close> the variant that lets encoded surrogates through. Ill-formed bytes are
  refused. A character outside the modelled range is kept as the bytes that encode it.
\<close>

definition trailing :: "nat \<Rightarrow> nat \<Rightarrow> char \<Rightarrow> bool" where
  "trailing lo hi c \<longleftrightarrow> (let m = (of_char c :: nat) in lo \<le> m \<and> m \<le> hi)"

definition second_byte :: "bool \<Rightarrow> nat \<Rightarrow> char \<Rightarrow> bool" where
  "second_byte pass n c =
     (if n = 224 then trailing 160 191 c
      else if n = 237 \<and> \<not> pass then trailing 128 159 c
      else if n = 240 then trailing 144 191 c
      else if n = 244 then trailing 128 143 c
      else trailing 128 191 c)"

fun utf8_text :: "bool \<Rightarrow> string \<Rightarrow> string option" where
  "utf8_text pass [] = Some []"
| "utf8_text pass (a # bs) =
     (let n = (of_char a :: nat) in
      if n < 128 then map_option ((#) a) (utf8_text pass bs)
      else if 194 \<le> n \<and> n < 224 then
        (case bs of
           b # rest \<Rightarrow>
             if trailing 128 191 b
             then map_option ((@) (if n < 196 then [char_of ((n - 192) * 64 + (of_char b - 128))] else [a, b]))
                    (utf8_text pass rest)
             else None
         | _ \<Rightarrow> None)
      else if 224 \<le> n \<and> n < 240 then
        (case bs of
           b # c # rest \<Rightarrow>
             if second_byte pass n b \<and> trailing 128 191 c
             then map_option ((@) [a, b, c]) (utf8_text pass rest) else None
         | _ \<Rightarrow> None)
      else if 240 \<le> n \<and> n < 245 then
        (case bs of
           b # c # d # rest \<Rightarrow>
             if second_byte pass n b \<and> trailing 128 191 c \<and> trailing 128 191 d
             then map_option ((@) [a, b, c, d]) (utf8_text pass rest) else None
         | _ \<Rightarrow> None)
      else None)"

abbreviation utf8_decode :: "string \<Rightarrow> string option" where
  "utf8_decode \<equiv> utf8_text False"

lemma utf8_roundtrip [simp]: "utf8_text pass (utf8 s) = Some s"
proof (induction s)
  case Nil
  then show ?case by (simp add: utf8_def)
next
  case (Cons c s)
  let ?n = "of_char c :: nat"
  have bound: "?n < 256" by simp
  have tl: "utf8 (c # s) = (if ?n < 128 then [c] else [char_of (192 + ?n div 64), char_of (128 + ?n mod 64)]) @ utf8 s"
    by (simp add: utf8_def Let_def)
  show ?case
  proof (cases "?n < 128")
    case True
    with Cons show ?thesis by (simp add: tl)
  next
    case False
    have "2 \<le> ?n div 64" "?n div 64 < 4"
      using False bound by (simp_all add: less_eq_div_iff_mult_less_eq div_less_iff_less_mult)
    then have d: "?n div 64 = 2 \<or> ?n div 64 = 3" by linarith
    have m: "?n mod 64 < 64" by simp
    then have "(of_char (char_of (128 + ?n mod 64) :: char) :: nat) = 128 + ?n mod 64" by simp
    moreover have "(of_char (char_of (192 + ?n div 64) :: char) :: nat) = 192 + ?n div 64"
      using d by auto
    moreover have "char_of ((192 + ?n div 64 - 192) * 64 + (128 + ?n mod 64 - 128)) = c" by simp
    ultimately show ?thesis using False Cons d m
      by (simp only: tl utf8_text.simps Let_def append.simps if_False list.case option.map trailing_def) auto
  qed
qed


subsection \<open>Integers as text\<close>

definition digit :: "nat \<Rightarrow> char" where
  "digit n = char_of (48 + n)"

fun nat_str :: "nat \<Rightarrow> string" where
  "nat_str n = (if n < 10 then [digit n] else nat_str (n div 10) @ [digit (n mod 10)])"

declare nat_str.simps [simp del]

definition int_str :: "int \<Rightarrow> string" where
  "int_str i = (if i < 0 then CHR ''-'' # nat_str (nat (- i)) else nat_str (nat i))"

definition digit_val :: "char \<Rightarrow> nat" where
  "digit_val c = (of_char c :: nat) - 48"

text \<open>
  \<open>int(s)\<close> on text: surrounding white space is dropped, one sign is accepted, and single
  underscores may separate digits.
\<close>

fun parse_digits :: "nat \<Rightarrow> string \<Rightarrow> nat option" where
  "parse_digits acc [] = Some acc"
| "parse_digits acc (c # cs) =
     (if is_digit c then parse_digits (10 * acc + digit_val c) cs
      else if c = CHR ''_'' then
        (case cs of [] \<Rightarrow> None
         | d # ds \<Rightarrow> if is_digit d then parse_digits (10 * acc + digit_val d) ds else None)
      else None)"

definition parse_nat :: "string \<Rightarrow> nat option" where
  "parse_nat s = (case s of [] \<Rightarrow> None
     | c # cs \<Rightarrow> if is_digit c then parse_digits (digit_val c) cs else None)"

definition py_int :: "string \<Rightarrow> int option" where
  "py_int s = (case strip s of
       [] \<Rightarrow> None
     | c # cs \<Rightarrow>
         if c = CHR ''-'' then map_option (\<lambda>n. - int n) (parse_nat cs)
         else if c = CHR ''+'' then map_option int (parse_nat cs)
         else map_option int (parse_nat (c # cs)))"


subsection \<open>Facts on text\<close>

lemma length_strip [py_text]: "length (strip s) \<le> length s"
proof -
  have "length (strip s) \<le> length (lstrip s)"
    using length_dropWhile_le [of py_isspace "rev (lstrip s)"] by (simp add: strip_def rstrip_def)
  also have "\<dots> \<le> length s"
    by (simp add: lstrip_def length_dropWhile_le)
  finally show ?thesis .
qed

lemma lower_length [simp]: "length (lower s) = length s"
  by (simp add: lower_def)

lemma startswith_append [simp, py_text]: "startswith (p @ s) p"
  by (simp add: startswith_def)

lemma startswithD [py_text]: "startswith s p \<Longrightarrow> s = p @ drop (length p) s"
  unfolding startswith_def by (metis append_take_drop_id)

lemma startswith_iff [py_text]: "startswith s p \<longleftrightarrow> (\<exists>r. s = p @ r)"
  by (metis startswithD startswith_append)

lemma contains_iff: "contains s t \<longleftrightarrow> (\<exists>a b. s = a @ t @ b)"
proof (induction s)
  case (Cons x s)
  have "(\<exists>a b. x # s = a @ t @ b) \<longleftrightarrow> (\<exists>b. x # s = t @ b) \<or> (\<exists>a b. s = a @ t @ b)"
    by (metis append_Cons append_Nil list.exhaust list.inject)
  with Cons show ?case by (simp add: startswith_iff)
qed auto

lemma endswith_append [simp, py_text]: "endswith (s @ p) p"
  by (simp add: endswith_def)

lemma split_on_nonempty [simp]: "split_on c s \<noteq> []"
  by (induction s) (auto split: list.splits)

lemma join_split_on: "join [c] (split_on c s) = s"
proof (induction s)
  case (Cons x xs)
  show ?case
  proof (cases "split_on c xs")
    case (Cons p ps)
    with Cons.IH show ?thesis by (cases ps) auto
  qed simp
qed simp

lemma split_on_append: "c \<notin> set a \<Longrightarrow> split_on c (a @ c # b) = a # split_on c b"
  by (induction a) auto

lemma split_on_notin: "c \<notin> set s \<Longrightarrow> split_on c s = [s]"
  by (induction s) auto

lemma split_on_parts: "p \<in> set (split_on c s) \<Longrightarrow> c \<notin> set p"
  by (induction s arbitrary: p) (auto split: list.splits if_splits)

lemma split_on_join:
  "xs \<noteq> [] \<Longrightarrow> (\<And>x. x \<in> set xs \<Longrightarrow> c \<notin> set x) \<Longrightarrow> split_on c (join [c] xs) = xs"
proof (induction "[c]" xs rule: join.induct)
  case (2 x)
  then show ?case by (simp add: split_on_notin)
next
  case (3 x y ys)
  then show ?case by (simp add: split_on_append)
qed simp

lemma digit_is_digit [simp]: "n < 10 \<Longrightarrow> is_digit (digit n)"
  by (simp add: is_digit_def digit_def)

lemma digit_val_digit [simp]: "n < 10 \<Longrightarrow> digit_val (digit n) = n"
  by (simp add: digit_val_def digit_def)

lemma is_digit_not_space [simp]: "is_digit c \<Longrightarrow> \<not> py_isspace c"
  by (auto simp: is_digit_def py_isspace_def Let_def)

lemma is_digit_neq [simp]:
  "is_digit c \<Longrightarrow> c \<noteq> CHR ''-''" "is_digit c \<Longrightarrow> c \<noteq> CHR ''+''" "is_digit c \<Longrightarrow> c \<noteq> CHR ''|''"
  "is_digit c \<Longrightarrow> c \<noteq> CHR ''_''"
  by (auto simp: is_digit_def)

lemma nat_str_digits [py_text]: "c \<in> set (nat_str n) \<Longrightarrow> is_digit c"
proof (induction n rule: nat_str.induct)
  case (1 n)
  show ?case
  proof (cases "n < 10")
    case True
    with "1.prems" show ?thesis by (simp add: nat_str.simps [of n])
  next
    case False
    with "1" show ?thesis by (auto simp: nat_str.simps [of n])
  qed
qed

lemma nat_str_nonempty [simp]: "nat_str n \<noteq> []"
  by (subst nat_str.simps) simp

lemma parse_digits_append:
  "(\<And>c. c \<in> set a \<Longrightarrow> is_digit c) \<Longrightarrow>
     parse_digits k (a @ b) = parse_digits (foldl (\<lambda>n c. 10 * n + digit_val c) k a) b"
  by (induction a arbitrary: k) auto

lemma foldl_nat_str: "foldl (\<lambda>n c. 10 * n + digit_val c) 0 (nat_str n) = n"
proof (induction n rule: nat_str.induct)
  case (1 n)
  then show ?case by (cases "n < 10") (simp_all add: nat_str.simps [of n])
qed

lemma parse_nat_digits:
  assumes "\<And>c. c \<in> set s \<Longrightarrow> is_digit c" and "s \<noteq> []"
  shows "parse_nat s = Some (foldl (\<lambda>n c. 10 * n + digit_val c) 0 s)"
proof -
  obtain c cs where s: "s = c # cs" using assms(2) by (cases s) auto
  have "parse_digits (digit_val c) (cs @ []) =
      parse_digits (foldl (\<lambda>n c. 10 * n + digit_val c) (digit_val c) cs) []"
    by (rule parse_digits_append) (use assms s in auto)
  with assms s show ?thesis by (simp add: parse_nat_def)
qed

lemma parse_nat_str [simp]: "parse_nat (nat_str n) = Some n"
  by (simp add: parse_nat_digits nat_str_digits foldl_nat_str)

lemma strip_id:
  assumes "s \<noteq> []" and "\<not> py_isspace (hd s)" and "\<not> py_isspace (last s)"
  shows "strip s = s"
proof -
  have "lstrip s = s" using assms by (cases s) (auto simp: lstrip_def)
  moreover have "dropWhile py_isspace (rev s) = rev s"
    using assms by (cases "rev s") (auto simp: hd_rev [symmetric])
  ultimately show ?thesis by (simp add: strip_def rstrip_def)
qed

lemma nat_str_ends: "is_digit (hd (nat_str n))" "is_digit (last (nat_str n))"
  using nat_str_digits [of "hd (nat_str n)" n] nat_str_digits [of "last (nat_str n)" n] by auto

text \<open>Decimal text reads back as the integer it was written from.\<close>

lemma py_int_int_str [simp]: "py_int (int_str i) = Some i"
proof (cases "i < 0")
  case True
  have "\<not> py_isspace (CHR ''-'')" by (simp add: py_isspace_def)
  then have "strip (int_str i) = int_str i"
    using True nat_str_ends(2) [of "nat (- i)"] by (intro strip_id) (auto simp: int_str_def)
  with True show ?thesis by (simp add: py_int_def int_str_def)
next
  case False
  have st: "strip (nat_str (nat i)) = nat_str (nat i)"
    using nat_str_ends [of "nat i"] by (intro strip_id) auto
  obtain c cs where n: "nat_str (nat i) = c # cs" by (cases "nat_str (nat i)") auto
  have "is_digit c" using nat_str_ends(1) [of "nat i"] n by simp
  then have "py_int (nat_str (nat i)) = map_option int (parse_nat (c # cs))"
    using st by (simp add: py_int_def n)
  with False n show ?thesis by (simp add: int_str_def flip: n)
qed

lemma int_str_inj: "int_str i = int_str j \<Longrightarrow> i = j"
  by (metis option.inject py_int_int_str)

lemma int_str_no_bar: "CHR ''|'' \<notin> set (int_str i)"
proof -
  have "CHR ''|'' \<notin> set (nat_str n)" for n
    using nat_str_digits [of "CHR ''|''" n] by (auto simp: is_digit_def)
  then show ?thesis by (simp add: int_str_def)
qed


section \<open>JSON values\<close>

text \<open>
  What \<open>json.loads\<close> returns. A float is kept by the text of its \<open>repr\<close> and its integer
  part, \<open>None\<close> for an infinity or NaN; a dictionary is an
  association list whose first entry for a key counts.
\<close>

datatype json =
    JNull | JBool bool | JInt int | JFloat string "int option" | JStr string
  | JList "json list" | JDict "(string \<times> json) list"

fun truthy :: "json \<Rightarrow> bool" where
  "truthy JNull = False"
| "truthy (JBool b) = b"
| "truthy (JInt i) = (i \<noteq> 0)"
| "truthy (JFloat r n) = (r \<noteq> ''0.0'' \<and> r \<noteq> ''-0.0'')"
| "truthy (JStr s) = (s \<noteq> [])"
| "truthy (JList xs) = (xs \<noteq> [])"
| "truthy (JDict d) = (d \<noteq> [])"

text \<open>\<open>repr\<close> of a text: the quote character, and the escapes.\<close>

definition hex_digit :: "nat \<Rightarrow> char" where
  "hex_digit n = (if n < 10 then char_of (48 + n) else char_of (87 + n))"

definition repr_char :: "char \<Rightarrow> char \<Rightarrow> string" where
  "repr_char q c = (let n = (of_char c :: nat) in
     if c = q \<or> c = CHR 0x5C then [CHR 0x5C, c]
     else if n = 9 then [CHR 0x5C, CHR ''t'']
     else if n = 10 then [CHR 0x5C, CHR ''n'']
     else if n = 13 then [CHR 0x5C, CHR ''r'']
     else if n < 32 \<or> (127 \<le> n \<and> n \<le> 160) \<or> n = 173
       then [CHR 0x5C, CHR ''x'', hex_digit (n div 16), hex_digit (n mod 16)]
     else [c])"

definition str_repr :: "string \<Rightarrow> string" where
  "str_repr s = (let q = (if CHR 0x27 \<in> set s \<and> CHR 0x22 \<notin> set s then CHR 0x22 else CHR 0x27)
     in [q] @ concat (map (repr_char q) s) @ [q])"

fun json_repr :: "json \<Rightarrow> string" where
  "json_repr JNull = ''None''"
| "json_repr (JBool b) = (if b then ''True'' else ''False'')"
| "json_repr (JInt i) = int_str i"
| "json_repr (JFloat r n) = r"
| "json_repr (JStr s) = str_repr s"
| "json_repr (JList xs) = ''['' @ join '', '' (map json_repr xs) @ '']''"
| "json_repr (JDict d) =
     ''{'' @ join '', '' (map (\<lambda>(k, v). str_repr k @ '': '' @ json_repr v) d) @ ''}''"

definition json_str :: "json \<Rightarrow> string" where
  "json_str v = (case v of JStr s \<Rightarrow> s | _ \<Rightarrow> json_repr v)"

lemma json_str_JStr [simp]: "json_str (JStr s) = s"
  by (simp add: json_str_def)

text \<open>\<open>v.get(k)\<close>: only a dictionary has the method.\<close>

definition no_attr :: "string \<Rightarrow> exc" where
  "no_attr a = Exc AttributeError (''AttributeError: '' @ a)"

definition jget :: "json \<Rightarrow> string \<Rightarrow> json option res" where
  "jget v k = (case v of JDict d \<Rightarrow> Ret (map_of d k) | _ \<Rightarrow> Raise (no_attr ''get''))"

lemma jget_JDict [simp]: "jget (JDict d) k = Ret (map_of d k)"
  by (simp add: jget_def)

text \<open>\<open>v.get(k) or {}\<close>, the tolerant descent into a payload.\<close>

definition jget_dict :: "json \<Rightarrow> string \<Rightarrow> json res" where
  "jget_dict v k = rbind (jget v k) (\<lambda>r. Ret (case r of
       Some x \<Rightarrow> if truthy x then x else JDict []
     | None \<Rightarrow> JDict []))"

text \<open>\<open>v.strip()\<close>: only a text has the method.\<close>

definition json_strip :: "json \<Rightarrow> string res" where
  "json_strip v = (case v of JStr s \<Rightarrow> Ret (strip s) | _ \<Rightarrow> Raise (no_attr ''strip''))"

lemma json_strip_JStr [simp]: "json_strip (JStr s) = Ret (strip s)"
  by (simp add: json_strip_def)

text \<open>Iterating over a value: lists, the characters of a text, the keys of a dictionary.\<close>

definition json_iter :: "json \<Rightarrow> json list res" where
  "json_iter v = (case v of
       JList xs \<Rightarrow> Ret xs
     | JStr s \<Rightarrow> Ret (map (\<lambda>c. JStr [c]) s)
     | JDict d \<Rightarrow> Ret (map (\<lambda>(k, _). JStr k) d)
     | _ \<Rightarrow> Raise (Exc TypeError ''object is not iterable''))"

text \<open>\<open>v.get(k) or d\<close>.\<close>

definition jget_or :: "json \<Rightarrow> string \<Rightarrow> json \<Rightarrow> json res" where
  "jget_or v k d = rbind (jget v k) (\<lambda>r. Ret (case r of
     None \<Rightarrow> d | Some x \<Rightarrow> if truthy x then x else d))"

text \<open>\<open>int(v)\<close>.\<close>

definition json_int :: "json \<Rightarrow> int res" where
  "json_int v = (case v of
       JInt i \<Rightarrow> Ret i
     | JBool b \<Rightarrow> Ret (if b then 1 else 0)
     | JFloat r (Some n) \<Rightarrow> Ret n
     | JFloat r None \<Rightarrow> Raise (if r = ''nan'' then Exc ValueError ''cannot convert float NaN to integer''
                              else Exc OverflowError ''cannot convert float infinity to integer'')
     | JStr s \<Rightarrow> (case py_int s of Some n \<Rightarrow> Ret n
                 | None \<Rightarrow> Raise (Exc ValueError (''invalid literal for int() with base 10: '' @ str_repr s)))
     | _ \<Rightarrow> Raise (Exc TypeError ''int() argument must be a string or a real number''))"

lemma json_int_JInt [simp]: "json_int (JInt i) = Ret i"
  by (simp add: json_int_def)

text \<open>\<open>v in frozenset\<close> of texts: a list or a dictionary cannot be hashed.\<close>

definition json_in :: "json option \<Rightarrow> string list \<Rightarrow> bool res" where
  "json_in v ks = (case v of
       Some (JList _) \<Rightarrow> Raise (Exc TypeError ''unhashable type'')
     | Some (JDict _) \<Rightarrow> Raise (Exc TypeError ''unhashable type'')
     | Some (JStr s) \<Rightarrow> Ret (s \<in> set ks)
     | _ \<Rightarrow> Ret False)"

definition is_jdict :: "json \<Rightarrow> bool" where
  "is_jdict v = (case v of JDict _ \<Rightarrow> True | _ \<Rightarrow> False)"

definition is_jstr :: "json \<Rightarrow> bool" where
  "is_jstr v = (case v of JStr _ \<Rightarrow> True | _ \<Rightarrow> False)"


section \<open>Tables\<close>

text \<open>
  A table holds its rows in insertion order and the next value of its autoincrement key. The
  statements of the service are an insert under a unique constraint, selections, and an UPDATE with
  a WHERE clause that reports how many rows it changed.
\<close>

record 'r table =
  rows :: "'r list"
  seq :: int

definition empty_table :: "'r table" where
  "empty_table = \<lparr>rows = [], seq = 1\<rparr>"

definition select_one :: "('r \<Rightarrow> bool) \<Rightarrow> 'r table \<Rightarrow> 'r option" where
  "select_one P t = find P (rows t)"

definition select_all :: "('r \<Rightarrow> bool) \<Rightarrow> 'r table \<Rightarrow> 'r list" where
  "select_all P t = filter P (rows t)"

definition update_where :: "('r \<Rightarrow> bool) \<Rightarrow> ('r \<Rightarrow> 'r) \<Rightarrow> 'r table \<Rightarrow> 'r table" where
  "update_where P f t = t\<lparr>rows := map (\<lambda>r. if P r then f r else r) (rows t)\<rparr>"

definition rowcount :: "('r \<Rightarrow> bool) \<Rightarrow> 'r table \<Rightarrow> nat" where
  "rowcount P t = length (filter P (rows t))"

definition insert_row :: "(int \<Rightarrow> 'r) \<Rightarrow> 'r table \<Rightarrow> 'r table" where
  "insert_row mk t = t\<lparr>rows := rows t @ [mk (seq t)], seq := seq t + 1\<rparr>"

lemma rowcount_pos [simp, tables]: "0 < rowcount P t \<longleftrightarrow> (\<exists>r\<in>set (rows t). P r)"
  by (auto simp: rowcount_def filter_empty_conv)

lemma rowcount_zero [simp, tables]: "rowcount P t = 0 \<longleftrightarrow> (\<forall>r\<in>set (rows t). \<not> P r)"
  by (simp add: rowcount_def filter_empty_conv)

lemma update_where_none [tables]: "(\<And>r. r \<in> set (rows t) \<Longrightarrow> \<not> P r) \<Longrightarrow> update_where P f t = t"
  by (simp add: update_where_def map_idI cong: map_cong)

lemma rows_update_where [simp]:
  "rows (update_where P f t) = map (\<lambda>r. if P r then f r else r) (rows t)"
  by (simp add: update_where_def)

lemma seq_update_where [simp]: "seq (update_where P f t) = seq t"
  by (simp add: update_where_def)

lemma rows_insert_row [simp]: "rows (insert_row mk t) = rows t @ [mk (seq t)]"
  by (simp add: insert_row_def)

lemma seq_insert_row [simp]: "seq (insert_row mk t) = seq t + 1"
  by (simp add: insert_row_def)

lemma select_one_Some: "select_one P t = Some r \<Longrightarrow> r \<in> set (rows t) \<and> P r"
  by (auto simp: select_one_def find_Some_iff)

lemma select_one_None [simp]: "select_one P t = None \<longleftrightarrow> (\<forall>r\<in>set (rows t). \<not> P r)"
  by (auto simp: select_one_def find_None_iff)

definition wf_table :: "('r \<Rightarrow> int) \<Rightarrow> ('r \<Rightarrow> 'k) \<Rightarrow> 'r table \<Rightarrow> bool" where
  "wf_table rid rkey t \<longleftrightarrow> distinct (map rid (rows t)) \<and> distinct (map rkey (rows t)) \<and>
     (\<forall>r\<in>set (rows t). rid r < seq t)"

text \<open>
  The contract of a table with a primary key and a unique key: a new row carries the number the
  sequence gave it and the key of the values it was made from. Everything the components need of
  their tables is proved here once: selections by either key are unambiguous, updates that leave
  the two columns alone and inserts of an absent key keep the table well formed, and a selection
  after a write is the written row.
\<close>

locale unique_table =
  fixes rid :: "'r \<Rightarrow> int" and rkey :: "'r \<Rightarrow> 'k"
    and new_row :: "'v \<Rightarrow> int \<Rightarrow> 'r" and vkey :: "'v \<Rightarrow> 'k"
  assumes rid_new: "rid (new_row v i) = i" and rkey_new: "rkey (new_row v i) = vkey v"
begin

lemma wf_empty: "wf_table rid rkey empty_table"
  by (simp add: wf_table_def empty_table_def)

lemma same_id:
  "wf_table rid rkey t \<Longrightarrow> r \<in> set (rows t) \<Longrightarrow> r' \<in> set (rows t) \<Longrightarrow> rid r = rid r' \<Longrightarrow> r = r'"
  by (auto simp: wf_table_def distinct_map inj_on_def)

lemma same_key:
  "wf_table rid rkey t \<Longrightarrow> r \<in> set (rows t) \<Longrightarrow> r' \<in> set (rows t) \<Longrightarrow> rkey r = rkey r' \<Longrightarrow> r = r'"
  by (auto simp: wf_table_def distinct_map inj_on_def)

lemma select_unique:
  assumes "select_one P t = Some r'" and "r \<in> set (rows t)" and "P r"
    and "\<And>a b. a \<in> set (rows t) \<Longrightarrow> b \<in> set (rows t) \<Longrightarrow> P a \<Longrightarrow> P b \<Longrightarrow> a = b"
  shows "r' = r"
  using select_one_Some [OF assms(1)] assms by blast

lemma select_by_id:
  assumes "wf_table rid rkey t"
  shows "select_one (\<lambda>r. rid r = i) t = Some r \<longleftrightarrow> r \<in> set (rows t) \<and> rid r = i"
    (is "?sel = Some r \<longleftrightarrow> ?in")
proof
  show "?sel = Some r \<Longrightarrow> ?in" by (rule select_one_Some)
next
  assume r: ?in
  then have "?sel \<noteq> None" by auto
  then obtain r' where "?sel = Some r'" by (cases ?sel) simp_all
  moreover have "r' = r"
    by (rule select_unique [OF \<open>?sel = Some r'\<close>]) (use r same_id [OF assms] in auto)
  ultimately show "?sel = Some r" by simp
qed

lemma select_by_key:
  assumes "wf_table rid rkey t"
  shows "select_one (\<lambda>r. rkey r = k) t = Some r \<longleftrightarrow> r \<in> set (rows t) \<and> rkey r = k"
    (is "?sel = Some r \<longleftrightarrow> ?in")
proof
  show "?sel = Some r \<Longrightarrow> ?in" by (rule select_one_Some)
next
  assume r: ?in
  then have "?sel \<noteq> None" by auto
  then obtain r' where "?sel = Some r'" by (cases ?sel) simp_all
  moreover have "r' = r"
    by (rule select_unique [OF \<open>?sel = Some r'\<close>]) (use r same_key [OF assms] in auto)
  ultimately show "?sel = Some r" by simp
qed

lemma wf_update:
  assumes "wf_table rid rkey t"
    and f: "\<And>r. r \<in> set (rows t) \<Longrightarrow> P r \<Longrightarrow> rid (f r) = rid r \<and> rkey (f r) = rkey r"
  shows "wf_table rid rkey (update_where P f t)"
proof -
  have "map rid (rows (update_where P f t)) = map rid (rows t)"
    "map rkey (rows (update_where P f t)) = map rkey (rows t)"
    using f by auto
  moreover have "\<forall>r\<in>set (rows (update_where P f t)). rid r < seq t"
    using assms by (auto simp: wf_table_def)
  ultimately show ?thesis using assms(1) by (simp only: wf_table_def seq_update_where)
qed

lemma wf_insert:
  assumes "wf_table rid rkey t" and "\<And>r. r \<in> set (rows t) \<Longrightarrow> rkey r \<noteq> vkey v"
  shows "wf_table rid rkey (insert_row (new_row v) t)"
  using assms by (force simp: wf_table_def rid_new rkey_new)

text \<open>A conditional update addressed by primary key changes at most one row.\<close>

lemma rowcount_by_id:
  assumes w: "wf_table rid rkey t"
  shows "rowcount (\<lambda>r. rid r = i \<and> P r) t \<le> 1"
proof -
  let ?xs = "filter (\<lambda>r. rid r = i \<and> P r) (rows t)"
  have "distinct ?xs" using w by (simp add: wf_table_def distinct_map)
  then have "card (set ?xs) = length ?xs" by (rule distinct_card)
  moreover have "\<forall>a\<in>set ?xs. \<forall>b\<in>set ?xs. a = b" using same_id [OF w] by auto
  then have "card (set ?xs) \<le> Suc 0" by (subst card_le_Suc0_iff_eq) auto
  ultimately have "length ?xs \<le> 1" by linarith
  then show ?thesis by (simp add: rowcount_def)
qed

lemma lookup_update:
  assumes "\<And>r. rid (f r) = rid r"
  shows "select_one (\<lambda>r. rid r = i) (update_where P f t) =
    map_option (\<lambda>r. if P r then f r else r) (select_one (\<lambda>r. rid r = i) t)"
proof -
  have "find (\<lambda>r. rid r = i) (map (\<lambda>r. if P r then f r else r) rs) =
      map_option (\<lambda>r. if P r then f r else r) (find (\<lambda>r. rid r = i) rs)" for rs
    by (induction rs) (auto simp: assms)
  then show ?thesis by (simp add: select_one_def)
qed

lemma lookup_insert:
  assumes "wf_table rid rkey t"
  shows "select_one (\<lambda>r. rid r = i) (insert_row (new_row v) t) =
    (if i = seq t then Some (new_row v i) else select_one (\<lambda>r. rid r = i) t)"
proof -
  have fa: "find P (xs @ [x]) = (case find P xs of None \<Rightarrow> if P x then Some x else None | r \<Rightarrow> r)"
    for P :: "'r \<Rightarrow> bool" and xs x
    by (induction xs) auto
  have "select_one (\<lambda>r. rid r = seq t) t = None"
    using assms by (fastforce simp: wf_table_def)
  then show ?thesis
    by (auto simp: select_one_def fa rid_new split: option.splits)
qed

end

end
