(* ===== verification/Config.thy ===== *)
theory Config
  imports Prelude Complex_Main
begin

text \<open>
  The configuration component, \<^verbatim>\<open>src/app/config.py\<close>: the \<open>Settings\<close> class with every field, its
  derived properties, and the two validators that refuse to boot an unsafe instance. Every other
  component takes the settings as an argument, where the code reads the process-wide object.
\<close>

section \<open>Settings\<close>

record settings =
  webhook_secret :: string
  api_token :: string
  require_auth_for_reads :: bool
  allowed_repos :: string
  public_mode :: bool
  quota_jobs_per_repo_per_hour :: int
  quota_jobs_total_per_day :: int
  trusted_proxies :: string
  cors_origins :: string
  allow_insecure :: bool
  rate_limit_enabled :: bool
  rate_limit_webhook_per_min :: int
  rate_limit_mutations_per_min :: int
  database_url :: string
  redis_url :: string
  redis_socket_timeout_s :: rat
  redis_connect_timeout_s :: rat
  redis_health_check_interval_s :: int
  stream_name :: string
  consumer_group :: string
  max_webhook_bytes :: int
  log_json :: bool
  metrics_enabled :: bool
  max_attempts :: int
  reclaim_idle_ms :: int
  reconcile_interval_s :: rat
  worker_concurrency :: int
  http_max_connections :: int
  http_max_keepalive :: int
  http_keepalive_expiry_s :: rat
  qdrant_url :: string
  rag_enabled :: bool
  groq_api_key :: string
  llm_model :: string
  llm_timeout_s :: rat
  sandbox_image :: string
  docker_bin :: string
  sandbox_timeout_s :: int
  sandbox_memory :: string
  sandbox_cpus :: string
  sandbox_pids_limit :: int
  max_fix_attempts :: int
  github_api_url :: string
  github_token :: string
  github_dry_run :: bool
  github_app_id :: "int option"
  github_app_private_key :: string
  github_app_slug :: string
  quota_jobs_per_installation_per_day :: int
  github_comment_commands :: bool
  auto_comment_max_risk :: string
  handoff_mode :: bool
  snapshot_max_file_bytes :: int
  snapshot_max_files :: int
  snapshot_max_total_bytes :: int
  snapshot_max_tarball_bytes :: int

definition PLACEHOLDER_WEBHOOK_SECRET :: string where
  "PLACEHOLDER_WEBHOOK_SECRET = ''changeme-generate-a-real-secret''"

text \<open>The values the class declares.\<close>

definition default_settings :: settings where
  "default_settings = \<lparr>
     webhook_secret = PLACEHOLDER_WEBHOOK_SECRET,
     api_token = [],
     require_auth_for_reads = False,
     allowed_repos = [],
     public_mode = False,
     quota_jobs_per_repo_per_hour = 0,
     quota_jobs_total_per_day = 0,
     trusted_proxies = [],
     cors_origins = ''http://localhost:5173,http://localhost:4173,http://localhost:3000,http://127.0.0.1:5173'',
     allow_insecure = False,
     rate_limit_enabled = True,
     rate_limit_webhook_per_min = 120,
     rate_limit_mutations_per_min = 30,
     database_url = ''sqlite+pysqlite:///./autopr.db'',
     redis_url = ''redis://localhost:6379/0'',
     redis_socket_timeout_s = 10,
     redis_connect_timeout_s = 5,
     redis_health_check_interval_s = 30,
     stream_name = ''autopr:jobs'',
     consumer_group = ''autopr-workers'',
     max_webhook_bytes = 10000000,
     log_json = True,
     metrics_enabled = True,
     max_attempts = 5,
     reclaim_idle_ms = 900000,
     reconcile_interval_s = 60,
     worker_concurrency = 4,
     http_max_connections = 20,
     http_max_keepalive = 10,
     http_keepalive_expiry_s = 30,
     qdrant_url = ''http://localhost:6333'',
     rag_enabled = False,
     groq_api_key = [],
     llm_model = [],
     llm_timeout_s = 30,
     sandbox_image = ''autopr-sandbox:latest'',
     docker_bin = [],
     sandbox_timeout_s = 120,
     sandbox_memory = ''512m'',
     sandbox_cpus = ''1.0'',
     sandbox_pids_limit = 256,
     max_fix_attempts = 2,
     github_api_url = ''https://api.github.com'',
     github_token = [],
     github_dry_run = True,
     github_app_id = None,
     github_app_private_key = [],
     github_app_slug = [],
     quota_jobs_per_installation_per_day = 0,
     github_comment_commands = True,
     auto_comment_max_risk = ''low'',
     handoff_mode = False,
     snapshot_max_file_bytes = 1000000,
     snapshot_max_files = 2000,
     snapshot_max_total_bytes = 25000000,
     snapshot_max_tarball_bytes = 100000000\<rparr>"


section \<open>Derived properties\<close>

definition is_sqlite :: "settings \<Rightarrow> bool" where
  "is_sqlite s = startswith (database_url s) ''sqlite''"

text \<open>The non-empty, stripped parts of a comma separated field.\<close>

definition csv_parts :: "string \<Rightarrow> string list" where
  "csv_parts s = filter (\<lambda>p. p \<noteq> []) (map strip (split_on CHR '','' s))"

definition cors_origin_list :: "settings \<Rightarrow> string list" where
  "cors_origin_list s = (let origins = csv_parts (cors_origins s) in
     if ''*'' \<in> set origins then [''*''] else origins)"

definition allowed_repo_set :: "settings \<Rightarrow> string set" where
  "allowed_repo_set s = set (map lower (csv_parts (allowed_repos s)))"

definition trusted_proxy_list :: "settings \<Rightarrow> string list" where
  "trusted_proxy_list s = csv_parts (trusted_proxies s)"

definition multi_tenant_enabled :: "settings \<Rightarrow> bool" where
  "multi_tenant_enabled s \<longleftrightarrow>
     (case github_app_id s of None \<Rightarrow> False | Some i \<Rightarrow> i \<noteq> 0 \<and> strip (github_app_private_key s) \<noteq> [])"

definition install_url :: "settings \<Rightarrow> string" where
  "install_url s = (if github_app_slug s = [] then []
     else ''https://github.com/apps/'' @ github_app_slug s @ ''/installations/new'')"

text \<open>
  \<open>urllib.parse.urlsplit\<close>, as far as the scheme and the network location go: control characters and
  blanks in front are dropped, tabs and line ends are removed, a valid scheme ends at the first
  colon, and the location reaches to the first of \<open>/\<close>, \<open>?\<close> and \<open>#\<close>.
\<close>

definition is_alpha :: "char \<Rightarrow> bool" where
  "is_alpha c \<longleftrightarrow> (let n = (of_char c :: nat) in (65 \<le> n \<and> n \<le> 90) \<or> (97 \<le> n \<and> n \<le> 122))"

definition is_scheme_char :: "char \<Rightarrow> bool" where
  "is_scheme_char c \<longleftrightarrow> is_alpha c \<or> is_digit c \<or> c \<in> {CHR ''+'', CHR ''-'', CHR ''.''}"

definition url_clean :: "string \<Rightarrow> string" where
  "url_clean u = filter (\<lambda>c. c \<notin> {CHR 0x09, CHR 0x0A, CHR 0x0D})
     (dropWhile (\<lambda>c. (of_char c :: nat) \<le> 32) u)"

definition url_scheme :: "string \<Rightarrow> string \<times> string" where
  "url_scheme u = (let p = takeWhile (\<lambda>c. c \<noteq> CHR '':'') u in
     if length p < length u \<and> p \<noteq> [] \<and> is_alpha (hd p) \<and> list_all is_scheme_char p
     then (lower p, drop (length p + 1) u) else ([], u))"

definition url_netloc :: "string \<Rightarrow> string" where
  "url_netloc r = (if startswith r ''//''
     then takeWhile (\<lambda>c. c \<notin> {CHR ''/'', CHR ''?'', CHR ''#''}) (drop 2 r) else [])"

definition github_web_url :: "settings \<Rightarrow> string" where
  "github_web_url s = (let (sch, rest) = url_scheme (url_clean (github_api_url s));
       host = url_netloc rest in
     if host = ''api.github.com'' then ''https://github.com''
     else (if sch = [] then ''https'' else sch) @ ''://'' @ host)"


section \<open>Validation at start\<close>

text \<open>The probe for a container; the environment and the file system are its inputs.\<close>

definition running_in_container :: "(string \<Rightarrow> string option) \<Rightarrow> (string \<Rightarrow> bool) \<Rightarrow> bool" where
  "running_in_container env path_exists =
     (let override = lower (strip (get_default [] (env ''AUTOPR_IN_CONTAINER''))) in
      if override \<in> {''1'', ''true'', ''yes'', ''on''} then True
      else if override \<in> {''0'', ''false'', ''no'', ''off''} then False
      else if get_default [] (env ''KUBERNETES_SERVICE_HOST'') \<noteq> [] then True
      else path_exists ''/.dockerenv'' \<or> path_exists ''/run/.containerenv'')"

text \<open>An empty environment variable reads as an absent application id.\<close>

definition blank_means_unset :: "json \<Rightarrow> json" where
  "blank_means_unset v = (case v of JStr s \<Rightarrow> if strip s = [] then JNull else v | _ \<Rightarrow> v)"

abbreviation config_error :: "string \<Rightarrow> exc" where
  "config_error m \<equiv> Exc ValueError m"

definition enforce_public_mode :: "settings \<Rightarrow> unit res" where
  "enforce_public_mode s =
     (if allowed_repo_set s = {} then
        Raise (config_error ''AUTOPR_PUBLIC_MODE=1 needs AUTOPR_ALLOWED_REPOS.'')
      else if \<not> github_dry_run s then
        Raise (config_error ''AUTOPR_PUBLIC_MODE=1 requires AUTOPR_GITHUB_DRY_RUN=true.'')
      else if multi_tenant_enabled s \<and> quota_jobs_per_installation_per_day s \<le> 0 then
        Raise (config_error ''AUTOPR_PUBLIC_MODE=1 with GitHub App credentials needs AUTOPR_QUOTA_JOBS_PER_INSTALLATION_PER_DAY.'')
      else if quota_jobs_per_repo_per_hour s \<le> 0 \<or> quota_jobs_total_per_day s \<le> 0 then
        Raise (config_error ''AUTOPR_PUBLIC_MODE=1 requires both quotas to be positive'')
      else Ret ())"

definition enforce_secure_config :: "bool \<Rightarrow> settings \<Rightarrow> settings res" where
  "enforce_secure_config in_container s =
     rbind (if public_mode s then enforce_public_mode s else Ret ()) (\<lambda>_.
       if allow_insecure s then Ret s
       else if webhook_secret s = PLACEHOLDER_WEBHOOK_SECRET then
         Raise (config_error ''AUTOPR_WEBHOOK_SECRET is still the placeholder.'')
       else if strip (api_token s) = [] then
         Raise (config_error ''AUTOPR_API_TOKEN is empty'')
       else if is_sqlite s \<and> in_container then
         Raise (config_error ''AUTOPR_DATABASE_URL is SQLite inside a container.'')
       else Ret s)"


section \<open>Facts\<close>

lemma csv_parts_nonempty: "p \<in> set (csv_parts s) \<Longrightarrow> p \<noteq> []"
  by (simp add: csv_parts_def)

lemma public_mode_ok:
  "enforce_public_mode s = Ret () \<longleftrightarrow>
     allowed_repo_set s \<noteq> {} \<and> github_dry_run s \<and>
     (multi_tenant_enabled s \<longrightarrow> 0 < quota_jobs_per_installation_per_day s) \<and>
     0 < quota_jobs_per_repo_per_hour s \<and> 0 < quota_jobs_total_per_day s"
  by (auto simp: enforce_public_mode_def)

lemma secure_config_same: "enforce_secure_config c s = Ret s' \<Longrightarrow> s' = s"
  by (auto simp: enforce_secure_config_def split: if_splits)

lemma default_settings_multi_tenant [simp]: "\<not> multi_tenant_enabled default_settings"
  by (simp add: multi_tenant_enabled_def default_settings_def)

text \<open>
  An instance that boots in public mode has an allowlist, is dry-run, has both quotas positive
  (and the tenant quota when it serves installations); one that boots without the insecure escape
  hatch has a real webhook secret and a token that is not blank, and does not keep its queue in
  SQLite inside a container.
\<close>

theorem booted_settings_secure:
  assumes "enforce_secure_config c s = Ret s'"
  shows "s' = s \<and>
    (public_mode s \<longrightarrow> allowed_repo_set s \<noteq> {} \<and> github_dry_run s \<and>
       (multi_tenant_enabled s \<longrightarrow> 0 < quota_jobs_per_installation_per_day s) \<and>
       0 < quota_jobs_per_repo_per_hour s \<and> 0 < quota_jobs_total_per_day s) \<and>
    (\<not> allow_insecure s \<longrightarrow> webhook_secret s \<noteq> PLACEHOLDER_WEBHOOK_SECRET \<and>
       strip (api_token s) \<noteq> [] \<and> \<not> (is_sqlite s \<and> c))"
proof -
  have "public_mode s \<longrightarrow> enforce_public_mode s = Ret ()"
    using assms by (auto simp: enforce_secure_config_def split: if_splits)
  moreover have "\<not> allow_insecure s \<longrightarrow> webhook_secret s \<noteq> PLACEHOLDER_WEBHOOK_SECRET \<and>
       strip (api_token s) \<noteq> [] \<and> \<not> (is_sqlite s \<and> c)"
    using assms by (auto simp: enforce_secure_config_def split: if_splits)
  ultimately show ?thesis using secure_config_same [OF assms] by (simp add: public_mode_ok)
qed

definition demo_settings :: settings where
  "demo_settings = default_settings\<lparr>webhook_secret := ''s3cret'', api_token := ''t0ken'',
     public_mode := True, allowed_repos := ''octo/demo'',
     quota_jobs_per_repo_per_hour := 5, quota_jobs_total_per_day := 50\<rparr>"

theorem booted_settings_secure_witness:
  "enforce_secure_config False demo_settings = Ret demo_settings \<and>
     allowed_repo_set demo_settings \<noteq> {} \<and> github_dry_run demo_settings"
proof -
  have b: "enforce_secure_config False demo_settings = Ret demo_settings"
    by code_simp
  have "public_mode demo_settings" by (simp add: demo_settings_def)
  with booted_settings_secure [OF b] b show ?thesis by simp
qed

end
