(* ===== verification/Models.thy ===== *)
theory Models
  imports Config
begin

text \<open>
  The data model: \<^verbatim>\<open>src/app/models.py\<close> (status enums, the four tables) and the statement helpers of
  \<^verbatim>\<open>src/app/db.py\<close>. A table is the generic \<open>table\<close> of the prelude; a statement that commits is a
  function from the database to the database. Time stamps are integers, in microseconds; column
  length limits are not modelled.

  The invariant \<open>wf_db\<close> collects the schema's unique and primary keys. Each table interprets the
  locale \<open>unique_table\<close>, so the facts on selections and writes are available as \<open>jobs.\<dots>\<close>,
  \<open>decisions.\<dots>\<close> and \<open>tenants.\<dots>\<close>.
\<close>

section \<open>Enumerations\<close>

datatype job_status = JOB_PENDING | QUEUED | PROCESSING | DONE | DEAD

fun job_status_value :: "job_status \<Rightarrow> string" where
  "job_status_value JOB_PENDING = ''pending''"
| "job_status_value QUEUED = ''queued''"
| "job_status_value PROCESSING = ''processing''"
| "job_status_value DONE = ''done''"
| "job_status_value DEAD = ''dead''"

datatype decision_status = PENDING | APPROVED | REJECTED | EXECUTED | FAILED

fun decision_status_value :: "decision_status \<Rightarrow> string" where
  "decision_status_value PENDING = ''pending''"
| "decision_status_value APPROVED = ''approved''"
| "decision_status_value REJECTED = ''rejected''"
| "decision_status_value EXECUTED = ''executed''"
| "decision_status_value FAILED = ''failed''"

definition all_job_statuses :: "job_status list" where
  "all_job_statuses = [JOB_PENDING, QUEUED, PROCESSING, DONE, DEAD]"

definition all_decision_statuses :: "decision_status list" where
  "all_decision_statuses = [PENDING, APPROVED, REJECTED, EXECUTED, FAILED]"


section \<open>Rows\<close>

record pr_job =
  job_id :: int
  job_dedup_key :: string
  job_repo :: string
  job_pr_number :: int
  job_commit_sha :: string
  job_author :: string
  job_event :: string
  job_installation_id :: "int option"
  job_status :: job_status
  attempts :: int
  stream_msg_id :: "string option"
  job_last_error :: "string option"
  event_context :: "string option"
  job_created_at :: int
  job_updated_at :: int

record job_result =
  result_job_id :: int
  result_summary :: string
  result_created_at :: int

record review_decision =
  dec_id :: int
  dec_dedup_key :: string
  dec_repo :: string
  dec_pr_number :: int
  dec_commit_sha :: string
  dec_installation_id :: "int option"
  dec_action :: string
  dec_risk :: string
  dec_reason :: string
  dec_title :: string
  dec_body :: string
  dec_status :: decision_status
  result_url :: "string option"
  dec_last_error :: "string option"
  dec_created_at :: int
  dec_updated_at :: int

record installation =
  inst_pk :: int
  installation_id :: int
  account_login :: string
  account_type :: string
  account_id :: "int option"
  target_type :: string
  repository_selection :: string
  suspended_at :: "int option"
  deleted_at :: "int option"
  inst_created_at :: int
  inst_updated_at :: int

definition is_active :: "installation \<Rightarrow> bool" where
  "is_active i \<longleftrightarrow> deleted_at i = None \<and> suspended_at i = None"

record database =
  pr_jobs :: "pr_job table"
  job_results :: "job_result list"
  review_decisions :: "review_decision table"
  installations :: "installation table"

definition empty_db :: database where
  "empty_db = \<lparr>pr_jobs = empty_table, job_results = [], review_decisions = empty_table,
     installations = empty_table\<rparr>"


section \<open>Statement helpers\<close>

text \<open>
  The database helpers are the generic ones: \<open>execute_for_rowcount\<close> is an update together with its
  row count, and \<open>insert_ignore_duplicates\<close> an insert that the unique key may suppress; its second
  component says which id this statement inserted, if any.
\<close>

definition execute_for_rowcount ::
    "('r \<Rightarrow> bool) \<Rightarrow> ('r \<Rightarrow> 'r) \<Rightarrow> 'r table \<Rightarrow> 'r table \<times> nat" where
  "execute_for_rowcount P f t = (update_where P f t, rowcount P t)"

definition insert_ignore_duplicates ::
    "('r \<Rightarrow> 'k) \<Rightarrow> (int \<Rightarrow> 'r) \<Rightarrow> 'r table \<Rightarrow> 'r table \<times> int option" where
  "insert_ignore_duplicates key mk t =
     (if \<exists>r\<in>set (rows t). key r = key (mk (seq t)) then (t, None)
      else (insert_row mk t, Some (seq t)))"

definition supports_insert_returning :: "settings \<Rightarrow> nat \<times> nat \<times> nat \<Rightarrow> bool" where
  "supports_insert_returning s v = (if \<not> is_sqlite s then True
     else (case v of (a, b, c) \<Rightarrow> a > 3 \<or> (a = 3 \<and> b \<ge> 35)))"

definition expected_tables :: "string list" where
  "expected_tables = [''installations'', ''job_results'', ''pr_jobs'', ''review_decisions'']"

definition assert_schema_ready :: "settings \<Rightarrow> string list \<Rightarrow> unit res" where
  "assert_schema_ready s existing =
     (let missing = filter (\<lambda>t. t \<notin> set existing) expected_tables in
      if missing \<noteq> [] then
        Raise (Exc RuntimeError (''database schema is not migrated: missing table(s) '' @
          join '', '' missing @ ''. Run `alembic upgrade head` against '' @ str_repr (database_url s) @
          '' before starting AutoPR.''))
      else Ret ())"


section \<open>New rows, and the tables as unique tables\<close>

definition with_job_id :: "pr_job \<Rightarrow> int \<Rightarrow> pr_job" where
  "with_job_id j i = j\<lparr>job_id := i\<rparr>"

definition with_dec_id :: "review_decision \<Rightarrow> int \<Rightarrow> review_decision" where
  "with_dec_id r i = r\<lparr>dec_id := i\<rparr>"

definition with_inst_pk :: "installation \<Rightarrow> int \<Rightarrow> installation" where
  "with_inst_pk r i = r\<lparr>inst_pk := i\<rparr>"

interpretation jobs: unique_table job_id job_dedup_key with_job_id job_dedup_key
  by unfold_locales (simp_all add: with_job_id_def)

interpretation decisions: unique_table dec_id dec_dedup_key with_dec_id dec_dedup_key
  by unfold_locales (simp_all add: with_dec_id_def)

interpretation tenants: unique_table inst_pk installation_id with_inst_pk installation_id
  by unfold_locales (simp_all add: with_inst_pk_def)

definition wf_db :: "database \<Rightarrow> bool" where
  "wf_db d \<longleftrightarrow> wf_table job_id job_dedup_key (pr_jobs d) \<and>
     wf_table dec_id dec_dedup_key (review_decisions d) \<and>
     wf_table inst_pk installation_id (installations d) \<and>
     distinct (map result_job_id (job_results d))"

lemma wf_empty_db [simp, wf_intros]: "wf_db empty_db"
  by (simp add: wf_db_def empty_db_def jobs.wf_empty decisions.wf_empty tenants.wf_empty)

lemma wf_dbD:
  assumes "wf_db d"
  shows "wf_table job_id job_dedup_key (pr_jobs d)"
    "wf_table dec_id dec_dedup_key (review_decisions d)"
    "wf_table inst_pk installation_id (installations d)"
    "distinct (map result_job_id (job_results d))"
  using assms by (simp_all add: wf_db_def)

text \<open>One rule per table: a write that keeps that table well formed keeps the database so.\<close>

lemma wf_db_jobs [wf_intros]:
  "wf_db d \<Longrightarrow> wf_table job_id job_dedup_key t \<Longrightarrow> wf_db (d\<lparr>pr_jobs := t\<rparr>)"
  by (simp add: wf_db_def)

lemma wf_db_decisions [wf_intros]:
  "wf_db d \<Longrightarrow> wf_table dec_id dec_dedup_key t \<Longrightarrow> wf_db (d\<lparr>review_decisions := t\<rparr>)"
  by (simp add: wf_db_def)

lemma wf_db_installations [wf_intros]:
  "wf_db d \<Longrightarrow> wf_table inst_pk installation_id t \<Longrightarrow> wf_db (d\<lparr>installations := t\<rparr>)"
  by (simp add: wf_db_def)

lemma wf_db_results [wf_intros]:
  "wf_db d \<Longrightarrow> distinct (map result_job_id rs) \<Longrightarrow> wf_db (d\<lparr>job_results := rs\<rparr>)"
  by (simp add: wf_db_def)

text \<open>Selections by primary key, on the database.\<close>

definition get_job :: "database \<Rightarrow> int \<Rightarrow> pr_job option" where
  "get_job d i = select_one (\<lambda>j. job_id j = i) (pr_jobs d)"

definition get_decision :: "database \<Rightarrow> int \<Rightarrow> review_decision option" where
  "get_decision d i = select_one (\<lambda>r. dec_id r = i) (review_decisions d)"

lemma get_job_iff:
  "wf_db d \<Longrightarrow> get_job d i = Some j \<longleftrightarrow> j \<in> set (rows (pr_jobs d)) \<and> job_id j = i"
  by (simp add: get_job_def jobs.select_by_id wf_dbD)

lemma get_decision_iff:
  "wf_db d \<Longrightarrow> get_decision d i = Some r \<longleftrightarrow> r \<in> set (rows (review_decisions d)) \<and> dec_id r = i"
  by (simp add: get_decision_def decisions.select_by_id wf_dbD)

lemma get_job_id: "get_job d i = Some j \<Longrightarrow> job_id j = i"
  by (auto simp: get_job_def dest: select_one_Some)

lemma get_decision_id: "get_decision d i = Some r \<Longrightarrow> dec_id r = i"
  by (auto simp: get_decision_def dest: select_one_Some)

text \<open>A conditional UPDATE of one decision, by primary key: the compare-and-set of the service.\<close>

definition update_decision ::
    "int \<Rightarrow> (review_decision \<Rightarrow> bool) \<Rightarrow> (review_decision \<Rightarrow> review_decision) \<Rightarrow>
     database \<Rightarrow> database" where
  "update_decision i P f d =
     d\<lparr>review_decisions := update_where (\<lambda>r. dec_id r = i \<and> P r) f (review_decisions d)\<rparr>"

definition update_job ::
    "int \<Rightarrow> (pr_job \<Rightarrow> bool) \<Rightarrow> (pr_job \<Rightarrow> pr_job) \<Rightarrow> database \<Rightarrow> database" where
  "update_job i P f d = d\<lparr>pr_jobs := update_where (\<lambda>j. job_id j = i \<and> P j) f (pr_jobs d)\<rparr>"

text \<open>The same statements as the code issues them, with the row count of the cursor.\<close>

definition exec_decision ::
    "int \<Rightarrow> (review_decision \<Rightarrow> bool) \<Rightarrow> (review_decision \<Rightarrow> review_decision) \<Rightarrow>
     database \<Rightarrow> database \<times> nat" where
  "exec_decision i P f d =
     (let (t, n) = execute_for_rowcount (\<lambda>r. dec_id r = i \<and> P r) f (review_decisions d)
      in (d\<lparr>review_decisions := t\<rparr>, n))"

definition exec_job ::
    "int \<Rightarrow> (pr_job \<Rightarrow> bool) \<Rightarrow> (pr_job \<Rightarrow> pr_job) \<Rightarrow> database \<Rightarrow> database \<times> nat" where
  "exec_job i P f d =
     (let (t, n) = execute_for_rowcount (\<lambda>j. job_id j = i \<and> P j) f (pr_jobs d)
      in (d\<lparr>pr_jobs := t\<rparr>, n))"

lemma exec_decision_eq [simp]:
  "exec_decision i P f d =
     (update_decision i P f d, rowcount (\<lambda>r. dec_id r = i \<and> P r) (review_decisions d))"
  by (simp add: exec_decision_def execute_for_rowcount_def update_decision_def)

lemma exec_job_eq [simp]:
  "exec_job i P f d = (update_job i P f d, rowcount (\<lambda>j. job_id j = i \<and> P j) (pr_jobs d))"
  by (simp add: exec_job_def execute_for_rowcount_def update_job_def)

definition keeps_dec_keys :: "(review_decision \<Rightarrow> review_decision) \<Rightarrow> bool" where
  "keeps_dec_keys f \<longleftrightarrow> (\<forall>r. dec_id (f r) = dec_id r \<and> dec_dedup_key (f r) = dec_dedup_key r)"

definition keeps_job_keys :: "(pr_job \<Rightarrow> pr_job) \<Rightarrow> bool" where
  "keeps_job_keys f \<longleftrightarrow> (\<forall>j. job_id (f j) = job_id j \<and> job_dedup_key (f j) = job_dedup_key j)"

lemma wf_update_decision [wf_intros]:
  "wf_db d \<Longrightarrow> keeps_dec_keys f \<Longrightarrow> wf_db (update_decision i P f d)"
  unfolding update_decision_def
  by (intro wf_intros decisions.wf_update) (simp_all add: wf_dbD keeps_dec_keys_def)

lemma wf_update_job [wf_intros]:
  "wf_db d \<Longrightarrow> keeps_job_keys f \<Longrightarrow> wf_db (update_job i P f d)"
  unfolding update_job_def
  by (intro wf_intros jobs.wf_update) (simp_all add: wf_dbD keeps_job_keys_def)

lemma get_update_decision [simp]:
  "keeps_dec_keys f \<Longrightarrow> get_decision (update_decision i P f d) k =
     map_option (\<lambda>r. if k = i \<and> P r then f r else r) (get_decision d k)"
  by (auto simp: get_decision_def update_decision_def decisions.lookup_update keeps_dec_keys_def
      intro!: map_option_cong dest: select_one_Some)

lemma get_update_job [simp]:
  "keeps_job_keys f \<Longrightarrow> get_job (update_job i P f d) k =
     map_option (\<lambda>j. if k = i \<and> P j then f j else j) (get_job d k)"
  by (auto simp: get_job_def update_job_def jobs.lookup_update keeps_job_keys_def
      intro!: map_option_cong dest: select_one_Some)

lemma frame_update_decision [simp]:
  "pr_jobs (update_decision i P f d) = pr_jobs d"
  "job_results (update_decision i P f d) = job_results d"
  "installations (update_decision i P f d) = installations d"
  "get_job (update_decision i P f d) k = get_job d k"
  by (simp_all add: update_decision_def get_job_def)

lemma frame_update_job [simp]:
  "review_decisions (update_job i P f d) = review_decisions d"
  "job_results (update_job i P f d) = job_results d"
  "installations (update_job i P f d) = installations d"
  "get_decision (update_job i P f d) k = get_decision d k"
  by (simp_all add: update_job_def get_decision_def)

text \<open>Whether the compare-and-set found its row, read from the row count.\<close>

lemma rowcount_decision:
  assumes "wf_db d"
  shows "0 < rowcount (\<lambda>r. dec_id r = i \<and> P r) (review_decisions d) \<longleftrightarrow>
    (\<exists>r. get_decision d i = Some r \<and> P r)"
  by (auto simp: get_decision_iff [OF assms])

lemma rowcount_job:
  assumes "wf_db d"
  shows "0 < rowcount (\<lambda>j. job_id j = i \<and> P j) (pr_jobs d) \<longleftrightarrow> (\<exists>j. get_job d i = Some j \<and> P j)"
  by (auto simp: get_job_iff [OF assms])

lemma keeps_dec_keys_status [simp]:
  "keeps_dec_keys (\<lambda>r. r\<lparr>dec_status := s, dec_updated_at := t\<rparr>)"
  "keeps_dec_keys (\<lambda>r. r\<lparr>dec_status := s, dec_last_error := e, dec_updated_at := t\<rparr>)"
  "keeps_dec_keys (\<lambda>r. r\<lparr>dec_status := s, result_url := u, dec_updated_at := t\<rparr>)"
  by (simp_all add: keeps_dec_keys_def)

end
