(* ===== verification/Pr_State.thy ===== *)
theory Pr_State
  imports Models
begin

text \<open>
  The state that flows through the pipeline, \<^verbatim>\<open>src/app/agents/state.py\<close>. A key of the dictionary is a
  field of option type, \<open>None\<close> when the key is absent. Values that come straight from a model reply
  (\<open>review_findings\<close>, \<open>summary\<close>, \<open>failure_diagnosis\<close>, \<open>failure_excerpt\<close>) are untyped JSON, because
  the agents copy them without a check; \<open>installation_id\<close> is JSON because its reader tolerates any
  value. A graph node returns the keys it changes; its model returns the state with them updated.
\<close>

record changed_file =
  cf_path :: "string option"
  cf_patch :: "string option"

record pr_state =
  repo :: "string option"
  pr_number :: "int option"
  commit_sha :: "string option"
  st_installation_id :: "json option"
  changed_files :: "changed_file list option"
  ci_logs :: "string option"
  ci_event :: "string option"
  review_findings :: "json option"
  risk_score :: "string option"
  summary :: "json option"
  generated_tests :: "string option"
  failure_type :: "string option"
  failure_diagnosis :: "json option"
  failure_excerpt :: "json option"
  proposed_fix :: "string option"
  fix_attempts :: "int option"
  repo_snapshot :: "(string \<times> string) list option"
  fix_verified :: "bool option"
  verification_reason :: "string option"
  verification_output :: "string option"
  rag_context :: "string option"
  routing_action :: "string option"
  routing_reason :: "string option"
  approval_required :: "bool option"
  action_taken :: "string option"
  action_url :: "string option"
  decision_id :: "int option"

definition empty_state :: pr_state where
  "empty_state = \<lparr>repo = None, pr_number = None, commit_sha = None, st_installation_id = None,
     changed_files = None, ci_logs = None, ci_event = None, review_findings = None,
     risk_score = None, summary = None, generated_tests = None, failure_type = None,
     failure_diagnosis = None, failure_excerpt = None, proposed_fix = None, fix_attempts = None,
     repo_snapshot = None, fix_verified = None, verification_reason = None,
     verification_output = None, rag_context = None, routing_action = None, routing_reason = None,
     approval_required = None, action_taken = None, action_url = None, decision_id = None\<rparr>"

text \<open>\<open>state.get(key, "") or default\<close> for a text and for an untyped value.\<close>

definition str_or :: "string \<Rightarrow> string option \<Rightarrow> string" where
  "str_or d v = (if get_default [] v = [] then d else get_default [] v)"

definition json_or :: "string \<Rightarrow> json option \<Rightarrow> json" where
  "json_or d v = (case v of None \<Rightarrow> JStr d | Some x \<Rightarrow> if truthy x then x else JStr d)"

definition truthy_str :: "string option \<Rightarrow> bool" where
  "truthy_str v \<longleftrightarrow> get_default [] v \<noteq> []"

definition truthy_json :: "json option \<Rightarrow> bool" where
  "truthy_json v \<longleftrightarrow> (case v of None \<Rightarrow> False | Some x \<Rightarrow> truthy x)"

lemma truthy_str_simps [simp]: "\<not> truthy_str None" "truthy_str (Some s) \<longleftrightarrow> s \<noteq> []"
  by (simp_all add: truthy_str_def)

lemma truthy_json_simps [simp]: "\<not> truthy_json None" "truthy_json (Some v) \<longleftrightarrow> truthy v"
  by (simp_all add: truthy_json_def)

end
