(* ===== verification/Policy.thy ===== *)
theory Policy
  imports Pr_State
begin

text \<open>
  The routing policy, \<^verbatim>\<open>src/app/routing/policy.py\<close>: from a finished pipeline state to one
  \<open>RoutingDecision\<close>. The renderers call string methods on values a model supplied, so a decision is
  a result that may be an exception; \<open>route_total\<close> says for which states it is not.
\<close>

section \<open>Actions, risk, decisions\<close>

datatype action = COMMENT_REVIEW | PROPOSE_FIX | ESCALATE | NO_ACTION

fun action_value :: "action \<Rightarrow> string" where
  "action_value COMMENT_REVIEW = ''comment_review''"
| "action_value PROPOSE_FIX = ''propose_fix''"
| "action_value ESCALATE = ''escalate''"
| "action_value NO_ACTION = ''none''"

text \<open>\<open>Action(value)\<close>: the member with that value, a \<open>ValueError\<close> otherwise.\<close>

definition action_of :: "string \<Rightarrow> action res" where
  "action_of v = (if v = ''comment_review'' then Ret COMMENT_REVIEW
     else if v = ''propose_fix'' then Ret PROPOSE_FIX
     else if v = ''escalate'' then Ret ESCALATE
     else if v = ''none'' then Ret NO_ACTION
     else Raise (Exc ValueError (str_repr v @ '' is not a valid Action'')))"

lemma action_of_value [simp]: "action_of (action_value a) = Ret a"
  by (cases a) (simp_all add: action_of_def)

lemma action_value_inj: "action_value a = action_value b \<Longrightarrow> a = b"
  by (metis action_of_value sum.inject(2))

definition RISK_ORDER :: "string list" where
  "RISK_ORDER = [''trivial'', ''low'', ''medium'', ''high'']"

fun index_of :: "'a \<Rightarrow> 'a list \<Rightarrow> nat option" where
  "index_of x [] = None"
| "index_of x (y # ys) = (if x = y then Some 0 else map_option Suc (index_of x ys))"

definition risk_rank :: "string \<Rightarrow> nat" where
  "risk_rank risk = (case index_of risk RISK_ORDER of
     Some i \<Rightarrow> i | None \<Rightarrow> length RISK_ORDER - 1)"

record routing_decision =
  rd_action :: action
  requires_approval :: bool
  rd_risk :: string
  rd_reason :: string
  rd_title :: string
  rd_body :: string

definition is_actionable :: "routing_decision \<Rightarrow> bool" where
  "is_actionable d \<longleftrightarrow> rd_action d \<noteq> NO_ACTION"

definition dedup_key :: "routing_decision \<Rightarrow> pr_state \<Rightarrow> string" where
  "dedup_key d st = join ''|''
     [get_default ''?'' (repo st), int_str (get_default 0 (pr_number st)),
      get_default ''?'' (commit_sha st), action_value (rd_action d)]"


section \<open>Body renderers\<close>

definition robot :: string where "robot = [CHR 0xF0, CHR 0x9F, CHR 0xA4, CHR 0x96]"
definition red_circle :: string where "red_circle = [CHR 0xF0, CHR 0x9F, CHR 0x94, CHR 0xB4]"
definition yellow_circle :: string where "yellow_circle = [CHR 0xF0, CHR 0x9F, CHR 0x9F, CHR 0xA1]"
definition blue_circle :: string where "blue_circle = [CHR 0xF0, CHR 0x9F, CHR 0x94, CHR 0xB5]"
definition test_tube :: string where "test_tube = [CHR 0xF0, CHR 0x9F, CHR 0xA7, CHR 0xAA]"
definition em_dash :: string where "em_dash = [CHR 0xE2, CHR 0x80, CHR 0x94]"
definition backtick :: string where "backtick = [CHR 0x60]"
definition fence :: string where "fence = [CHR 0x60, CHR 0x60, CHR 0x60]"

definition quoted :: "string \<Rightarrow> string" where
  "quoted s = backtick @ s @ backtick"

definition DRAFT_LIMIT :: nat where "DRAFT_LIMIT = 4000"

definition render_draft_tests :: "string \<Rightarrow> string list" where
  "render_draft_tests tests =
     (let body = strip tests in
      if body = [] then []
      else
        (let truncated = (length body > DRAFT_LIMIT); body = take DRAFT_LIMIT body in
         [[], ''<details><summary>'' @ test_tube @ '' Suggested tests (draft '' @ em_dash @
            '' not executed)</summary>'', [], fence @ ''python'', body, fence] @
         (if truncated then [[], ''_(truncated at '' @ nat_str DRAFT_LIMIT @
            '' characters to keep the comment readable)_''] else []) @
         [''</details>'']))"

definition severity_icon :: "string \<Rightarrow> string" where
  "severity_icon sev = (if sev = ''error'' then red_circle
     else if sev = ''warning'' then yellow_circle else blue_circle)"

text \<open>One finding; a finding that is not a dictionary, or whose message is not a text, raises.\<close>

definition render_finding :: "json \<Rightarrow> string res" where
  "render_finding f =
     rbind (jget f ''severity'') (\<lambda>s. rbind (jget f ''file'') (\<lambda>file.
     rbind (jget f ''line'') (\<lambda>line. rbind (jget f ''message'') (\<lambda>m.
     rbind (json_strip (get_default (JStr []) m)) (\<lambda>msg.
       Ret (''- '' @ severity_icon (lower (json_str (get_default (JStr ''info'') s))) @ '' '' @
         quoted (json_str (get_default (JStr ''?'') file) @ '':'' @
                 json_str (get_default (JStr ''?'') line)) @
         '' '' @ em_dash @ '' '' @ msg))))))"

definition render_review_body :: "pr_state \<Rightarrow> string res" where
  "render_review_body st =
     (let findings = (case review_findings st of None \<Rightarrow> JList []
            | Some v \<Rightarrow> if truthy v then v else JList []);
          summ = json_or ''(no summary produced)'' (summary st);
          risk = get_default ''medium'' (risk_score st) in
      rbind (json_strip summ) (\<lambda>s.
      rbind (if truthy findings
             then rbind (json_iter findings) (\<lambda>fs. rbind (rmap render_finding fs) (\<lambda>ls.
                    Ret ([[], ''### Findings''] @ ls)))
             else Ret [[], ''_No blocking issues found._'']) (\<lambda>ls.
        Ret (join_lines ([''## '' @ robot @ '' AutoPR review'', [],
              ''**Risk:** '' @ quoted risk, [], s] @ ls @
              render_draft_tests (get_default [] (generated_tests st)))))))"

definition render_fix_body :: "pr_state \<Rightarrow> string res" where
  "render_fix_body st =
     rbind (json_strip (json_or ''(no diagnosis)'' (failure_diagnosis st))) (\<lambda>diag.
       Ret (join_lines
         [''## '' @ robot @ '' AutoPR proposed fix (sandbox-verified)'', [],
          ''**Failure type:** '' @ quoted (get_default ''unknown'' (failure_type st)), [],
          ''**Diagnosis:** '' @ diag, [],
          ''This patch was applied to a snapshot of the repo and the matching '' @
          ''check passed inside an isolated sandbox. A maintainer must approve '' @
          ''before it is applied to the real branch.'', [],
          fence @ ''diff'', strip (get_default [] (proposed_fix st)), fence]))"

definition render_escalation_body :: "pr_state \<Rightarrow> string res" where
  "render_escalation_body st =
     rbind (json_strip (json_or ''(no diagnosis)'' (failure_diagnosis st))) (\<lambda>diag.
       (let reason = str_or ''n/a'' (verification_reason st);
            out = get_default [] (verification_output st) in
        Ret (join_lines
         ([''## '' @ robot @ '' AutoPR could not auto-fix this '' @ em_dash @ '' human needed'', [],
           ''**Failure type:** '' @ quoted (get_default ''unknown'' (failure_type st)), [],
           ''**Diagnosis:** '' @ diag, [],
           ''**Why not auto-fixed:** '' @ quoted reason] @
          (if strip out \<noteq> [] then
             [[], ''<details><summary>Sandbox output</summary>'', [], fence,
              tail_slice 1500 (strip out), fence, ''</details>'']
           else [])))))"


section \<open>The decision\<close>

definition route_ci :: "pr_state \<Rightarrow> routing_decision res" where
  "route_ci st =
     (let risk = get_default ''medium'' (risk_score st) in
      if fix_verified st = Some True then
        rbind (render_fix_body st) (\<lambda>b. Ret
          \<lparr>rd_action = PROPOSE_FIX, requires_approval = True, rd_risk = risk,
           rd_reason = ''verified_fix_needs_promotion'',
           rd_title = ''Verified fix ready for maintainer approval'', rd_body = b\<rparr>)
      else if get_default ''unknown'' (failure_type st) = ''unknown'' \<and>
              \<not> truthy_json (failure_diagnosis st) then
        Ret \<lparr>rd_action = NO_ACTION, requires_approval = False, rd_risk = risk,
             rd_reason = ''no_diagnosis'', rd_title = ''No actionable CI diagnosis'', rd_body = []\<rparr>
      else
        rbind (render_escalation_body st) (\<lambda>b. Ret
          \<lparr>rd_action = ESCALATE, requires_approval = True, rd_risk = risk,
           rd_reason = get_default ''unfixed'' (verification_reason st),
           rd_title = ''CI failure needs human attention'', rd_body = b\<rparr>))"

definition auto_ok :: "settings \<Rightarrow> string \<Rightarrow> bool" where
  "auto_ok s risk \<longleftrightarrow> risk_rank risk \<le> risk_rank (auto_comment_max_risk s) \<and> \<not> handoff_mode s"

definition route_pr :: "settings \<Rightarrow> pr_state \<Rightarrow> routing_decision res" where
  "route_pr s st =
     (let risk = get_default ''medium'' (risk_score st); auto = auto_ok s risk in
      rbind (render_review_body st) (\<lambda>b. Ret
        \<lparr>rd_action = COMMENT_REVIEW, requires_approval = (\<not> auto), rd_risk = risk,
         rd_reason = (if auto then ''low_risk_auto'' else ''elevated_risk_needs_approval''),
         rd_title = (if auto then ''Auto-posting low-risk review''
                     else ''Review held for maintainer approval''), rd_body = b\<rparr>))"

definition is_ci_state :: "pr_state \<Rightarrow> bool" where
  "is_ci_state st \<longleftrightarrow> failure_type st \<noteq> None \<or> truthy_str (ci_logs st) \<or> truthy_str (ci_event st)"

definition route :: "settings \<Rightarrow> pr_state \<Rightarrow> routing_decision res" where
  "route s st = (if is_ci_state st then route_ci st else route_pr s st)"


section \<open>Facts\<close>

lemmas route_defs = route_def route_ci_def route_pr_def Let_def

lemma index_of_Some: "index_of x xs = Some i \<longleftrightarrow> i < length xs \<and> xs ! i = x \<and> x \<notin> set (take i xs)"
proof (induction xs arbitrary: i)
  case (Cons y ys)
  show ?case
  proof (cases i)
    case 0
    then show ?thesis by auto
  next
    case (Suc j)
    with Cons.IH [of j] show ?thesis by auto
  qed
qed simp

lemma risk_rank_bound: "risk_rank r \<le> 3"
  by (simp add: risk_rank_def RISK_ORDER_def split: option.splits)

lemma risk_rank_values:
  "risk_rank ''trivial'' = 0" "risk_rank ''low'' = 1" "risk_rank ''medium'' = 2"
  "risk_rank ''high'' = 3"
  by (simp_all add: risk_rank_def RISK_ORDER_def)

lemma risk_rank_unknown: "r \<notin> set RISK_ORDER \<Longrightarrow> risk_rank r = 3"
  by (simp add: risk_rank_def RISK_ORDER_def)

lemma risk_rank_low: "risk_rank r \<le> Suc 0 \<longleftrightarrow> r = ''trivial'' \<or> r = ''low''"
  by (cases "r \<in> set RISK_ORDER") (auto simp: risk_rank_def RISK_ORDER_def)

text \<open>
  A state whose model supplied values have the shape the prompt asks for: findings are a list of
  dictionaries whose message is a text, the summary and the diagnosis are texts.
\<close>

definition finding_ok :: "json \<Rightarrow> bool" where
  "finding_ok f = (case f of JDict d \<Rightarrow>
     (case map_of d ''message'' of None \<Rightarrow> True | Some m \<Rightarrow> is_jstr m) | _ \<Rightarrow> False)"

definition text_ok :: "json option \<Rightarrow> bool" where
  "text_ok v = (case v of None \<Rightarrow> True | Some x \<Rightarrow> truthy x \<longrightarrow> is_jstr x)"

definition findings_ok :: "json option \<Rightarrow> bool" where
  "findings_ok v = (case v of None \<Rightarrow> True
     | Some x \<Rightarrow> \<not> truthy x \<or> (case x of JList fs \<Rightarrow> list_all finding_ok fs | _ \<Rightarrow> False))"

definition well_typed_state :: "pr_state \<Rightarrow> bool" where
  "well_typed_state st \<longleftrightarrow> findings_ok (review_findings st) \<and> text_ok (summary st) \<and>
     text_ok (failure_diagnosis st)"

lemma json_strip_total: "text_ok v \<Longrightarrow> \<exists>s. json_strip (json_or d v) = Ret s"
  by (auto simp: text_ok_def json_or_def json_strip_def is_jstr_def split: option.splits json.splits)

lemma render_finding_total: "finding_ok f \<Longrightarrow> \<exists>s. render_finding f = Ret s"
  by (auto simp: finding_ok_def render_finding_def is_jstr_def get_default_def json_strip_def
      split: json.splits option.splits)

lemma render_review_total:
  assumes "findings_ok (review_findings st)" and "text_ok (summary st)"
  shows "\<exists>b. render_review_body st = Ret b"
proof -
  let ?fs = "case review_findings st of None \<Rightarrow> JList [] | Some v \<Rightarrow> if truthy v then v else JList []"
  obtain s where s: "json_strip (json_or ''(no summary produced)'' (summary st)) = Ret s"
    using json_strip_total [OF assms(2)] by blast
  have "\<exists>ls. rbind (json_iter ?fs) (\<lambda>fs. rbind (rmap render_finding fs) (\<lambda>ls.
      Ret ([[], ''### Findings''] @ ls))) = Ret ls" if "truthy ?fs"
  proof -
    note tr = that
    obtain v where v: "review_findings st = Some v" "truthy v" "?fs = v"
      using tr by (auto split: option.splits if_splits)
    with assms(1) obtain fs where fs: "?fs = JList fs" "list_all finding_ok fs"
      by (auto simp: findings_ok_def split: json.splits)
    then have "\<exists>ls. rmap render_finding fs = Ret ls"
      by (intro rmap_total render_finding_total) (simp add: list_all_iff)
    with fs show ?thesis by (auto simp: json_iter_def)
  qed
  then show ?thesis by (auto simp: render_review_body_def s Let_def)
qed

text \<open>
  The policy decides every state whose model supplied parts have the declared shape: \<open>route\<close>
  returns a decision, on both tracks and on every branch.
\<close>

theorem route_total:
  assumes "well_typed_state st"
  shows "\<exists>d. route s st = Ret d"
proof -
  obtain diag where "json_strip (json_or ''(no diagnosis)'' (failure_diagnosis st)) = Ret diag"
    using assms json_strip_total by (auto simp: well_typed_state_def)
  moreover obtain b where "render_review_body st = Ret b"
    using assms render_review_total by (auto simp: well_typed_state_def)
  ultimately show ?thesis
    by (auto simp: route_defs render_fix_body_def render_escalation_body_def)
qed

definition demo_review_state :: pr_state where
  "demo_review_state = empty_state\<lparr>repo := Some ''octo/demo'', pr_number := Some 7,
     commit_sha := Some ''abc123'', changed_files := Some [],
     review_findings := Some (JList [JDict [(''file'', JStr ''a.py''), (''line'', JInt 3),
       (''severity'', JStr ''error''), (''message'', JStr ''off by one'')]]),
     risk_score := Some ''low'', summary := Some (JStr ''Small change.'')\<rparr>"

theorem route_total_witness: "\<exists>d. route default_settings demo_review_state = Ret d"
proof -
  have "well_typed_state demo_review_state"
    by (simp add: well_typed_state_def demo_review_state_def empty_state_def findings_ok_def
        finding_ok_def text_ok_def is_jstr_def)
  then show ?thesis by (rule route_total)
qed

text \<open>
  C21. The human gate. A decision that needs no approval is either no action at all or a review
  comment, on the review track, outside hand-off mode, and of a risk not above the configured
  ceiling; every proposed fix and every escalation needs approval whatever its risk.
\<close>

theorem ungated_decisions:
  assumes "route s st = Ret d"
  shows "(\<not> requires_approval d \<longrightarrow> rd_action d = NO_ACTION \<or>
           (rd_action d = COMMENT_REVIEW \<and> \<not> is_ci_state st \<and> \<not> handoff_mode s \<and>
            risk_rank (get_default ''medium'' (risk_score st)) \<le> risk_rank (auto_comment_max_risk s)))
    \<and> (rd_action d \<in> {PROPOSE_FIX, ESCALATE} \<longrightarrow> requires_approval d)"
  using assms by (auto simp: route_defs auto_ok_def split: if_splits)

theorem ungated_decisions_witness:
  "\<exists>d. route default_settings demo_review_state = Ret d \<and> rd_action d = COMMENT_REVIEW \<and>
     \<not> requires_approval d \<and> risk_rank (get_default ''medium'' (risk_score demo_review_state)) \<le> 1"
proof -
  have "\<exists>d. route default_settings demo_review_state = Ret d \<and> \<not> requires_approval d \<and>
      rd_action d = COMMENT_REVIEW"
    by (simp add: route_defs is_ci_state_def auto_ok_def demo_review_state_def default_settings_def
        empty_state_def risk_rank_values render_review_body_def json_iter_def render_finding_def
        json_or_def)
  then obtain d where d: "route default_settings demo_review_state = Ret d"
    "\<not> requires_approval d" "rd_action d = COMMENT_REVIEW" by blast
  from ungated_decisions [OF d(1)] d show ?thesis
    by (auto simp: default_settings_def risk_rank_values)
qed

text \<open>
  With the shipped ceiling \<open>low\<close>, a review is posted without a human only when its score is
  exactly \<open>trivial\<close> or \<open>low\<close>: an unknown label ranks with \<open>high\<close>, and a missing one with \<open>medium\<close>.
\<close>

theorem default_ceiling_gates:
  "route (s\<lparr>auto_comment_max_risk := ''low''\<rparr>) st = Ret d \<Longrightarrow> rd_action d = COMMENT_REVIEW \<Longrightarrow>
     (\<not> requires_approval d \<longleftrightarrow>
        \<not> handoff_mode s \<and> (risk_score st = Some ''trivial'' \<or> risk_score st = Some ''low''))"
  by (cases "risk_score st")
    (auto simp: route_defs auto_ok_def risk_rank_values risk_rank_low split: if_splits)

theorem default_ceiling_gates_witness:
  "\<exists>d. route (default_settings\<lparr>auto_comment_max_risk := ''low''\<rparr>)
       (demo_review_state\<lparr>risk_score := Some ''critical''\<rparr>) = Ret d \<and>
     rd_action d = COMMENT_REVIEW \<and> requires_approval d"
proof -
  let ?st = "demo_review_state\<lparr>risk_score := Some ''critical''\<rparr>"
  have "\<exists>d. route (default_settings\<lparr>auto_comment_max_risk := ''low''\<rparr>) ?st = Ret d \<and>
      rd_action d = COMMENT_REVIEW"
    by (simp add: route_defs is_ci_state_def demo_review_state_def default_settings_def
        empty_state_def render_review_body_def json_iter_def render_finding_def json_or_def)
  then obtain d where d: "route (default_settings\<lparr>auto_comment_max_risk := ''low''\<rparr>) ?st = Ret d"
    "rd_action d = COMMENT_REVIEW" by blast
  from default_ceiling_gates [OF d] d show ?thesis by (auto simp: demo_review_state_def)
qed

lemma bar_free_join:
  "CHR ''|'' \<notin> set a \<Longrightarrow> CHR ''|'' \<notin> set b \<Longrightarrow> CHR ''|'' \<notin> set c \<Longrightarrow> CHR ''|'' \<notin> set e \<Longrightarrow>
     split_on CHR ''|'' (join ''|'' [a, b, c, e]) = [a, b, c, e]"
  by (rule split_on_join) auto

lemma action_value_no_bar: "CHR ''|'' \<notin> set (action_value a)"
  by (cases a) simp_all

text \<open>
  The idempotency key of a decision identifies it: for repository names and commit ids without
  a bar, two decisions have the same key only for the same repository, pull request, commit and
  action.
\<close>

theorem dedup_key_injective:
  assumes "dedup_key d st = dedup_key d' st'"
    and "CHR ''|'' \<notin> set (get_default ''?'' (repo st))" "CHR ''|'' \<notin> set (get_default ''?'' (repo st'))"
    and "CHR ''|'' \<notin> set (get_default ''?'' (commit_sha st))"
    and "CHR ''|'' \<notin> set (get_default ''?'' (commit_sha st'))"
  shows "get_default ''?'' (repo st) = get_default ''?'' (repo st') \<and>
    get_default 0 (pr_number st) = get_default 0 (pr_number st') \<and>
    get_default ''?'' (commit_sha st) = get_default ''?'' (commit_sha st') \<and>
    rd_action d = rd_action d'"
proof -
  have "split_on CHR ''|'' (dedup_key d st) = split_on CHR ''|'' (dedup_key d' st')"
    using assms(1) by simp
  then have "[get_default ''?'' (repo st), int_str (get_default 0 (pr_number st)),
        get_default ''?'' (commit_sha st), action_value (rd_action d)] =
      [get_default ''?'' (repo st'), int_str (get_default 0 (pr_number st')),
        get_default ''?'' (commit_sha st'), action_value (rd_action d')]"
    unfolding dedup_key_def
    by (simp only: bar_free_join assms int_str_no_bar action_value_no_bar not_False_eq_True)
  then show ?thesis by (auto dest: int_str_inj action_value_inj)
qed

theorem dedup_key_injective_witness:
  "\<exists>d. dedup_key d demo_review_state = dedup_key d (demo_review_state\<lparr>risk_score := Some ''high''\<rparr>) \<and>
     repo demo_review_state = repo (demo_review_state\<lparr>risk_score := Some ''high''\<rparr>)"
proof -
  let ?d = "\<lparr>rd_action = COMMENT_REVIEW, requires_approval = True, rd_risk = ''low'',
    rd_reason = [], rd_title = [], rd_body = []\<rparr>"
  let ?t = "demo_review_state\<lparr>risk_score := Some ''high''\<rparr>"
  have k: "dedup_key ?d demo_review_state = dedup_key ?d ?t"
    by (simp add: dedup_key_def)
  have "get_default ''?'' (repo demo_review_state) = get_default ''?'' (repo ?t)"
    using dedup_key_injective [OF k] by (simp add: demo_review_state_def)
  with k show ?thesis by (auto simp: demo_review_state_def)
qed

text \<open>
  However much a model generates, the draft-test block of a comment carries at most the first
  4000 characters of it, fenced, and says so when something was cut.
\<close>

theorem draft_tests_bounded:
  "if strip t = [] then render_draft_tests t = []
   else (\<exists>note. render_draft_tests t =
      [[], ''<details><summary>'' @ test_tube @ '' Suggested tests (draft '' @ em_dash @
         '' not executed)</summary>'', [], fence @ ''python'', take 4000 (strip t), fence] @ note @
      [''</details>''] \<and> (note = [] \<longleftrightarrow> length (strip t) \<le> 4000))"
  by (simp add: render_draft_tests_def DRAFT_LIMIT_def Let_def)

text \<open>
  The policy is not total on everything a model may answer: one finding that is a bare text
  makes \<open>route\<close> raise, although its documentation calls it total.
\<close>

theorem route_raises_on_malformed_finding:
  "route s (empty_state\<lparr>review_findings := Some (JList [JStr ''looks fine'']),
     risk_score := Some ''low'', summary := Some (JStr ''ok'')\<rparr>) = Raise (no_attr ''get'')"
  by (simp add: route_defs is_ci_state_def empty_state_def render_review_body_def json_or_def
      json_iter_def render_finding_def jget_def)

end
