(* ===== verification/Store.thy ===== *)
theory Store
  imports Policy
begin

text \<open>
  The store of routing decisions, \<^verbatim>\<open>src/app/routing/store.py\<close>: the human-in-the-loop queue.

  Each function commits, so its model maps the committed database to the next one. Where the code
  reads and then writes, the two statements may see different databases; \<open>enqueue_tracked_at\<close> takes
  both, and \<open>enqueue_tracked\<close> is the undisturbed run. Time is an argument. \<open>lifecycle\<close> is the
  abstract specification of a decision: which status may follow which, and \<open>store_lifecycle\<close>-style
  lemmas show that every operation follows it.
\<close>

section \<open>Tenant of a state\<close>

definition installation_id_from_state :: "pr_state \<Rightarrow> int option" where
  "installation_id_from_state st = (case st_installation_id st of
       None \<Rightarrow> None
     | Some raw \<Rightarrow> (case raw of
           JInt i \<Rightarrow> if i > 0 then Some i else None
         | JStr t \<Rightarrow> (case py_int (strip t) of
               None \<Rightarrow> None | Some v \<Rightarrow> if v > 0 then Some v else None)
         | _ \<Rightarrow> None))"


section \<open>Operations\<close>

definition new_decision :: "int \<Rightarrow> routing_decision \<Rightarrow> pr_state \<Rightarrow> review_decision" where
  "new_decision now d st = \<lparr>dec_id = 0, dec_dedup_key = dedup_key d st,
     dec_repo = get_default ''?'' (repo st), dec_pr_number = get_default 0 (pr_number st),
     dec_commit_sha = get_default ''?'' (commit_sha st),
     dec_installation_id = installation_id_from_state st,
     dec_action = action_value (rd_action d), dec_risk = rd_risk d, dec_reason = rd_reason d,
     dec_title = rd_title d, dec_body = rd_body d, dec_status = PENDING,
     result_url = None, dec_last_error = None, dec_created_at = now, dec_updated_at = now\<rparr>"

definition find_decision :: "database \<Rightarrow> string \<Rightarrow> review_decision option" where
  "find_decision db key = select_one (\<lambda>r. dec_dedup_key r = key) (review_decisions db)"

text \<open>
  \<open>enqueue_tracked\<close>: select by key in the database \<open>seen\<close>, then insert into the database \<open>db\<close>. A
  concurrent insert in between makes the commit fail on the unique key, and the row is fetched. The
  result is \<open>None\<close> only if that second select finds nothing.
\<close>

definition enqueue_tracked_at ::
    "int \<Rightarrow> database \<Rightarrow> database \<Rightarrow> routing_decision \<Rightarrow> pr_state \<Rightarrow>
     database \<times> (review_decision \<times> bool) option" where
  "enqueue_tracked_at now seen db d st =
     (case find_decision seen (dedup_key d st) of
        Some existing \<Rightarrow> (db, Some (existing, False))
      | None \<Rightarrow>
          (case find_decision db (dedup_key d st) of
             None \<Rightarrow>
               (db\<lparr>review_decisions := insert_row (with_dec_id (new_decision now d st)) (review_decisions db)\<rparr>,
                Some (with_dec_id (new_decision now d st) (seq (review_decisions db)), True))
           | Some row \<Rightarrow> (db, Some (row, False))))"

definition enqueue_tracked ::
    "int \<Rightarrow> database \<Rightarrow> routing_decision \<Rightarrow> pr_state \<Rightarrow> database \<times> (review_decision \<times> bool) option" where
  "enqueue_tracked now db d st = enqueue_tracked_at now db db d st"

definition enqueue ::
    "int \<Rightarrow> database \<Rightarrow> routing_decision \<Rightarrow> pr_state \<Rightarrow> database \<times> review_decision option" where
  "enqueue now db d st = map_prod id (map_option fst) (enqueue_tracked now db d st)"

definition list_pending :: "database \<Rightarrow> review_decision list" where
  "list_pending db =
     sort_key dec_created_at (select_all (\<lambda>r. dec_status r = PENDING) (review_decisions db))"

definition requeue_failed :: "int \<Rightarrow> database \<Rightarrow> int \<Rightarrow> database \<times> bool" where
  "requeue_failed now db i =
     (let (db', n) = exec_decision i (\<lambda>r. dec_status r = FAILED)
            (\<lambda>r. r\<lparr>dec_status := PENDING, dec_last_error := None, dec_updated_at := now\<rparr>) db
      in (db', n > 0))"

text \<open>The compare-and-set from a given status to \<open>APPROVED\<close>.\<close>

definition claim_from :: "decision_status \<Rightarrow> int \<Rightarrow> database \<Rightarrow> int \<Rightarrow> database \<times> bool" where
  "claim_from st now db i =
     (let (db', n) = exec_decision i (\<lambda>r. dec_status r = st)
            (\<lambda>r. r\<lparr>dec_status := APPROVED, dec_updated_at := now\<rparr>) db
      in (db', n > 0))"

datatype outcome = Claimed | AlreadyExecuted | Rejected | InProgress | NotFound

definition claim_approval ::
    "int \<Rightarrow> database \<Rightarrow> int \<Rightarrow> database \<times> review_decision option \<times> outcome" where
  "claim_approval now db i =
     (let (db1, won) = claim_from PENDING now db i in
      case get_decision db1 i of
        None \<Rightarrow> (db1, None, NotFound)
      | Some row \<Rightarrow>
          if won then (db1, Some row, Claimed)
          else if dec_status row = EXECUTED then (db1, Some row, AlreadyExecuted)
          else if dec_status row = REJECTED then (db1, Some row, Rejected)
          else if dec_status row = FAILED then
            (let (db2, retried) = claim_from FAILED now db1 i in
             (db2, get_decision db2 i, if retried then Claimed else InProgress))
          else (db1, Some row, InProgress))"

definition interrupted_error :: string where
  "interrupted_error = ''interrupted during approval; re-approve or reject''"

definition sweep_interrupted :: "int \<Rightarrow> database \<Rightarrow> database \<times> nat" where
  "sweep_interrupted now db =
     (let count = rowcount (\<lambda>r. dec_status r = APPROVED) (review_decisions db) in
      (if count > 0 then
         db\<lparr>review_decisions := update_where (\<lambda>r. dec_status r = APPROVED)
           (\<lambda>r. r\<lparr>dec_status := FAILED, dec_last_error := Some interrupted_error,
                 dec_updated_at := now\<rparr>) (review_decisions db)\<rparr>
       else db, count))"

definition mark_rejected :: "int \<Rightarrow> database \<Rightarrow> int \<Rightarrow> database" where
  "mark_rejected now db i = update_decision i (\<lambda>_. True)
     (\<lambda>r. r\<lparr>dec_status := REJECTED, dec_updated_at := now\<rparr>) db"

definition reject_pending ::
    "int \<Rightarrow> database \<Rightarrow> int \<Rightarrow> database \<times> review_decision option \<times> outcome" where
  "reject_pending now db i =
     (let (db1, n) = exec_decision i (\<lambda>r. dec_status r = PENDING)
            (\<lambda>r. r\<lparr>dec_status := REJECTED, dec_updated_at := now\<rparr>) db in
      case get_decision db1 i of
        None \<Rightarrow> (db1, None, NotFound)
      | Some row \<Rightarrow>
          if n > 0 then (db1, Some row, Rejected)
          else if dec_status row = EXECUTED then (db1, Some row, AlreadyExecuted)
          else (db1, Some row, InProgress))"

definition mark_executed :: "int \<Rightarrow> database \<Rightarrow> int \<Rightarrow> string \<Rightarrow> database" where
  "mark_executed now db i u = update_decision i (\<lambda>_. True)
     (\<lambda>r. r\<lparr>dec_status := EXECUTED, result_url := Some u, dec_updated_at := now\<rparr>) db"

definition mark_failed :: "int \<Rightarrow> database \<Rightarrow> int \<Rightarrow> string \<Rightarrow> database" where
  "mark_failed now db i det = update_decision i (\<lambda>_. True)
     (\<lambda>r. r\<lparr>dec_status := FAILED, dec_last_error := Some det, dec_updated_at := now\<rparr>) db"

lemmas store_defs = requeue_failed_def claim_from_def claim_approval_def sweep_interrupted_def
  mark_rejected_def reject_pending_def mark_executed_def mark_failed_def


section \<open>Well-formedness\<close>

lemma wf_enqueue_at [wf_intros]: "wf_db db \<Longrightarrow> wf_db (fst (enqueue_tracked_at now seen db d st))"
  by (auto simp: enqueue_tracked_at_def find_decision_def split: option.splits
      intro!: wf_intros decisions.wf_insert dest: wf_dbD simp: new_decision_def)

lemma wf_enqueue [wf_intros]: "wf_db db \<Longrightarrow> wf_db (fst (enqueue_tracked now db d st))"
  by (simp add: enqueue_tracked_def wf_enqueue_at)

lemma wf_requeue [wf_intros]: "wf_db db \<Longrightarrow> wf_db (fst (requeue_failed now db i))"
  by (simp add: requeue_failed_def wf_update_decision)

lemma wf_claim_from [wf_intros]: "wf_db db \<Longrightarrow> wf_db (fst (claim_from st now db i))"
  by (simp add: claim_from_def wf_update_decision)

lemma wf_claim [wf_intros]: "wf_db db \<Longrightarrow> wf_db (fst (claim_approval now db i))"
  by (auto simp: claim_approval_def claim_from_def Let_def wf_update_decision split: option.splits)

lemma wf_reject [wf_intros]: "wf_db db \<Longrightarrow> wf_db (fst (reject_pending now db i))"
  by (auto simp: reject_pending_def Let_def wf_update_decision split: option.splits)

lemma wf_marks [wf_intros]:
  "wf_db db \<Longrightarrow> wf_db (mark_executed now db i u)"
  "wf_db db \<Longrightarrow> wf_db (mark_failed now db i u)"
  "wf_db db \<Longrightarrow> wf_db (mark_rejected now db i)"
  by (simp_all add: mark_executed_def mark_failed_def mark_rejected_def wf_update_decision)

lemma wf_sweep [wf_intros]: "wf_db db \<Longrightarrow> wf_db (fst (sweep_interrupted now db))"
  by (auto simp: sweep_interrupted_def Let_def intro!: wf_db_decisions decisions.wf_update dest: wf_dbD)


section \<open>What each operation does to a decision\<close>

lemma claim_from_get:
  "get_decision (fst (claim_from s now db i)) k =
     map_option (\<lambda>r. if k = i \<and> dec_status r = s
       then r\<lparr>dec_status := APPROVED, dec_updated_at := now\<rparr> else r) (get_decision db k)"
  by (simp add: claim_from_def)

lemma claim_from_won:
  "wf_db db \<Longrightarrow> snd (claim_from s now db i) \<longleftrightarrow> (\<exists>r. get_decision db i = Some r \<and> dec_status r = s)"
  by (simp add: claim_from_def rowcount_decision del: rowcount_pos)

text \<open>The whole of \<open>claim_approval\<close>, read off the status the row had.\<close>

lemma claim_approval_cases:
  assumes "wf_db db"
  shows "claim_approval now db i = (case get_decision db i of
      None \<Rightarrow> (fst (claim_from PENDING now db i), None, NotFound)
    | Some r \<Rightarrow> (case dec_status r of
        PENDING \<Rightarrow> (fst (claim_from PENDING now db i),
                   Some (r\<lparr>dec_status := APPROVED, dec_updated_at := now\<rparr>), Claimed)
      | FAILED \<Rightarrow> (fst (claim_from FAILED now (fst (claim_from PENDING now db i)) i),
                   Some (r\<lparr>dec_status := APPROVED, dec_updated_at := now\<rparr>), Claimed)
      | EXECUTED \<Rightarrow> (fst (claim_from PENDING now db i), Some r, AlreadyExecuted)
      | REJECTED \<Rightarrow> (fst (claim_from PENDING now db i), Some r, Rejected)
      | APPROVED \<Rightarrow> (fst (claim_from PENDING now db i), Some r, InProgress)))"
proof -
  let ?db1 = "fst (claim_from PENDING now db i)"
  let ?db2 = "fst (claim_from FAILED now ?db1 i)"
  have wf1: "wf_db ?db1" using assms by (rule wf_intros)
  note won = claim_from_won [OF assms, of PENDING now i] claim_from_won [OF wf1, of FAILED now i]
  note got = claim_from_get [of PENDING now db i i] claim_from_get [of FAILED now ?db1 i i]
  note run = claim_approval_def Let_def case_prod_beta
  show ?thesis
  proof (cases "get_decision db i")
    case None
    then show ?thesis using got by (simp add: run)
  next
    case (Some r)
    then show ?thesis using won got by (cases "dec_status r") (simp_all add: run)
  qed
qed

lemma claim_approval_get:
  assumes "wf_db db"
  shows "get_decision (fst (claim_approval now db i)) k =
    map_option (\<lambda>r. if k = i \<and> dec_status r \<in> {PENDING, FAILED}
      then r\<lparr>dec_status := APPROVED, dec_updated_at := now\<rparr> else r) (get_decision db k)"
proof -
  let ?db1 = "fst (claim_from PENDING now db i)"
  have "fst (claim_approval now db i) \<in> {?db1, fst (claim_from FAILED now ?db1 i)}"
    by (simp add: claim_approval_def Let_def case_prod_beta split: option.split)
  then have other: "k \<noteq> i \<Longrightarrow> get_decision (fst (claim_approval now db i)) k = get_decision db k"
    by (auto simp: claim_from_get option.map_ident)
  show ?thesis
  proof (cases "k = i")
    case False
    then show ?thesis using other by (simp add: option.map_ident)
  next
    case True
    show ?thesis
    proof (cases "get_decision db i")
      case None
      then show ?thesis by (simp add: True claim_approval_cases [OF assms] claim_from_get)
    next
      case (Some r)
      then show ?thesis
        by (cases "dec_status r") (simp_all add: True claim_approval_cases [OF assms] claim_from_get)
    qed
  qed
qed

lemma reject_pending_get:
  "get_decision (fst (reject_pending now db i)) k =
    map_option (\<lambda>r. if k = i \<and> dec_status r = PENDING
      then r\<lparr>dec_status := REJECTED, dec_updated_at := now\<rparr> else r) (get_decision db k)"
  by (auto simp: reject_pending_def Let_def split: option.splits)

lemma mark_get:
  "get_decision (mark_executed now db i u) k = map_option (\<lambda>r. if k = i
     then r\<lparr>dec_status := EXECUTED, result_url := Some u, dec_updated_at := now\<rparr> else r) (get_decision db k)"
  "get_decision (mark_failed now db i det) k = map_option (\<lambda>r. if k = i
     then r\<lparr>dec_status := FAILED, dec_last_error := Some det, dec_updated_at := now\<rparr> else r) (get_decision db k)"
  by (simp_all add: mark_executed_def mark_failed_def)

lemma requeue_get:
  "get_decision (fst (requeue_failed now db i)) k = map_option (\<lambda>r. if k = i \<and> dec_status r = FAILED
     then r\<lparr>dec_status := PENDING, dec_last_error := None, dec_updated_at := now\<rparr> else r) (get_decision db k)"
  by (simp add: requeue_failed_def)

lemma sweep_get:
  "get_decision (fst (sweep_interrupted now db)) k = map_option (\<lambda>r. if dec_status r = APPROVED
     then r\<lparr>dec_status := FAILED, dec_last_error := Some interrupted_error, dec_updated_at := now\<rparr> else r)
     (get_decision db k)"
proof -
  have "update_where (\<lambda>r. dec_status r = APPROVED) f t = t"
    if "rowcount (\<lambda>r. dec_status r = APPROVED) t = 0" for f and t :: "review_decision table"
    using that by (intro update_where_none) auto
  then have "fst (sweep_interrupted now db) =
      db\<lparr>review_decisions := update_where (\<lambda>r. dec_status r = APPROVED)
        (\<lambda>r. r\<lparr>dec_status := FAILED, dec_last_error := Some interrupted_error, dec_updated_at := now\<rparr>)
        (review_decisions db)\<rparr>"
    by (simp add: sweep_interrupted_def Let_def del: rowcount_pos rowcount_zero)
  then show ?thesis by (simp add: get_decision_def decisions.lookup_update)
qed

lemma new_row_columns [simp]:
  "dec_dedup_key (with_dec_id (new_decision now d st) i) = dedup_key d st"
  "dec_id (with_dec_id (new_decision now d st) i) = i"
  "dec_status (with_dec_id (new_decision now d st) i) = PENDING"
  by (simp_all add: new_decision_def with_dec_id_def)

lemma find_decision_iff:
  "wf_db db \<Longrightarrow> find_decision db k = Some r \<longleftrightarrow>
     r \<in> set (rows (review_decisions db)) \<and> dec_dedup_key r = k"
  by (simp add: find_decision_def decisions.select_by_key wf_dbD)

lemma find_decision_get:
  "wf_db db \<Longrightarrow> find_decision db k = Some r \<longleftrightarrow> get_decision db (dec_id r) = Some r \<and> dec_dedup_key r = k"
  by (simp add: find_decision_iff get_decision_iff)

lemma enqueue_created:
  assumes "enqueue_tracked now db d st = (db', Some (row, True))"
  shows "find_decision db (dedup_key d st) = None" "row = with_dec_id (new_decision now d st) (seq (review_decisions db))"
    "db' = db\<lparr>review_decisions := insert_row (with_dec_id (new_decision now d st)) (review_decisions db)\<rparr>"
  using assms by (auto simp: enqueue_tracked_def enqueue_tracked_at_def split: option.splits)

lemma enqueue_existing:
  "enqueue_tracked now db d st = (db', Some (row, False)) \<longleftrightarrow>
     db' = db \<and> find_decision db (dedup_key d st) = Some row"
  by (auto simp: enqueue_tracked_def enqueue_tracked_at_def split: option.splits)

lemma enqueue_Some: "\<exists>row c. snd (enqueue_tracked now db d st) = Some (row, c)"
  by (auto simp: enqueue_tracked_def enqueue_tracked_at_def split: option.splits)

lemma find_after_insert:
  assumes "wf_db db" and "enqueue_tracked now db d st = (db', Some (row, c))"
  shows "find_decision db' (dedup_key d st) = Some row" "wf_db db'"
proof -
  show wf: "wf_db db'" using wf_enqueue [OF assms(1), of now d st] assms(2) by simp
  show "find_decision db' (dedup_key d st) = Some row"
  proof (cases c)
    case True
    then have "enqueue_tracked now db d st = (db', Some (row, True))" using assms(2) by simp
    note new = enqueue_created [OF this]
    then have "row \<in> set (rows (review_decisions db'))" "dec_dedup_key row = dedup_key d st" by simp_all
    then show ?thesis by (simp only: find_decision_iff [OF wf])
  next
    case False
    then show ?thesis using assms(2) by (simp add: enqueue_existing)
  qed
qed


section \<open>The contract of a decision\<close>

text \<open>
  The abstract specification: which status may follow which when a human decides. \<open>EXECUTED\<close> and
  \<open>REJECTED\<close> are final; a claim starts from \<open>PENDING\<close> or \<open>FAILED\<close> and ends in \<open>EXECUTED\<close> or \<open>FAILED\<close>.
\<close>

fun lifecycle :: "decision_status \<Rightarrow> decision_status \<Rightarrow> bool" where
  "lifecycle PENDING s' \<longleftrightarrow> s' \<in> {PENDING, APPROVED, REJECTED}"
| "lifecycle APPROVED s' \<longleftrightarrow> s' \<in> {APPROVED, EXECUTED, FAILED}"
| "lifecycle FAILED s' \<longleftrightarrow> s' \<in> {FAILED, APPROVED, PENDING}"
| "lifecycle EXECUTED s' \<longleftrightarrow> s' = EXECUTED"
| "lifecycle REJECTED s' \<longleftrightarrow> s' = REJECTED"

lemma lifecycle_refl [simp]: "lifecycle s s"
  by (cases s) simp_all

text \<open>
  A statement that writes decisions follows the specification on every row, and leaves the columns
  that say what would be posted, where, and for which tenant, as they were.
\<close>

definition same_proposal :: "review_decision \<Rightarrow> review_decision \<Rightarrow> bool" where
  "same_proposal r r' \<longleftrightarrow> dec_id r' = dec_id r \<and> dec_dedup_key r' = dec_dedup_key r \<and>
     dec_repo r' = dec_repo r \<and> dec_pr_number r' = dec_pr_number r \<and>
     dec_commit_sha r' = dec_commit_sha r \<and> dec_installation_id r' = dec_installation_id r \<and>
     dec_action r' = dec_action r \<and> dec_body r' = dec_body r \<and> dec_created_at r' = dec_created_at r"

lemma same_proposal_refl [simp]: "same_proposal r r"
  by (simp add: same_proposal_def)

definition follows :: "database \<Rightarrow> database \<Rightarrow> bool" where
  "follows db db' \<longleftrightarrow> (\<forall>k. case get_decision db k of
       None \<Rightarrow> get_decision db' k = None
     | Some r \<Rightarrow> (case get_decision db' k of None \<Rightarrow> False
         | Some r' \<Rightarrow> same_proposal r r' \<and> lifecycle (dec_status r) (dec_status r')))"

lemma followsI:
  assumes "\<And>k. get_decision db' k = map_option (g k) (get_decision db k)"
    and "\<And>k r. get_decision db k = Some r \<Longrightarrow>
      same_proposal r (g k r) \<and> lifecycle (dec_status r) (dec_status (g k r))"
  shows "follows db db'"
  using assms by (simp add: follows_def split: option.split)

lemma follows_claim: "wf_db db \<Longrightarrow> follows db (fst (claim_approval now db i))"
  by (rule followsI, rule claim_approval_get) (auto simp: same_proposal_def)

lemma follows_reject: "follows db (fst (reject_pending now db i))"
  by (rule followsI, rule reject_pending_get) (auto simp: same_proposal_def)

lemma follows_requeue: "follows db (fst (requeue_failed now db i))"
  by (rule followsI, rule requeue_get) (auto simp: same_proposal_def)

lemma follows_sweep: "follows db (fst (sweep_interrupted now db))"
  by (rule followsI, rule sweep_get) (auto simp: same_proposal_def)

lemma follows_executed:
  "get_decision db i = Some r \<Longrightarrow> dec_status r = APPROVED \<Longrightarrow> follows db (mark_executed now db i u)"
  by (rule followsI, rule mark_get) (auto simp: same_proposal_def)

lemma follows_failed:
  "get_decision db i = Some r \<Longrightarrow> dec_status r = APPROVED \<Longrightarrow> follows db (mark_failed now db i det)"
  by (rule followsI, rule mark_get) (auto simp: same_proposal_def)


section \<open>Properties\<close>


text \<open>
  \<open>claim_approval\<close> on every branch: a caller is told it owns the execution exactly when the row
  was \<open>PENDING\<close> or \<open>FAILED\<close>, and then the row is \<open>APPROVED\<close>, so that the next claim is not granted;
  every other caller gets the outcome its status calls for and the row unchanged.
\<close>

theorem claim_approval_contract:
  assumes "wf_db db" and "claim_approval now db i = (db', row, oc)"
  shows "get_decision db' i = row \<and>
    (case get_decision db i of
       None \<Rightarrow> row = None \<and> oc = NotFound
     | Some r \<Rightarrow>
         if dec_status r \<in> {PENDING, FAILED}
         then oc = Claimed \<and> row = Some (r\<lparr>dec_status := APPROVED, dec_updated_at := now\<rparr>) \<and>
              snd (snd (claim_approval later db' i)) = InProgress
         else row = Some r \<and> oc = (case dec_status r of EXECUTED \<Rightarrow> AlreadyExecuted
                | REJECTED \<Rightarrow> Rejected | _ \<Rightarrow> InProgress))"
proof -
  have db': "db' = fst (claim_approval now db i)" using assms(2) by simp
  then have wf': "wf_db db'" using wf_claim [OF assms(1)] by simp
  have got: "get_decision db' i = map_option (\<lambda>r. if dec_status r \<in> {PENDING, FAILED}
      then r\<lparr>dec_status := APPROVED, dec_updated_at := now\<rparr> else r) (get_decision db i)"
    unfolding db' by (simp add: claim_approval_get [OF assms(1)])
  have out: "row = fst (snd (claim_approval now db i))" "oc = snd (snd (claim_approval now db i))"
    using assms(2) by simp_all
  note run = out claim_approval_cases [OF assms(1)] claim_approval_cases [OF wf'] got
  show ?thesis
  proof (cases "get_decision db i")
    case None
    then show ?thesis by (simp add: run)
  next
    case (Some r)
    then show ?thesis by (cases "dec_status r") (simp_all add: run)
  qed
qed

definition demo_row :: "decision_status \<Rightarrow> review_decision" where
  "demo_row s = \<lparr>dec_id = 1, dec_dedup_key = ''o/r|7|abc|propose_fix'', dec_repo = ''o/r'',
     dec_pr_number = 7, dec_commit_sha = ''abc'', dec_installation_id = Some 5,
     dec_action = ''propose_fix'', dec_risk = ''high'', dec_reason = ''verified_fix_needs_promotion'',
     dec_title = ''t'', dec_body = ''b'', dec_status = s, result_url = None, dec_last_error = None,
     dec_created_at = 0, dec_updated_at = 0\<rparr>"

definition demo_db :: "decision_status \<Rightarrow> database" where
  "demo_db s = empty_db\<lparr>review_decisions := \<lparr>rows = [demo_row s], seq = 2\<rparr>\<rparr>"

lemma wf_demo_db [simp]: "wf_db (demo_db s)"
  by (simp add: wf_db_def demo_db_def demo_row_def wf_table_def empty_db_def empty_table_def)


theorem claim_approval_contract_witness:
  "snd (snd (claim_approval 9 (demo_db FAILED) 1)) = Claimed"
proof -
  obtain db' row oc where run: "claim_approval 9 (demo_db FAILED) 1 = (db', row, oc)"
    by (cases "claim_approval 9 (demo_db FAILED) 1") auto
  have "get_decision (demo_db FAILED) 1 = Some (demo_row FAILED)" by code_simp
  moreover have "dec_status (demo_row FAILED) = FAILED" by (simp add: demo_row_def)
  ultimately show ?thesis
    using claim_approval_contract [OF wf_demo_db run, of 10] run by simp
qed

text \<open>
  \<open>enqueue\<close> is idempotent, also under an insert race: after a call for a key, whatever row it
  returned, any later call for a decision and a state of the same key, even one whose first select
  ran before the insert, returns that row as it stands, reports it as not created, and writes nothing.
\<close>

theorem enqueue_idempotent:
  assumes "wf_db db" and "enqueue_tracked now db d st = (db', Some (row, c))"
    and "dedup_key d' st' = dedup_key d st" and "find_decision seen (dedup_key d st) \<in> {None, Some row}"
  shows "enqueue_tracked_at later seen db' d' st' = (db', Some (row, False)) \<and>
    find_decision db' (dedup_key d st) = Some row \<and>
    (c \<longleftrightarrow> find_decision db (dedup_key d st) = None) \<and> (c \<longrightarrow> dec_status row = PENDING)"
proof -
  have here: "find_decision db' (dedup_key d st) = Some row" by (rule find_after_insert [OF assms(1,2)])
  have "enqueue_tracked_at later seen db' d' st' = (db', Some (row, False))"
    using assms(3,4) here by (auto simp: enqueue_tracked_at_def)
  moreover have "(c \<longleftrightarrow> find_decision db (dedup_key d st) = None) \<and> (c \<longrightarrow> dec_status row = PENDING)"
    using assms(2) enqueue_created [of now db d st db' row] by (cases c) (simp_all add: enqueue_existing)
  ultimately show ?thesis using here by simp
qed

definition demo_decision :: routing_decision where
  "demo_decision = \<lparr>rd_action = PROPOSE_FIX, requires_approval = True, rd_risk = ''high'',
     rd_reason = ''verified_fix_needs_promotion'', rd_title = ''t'', rd_body = ''b''\<rparr>"

definition demo_fix_state :: pr_state where
  "demo_fix_state = empty_state\<lparr>repo := Some ''o/r'', pr_number := Some 7, commit_sha := Some ''abc''\<rparr>"

theorem enqueue_idempotent_witness:
  "snd (enqueue_tracked_at 2 empty_db (fst (enqueue_tracked 1 empty_db demo_decision demo_fix_state))
      demo_decision demo_fix_state) =
    Some (with_dec_id (new_decision 1 demo_decision demo_fix_state) 1, False)"
proof -
  obtain db' where run: "enqueue_tracked 1 empty_db demo_decision demo_fix_state =
      (db', Some (with_dec_id (new_decision 1 demo_decision demo_fix_state) 1, True))"
    by (simp add: enqueue_tracked_def enqueue_tracked_at_def find_decision_def empty_db_def
        empty_table_def select_one_def)
  have "find_decision empty_db (dedup_key demo_decision demo_fix_state) = None"
    by (simp add: find_decision_def empty_db_def empty_table_def)
  then show ?thesis
    using enqueue_idempotent [OF wf_empty_db run refl, of empty_db 2] run by simp
qed

text \<open>
  The review queue shows exactly the decisions that wait for a human, each once, oldest first.
\<close>

theorem list_pending_exact:
  assumes "wf_db db"
  shows "sorted (map dec_created_at (list_pending db)) \<and> distinct (list_pending db) \<and>
    (r \<in> set (list_pending db) \<longleftrightarrow> get_decision db (dec_id r) = Some r \<and> dec_status r = PENDING)"
proof -
  have "distinct (rows (review_decisions db))"
    using wf_dbD(2) [OF assms] by (simp add: wf_table_def distinct_map)
  then show ?thesis
    by (auto simp: list_pending_def select_all_def get_decision_iff [OF assms] distinct_sort)
qed

theorem list_pending_exact_witness: "demo_row PENDING \<in> set (list_pending (demo_db PENDING))"
proof -
  have "get_decision (demo_db PENDING) 1 = Some (demo_row PENDING)" by code_simp
  then show ?thesis
    using list_pending_exact [OF wf_demo_db, of PENDING "demo_row PENDING"] by (simp add: demo_row_def)
qed

text \<open>
  Rejecting, on every branch. Only a \<open>PENDING\<close> row is rejected. In particular a \<open>FAILED\<close> row, which
  the error text of the sweep tells the operator to approve again or reject, cannot be rejected: the
  call reports that the decision is in progress and leaves it \<open>FAILED\<close>.
\<close>

theorem reject_pending_contract:
  assumes "wf_db db" and "reject_pending now db i = (db', row, oc)"
  shows "get_decision db' i = row \<and>
    (case get_decision db i of
       None \<Rightarrow> row = None \<and> oc = NotFound
     | Some r \<Rightarrow> (case dec_status r of
           PENDING \<Rightarrow> oc = Rejected \<and> row = Some (r\<lparr>dec_status := REJECTED, dec_updated_at := now\<rparr>)
         | EXECUTED \<Rightarrow> oc = AlreadyExecuted \<and> row = Some r
         | _ \<Rightarrow> oc = InProgress \<and> row = Some r))"
proof -
  have won: "0 < rowcount (\<lambda>r. dec_id r = i \<and> dec_status r = PENDING) (review_decisions db) \<longleftrightarrow>
      (\<exists>r. get_decision db i = Some r \<and> dec_status r = PENDING)"
    by (rule rowcount_decision [OF assms(1)])
  have out: "db' = fst (reject_pending now db i)" "row = fst (snd (reject_pending now db i))"
      "oc = snd (snd (reject_pending now db i))"
    using assms(2) by simp_all
  note run = out reject_pending_def Let_def won
  show ?thesis
  proof (cases "get_decision db i")
    case None
    then show ?thesis by (simp add: run del: rowcount_pos)
  next
    case (Some r)
    then show ?thesis by (cases "dec_status r") (simp_all add: run del: rowcount_pos)
  qed
qed

theorem reject_pending_contract_witness:
  "snd (snd (reject_pending 9 (demo_db FAILED) 1)) = InProgress"
proof -
  obtain db' row oc where run: "reject_pending 9 (demo_db FAILED) 1 = (db', row, oc)"
    by (cases "reject_pending 9 (demo_db FAILED) 1") auto
  have "get_decision (demo_db FAILED) 1 = Some (demo_row FAILED)" by code_simp
  moreover have "dec_status (demo_row FAILED) = FAILED" by (simp add: demo_row_def)
  ultimately show ?thesis using reject_pending_contract [OF wf_demo_db run] run by simp
qed

end
