(* ===== verification/Github.thy ===== *)
theory Github
  imports Config
begin

text \<open>
  The GitHub boundary, \<^verbatim>\<open>src/app/routing/github.py\<close>: the one write (a comment on a pull request) with
  its dry-run and HTTP clients, the choice of client and reader from the settings, the paged read of
  a pull request's files, and the decoding of a repository tarball under its three caps.

  GitHub itself is a parameter. A write client is a function from the calls made so far and the new
  call to a result, so any deterministic or scripted server is an instance; the HTTP client takes
  the transport as an argument. The tarball is given as its list of members, as iterating over the
  archive yields them.
\<close>

section \<open>Results and write clients\<close>

record action_result =
  ok :: bool
  kind :: string
  url :: string
  detail :: string

record gh_call =
  call_repo :: string
  call_pr :: int
  call_body :: string

type_synonym gh_client = "gh_call list \<Rightarrow> gh_call \<Rightarrow> action_result res"

definition fake_client :: gh_client where
  "fake_client calls c = Ret \<lparr>ok = True, kind = ''comment'',
     url = ''https://fake.github/comment/'' @ nat_str (length calls + 1), detail = []\<rparr>"

text \<open>What the HTTP client needs of a response; decoding the body as JSON may raise.\<close>

record http_response =
  status_code :: int
  resp_json :: "json res"
  has_content :: bool

type_synonym transport = "string \<Rightarrow> (string \<times> string) list \<Rightarrow> json \<Rightarrow> http_response res"

definition auth_headers :: "string \<Rightarrow> (string \<times> string) list" where
  "auth_headers token =
     [(''Authorization'', ''Bearer '' @ token), (''Accept'', ''application/vnd.github+json''),
      (''X-GitHub-Api-Version'', ''2022-11-28'')]"

definition reader_headers :: "string \<Rightarrow> (string \<times> string) list" where
  "reader_headers token =
     [(''Accept'', ''application/vnd.github+json''), (''X-GitHub-Api-Version'', ''2022-11-28'')] @
     (if token = [] then [] else [(''Authorization'', ''Bearer '' @ token)])"

definition http_post :: "transport \<Rightarrow> string \<Rightarrow> string \<Rightarrow> string \<Rightarrow> json \<Rightarrow> string \<Rightarrow> action_result res" where
  "http_post send token api_url path body k =
     (case send (api_url @ path) (auth_headers token) body of
        Inl e \<Rightarrow> if exc_class e = HTTPError
                 then Ret \<lparr>ok = False, kind = k, url = [], detail = exc_repr e\<rparr> else Raise e
      | Inr r \<Rightarrow>
          if status_code r \<ge> 300
          then Ret \<lparr>ok = False, kind = k, url = [], detail = ''HTTP '' @ int_str (status_code r)\<rparr>
          else rbind (if has_content r then resp_json r else Ret (JDict [])) (\<lambda>data.
               rbind (jget data ''html_url'') (\<lambda>u.
                 Ret \<lparr>ok = True, kind = k, url = json_str (get_default (JStr []) u), detail = []\<rparr>)))"

definition http_post_issue_comment :: "transport \<Rightarrow> string \<Rightarrow> string \<Rightarrow> gh_client" where
  "http_post_issue_comment send token api_url calls c =
     http_post send token api_url
       (''/repos/'' @ call_repo c @ ''/issues/'' @ int_str (call_pr c) @ ''/comments'')
       (JDict [(''body'', JStr (call_body c))]) ''comment''"

datatype client_kind = FakeClient | TenantClient | HttpClient string string

text \<open>
  The choice of write client. The App authenticator exists exactly when the instance is configured
  as multi-tenant.
\<close>

definition get_github_client :: "settings \<Rightarrow> client_kind" where
  "get_github_client s =
     (if handoff_mode s then FakeClient
      else if multi_tenant_enabled s \<and> \<not> github_dry_run s then TenantClient
      else if github_token s \<noteq> [] \<and> \<not> github_dry_run s
        then HttpClient (github_token s) (github_api_url s)
      else FakeClient)"

datatype reader_kind = FakeReader | HttpReader string string

definition get_github_reader :: "settings \<Rightarrow> reader_kind" where
  "get_github_reader s =
     (if github_token s \<noteq> [] then HttpReader (github_token s) (github_api_url s)
      else if handoff_mode s then HttpReader [] (github_api_url s)
      else FakeReader)"


section \<open>Reads\<close>

text \<open>One entry of the files API, with GitHub's names mapped to ours.\<close>

definition normalise_file :: "json \<Rightarrow> (json \<times> json) res" where
  "normalise_file f = rbind (jget f ''filename'') (\<lambda>n. rbind (jget f ''patch'') (\<lambda>p.
     Ret (get_default (JStr []) n,
          (case p of None \<Rightarrow> JStr [] | Some v \<Rightarrow> if truthy v then v else JStr []))))"

text \<open>
  The paging loop: \<open>fetch\<close> is the request for one page. The loop ends at the first page with fewer
  than a hundred entries, so it is given fuel; \<open>list_pull_files_complete\<close> says how much is enough.
\<close>

fun list_pull_files ::
    "nat \<Rightarrow> (nat \<Rightarrow> json list res) \<Rightarrow> nat \<Rightarrow> (json \<times> json) list \<Rightarrow> (json \<times> json) list res option" where
  "list_pull_files 0 fetch page out = None"
| "list_pull_files (Suc fuel) fetch page out =
     (case fetch page of
        Inl e \<Rightarrow> Some (Raise e)
      | Inr batch \<Rightarrow>
          (case rmap normalise_file batch of
             Inl e \<Rightarrow> Some (Raise e)
           | Inr fs \<Rightarrow>
               if length batch < 100 then Some (Ret (out @ fs))
               else list_pull_files fuel fetch (Suc page) (out @ fs)))"

text \<open>The download, chunk by chunk, refused as soon as it is over the cap.\<close>

fun stream_download :: "int \<Rightarrow> string \<Rightarrow> string \<Rightarrow> string list \<Rightarrow> string res" where
  "stream_download cap rp buf [] = Ret buf"
| "stream_download cap rp buf (c # cs) =
     (if int (length (buf @ c)) > cap
      then Raise (Exc ValueError (''repo tarball for '' @ rp @ '' exceeds '' @ int_str cap @ '' bytes''))
      else stream_download cap rp (buf @ c) cs)"

record tar_member =
  m_name :: string
  m_isfile :: bool
  m_size :: int
  m_readable :: bool
  m_text :: "string option"

definition rel_path :: "string \<Rightarrow> string" where
  "rel_path name = (if CHR ''/'' \<in> set name then drop 1 (dropWhile (\<lambda>c. c \<noteq> CHR ''/'') name) else name)"

definition unsafe_rel :: "string \<Rightarrow> bool" where
  "unsafe_rel rel \<longleftrightarrow> rel = [] \<or> startswith rel ''/'' \<or> ''..'' \<in> set (split_on CHR ''/'' rel)"

text \<open>
  The loop over the members. A member is skipped, or ends the loop, or is kept; the per-member test
  is separate so that the loop reads like the code.
\<close>

datatype member_verdict = Skip | Stop | Keep string string

definition judge_member :: "int \<Rightarrow> int option \<Rightarrow> int \<Rightarrow> tar_member \<Rightarrow> member_verdict" where
  "judge_member max_file max_total used m =
     (if \<not> m_isfile m \<or> m_size m > max_file then Skip
      else if (case max_total of None \<Rightarrow> False | Some t \<Rightarrow> used + m_size m > t) then Stop
      else if unsafe_rel (rel_path (m_name m)) then Skip
      else if \<not> m_readable m then Skip
      else (case m_text m of None \<Rightarrow> Skip | Some t \<Rightarrow> Keep (rel_path (m_name m)) t))"

fun extract_members ::
    "int \<Rightarrow> int \<Rightarrow> int option \<Rightarrow> int \<Rightarrow> (string \<times> string) list \<Rightarrow> tar_member list \<Rightarrow>
     (string \<times> string) list" where
  "extract_members max_file max_files max_total used out [] = out"
| "extract_members max_file max_files max_total used out (m # ms) =
     (case judge_member max_file max_total used m of
        Skip \<Rightarrow> extract_members max_file max_files max_total used out ms
      | Stop \<Rightarrow> out
      | Keep rel text \<Rightarrow>
          if int (length out + 1) \<ge> max_files then out @ [(rel, text)]
          else extract_members max_file max_files max_total (used + m_size m)
                 (out @ [(rel, text)]) ms)"

definition extract_repo_tarball ::
    "int \<Rightarrow> int \<Rightarrow> int option \<Rightarrow> tar_member list \<Rightarrow> (string \<times> string) list" where
  "extract_repo_tarball max_file max_files max_total members =
     extract_members max_file max_files max_total 0 [] members"


section \<open>Facts\<close>

text \<open>
  AutoPR only holds a client that can write to GitHub when dry-run is off and it is not in
  hand-off mode, and it never uses the operator's token when the instance is multi-tenant.
\<close>

theorem write_client_opt_in:
  "(get_github_client s \<noteq> FakeClient \<longleftrightarrow>
      \<not> handoff_mode s \<and> \<not> github_dry_run s \<and> (if github_token s = [] then multi_tenant_enabled s else True)) \<and>
   (get_github_client s = HttpClient t u \<longleftrightarrow>
      \<not> handoff_mode s \<and> \<not> github_dry_run s \<and> \<not> multi_tenant_enabled s \<and> github_token s \<noteq> [] \<and>
      t = github_token s \<and> u = github_api_url s)"
  by (auto simp: get_github_client_def)

lemma judge_Keep:
  "judge_member mf mt used m = Keep rel t \<Longrightarrow>
     m_isfile m \<and> m_size m \<le> mf \<and> \<not> unsafe_rel rel \<and> rel = rel_path (m_name m) \<and> m_text m = Some t \<and>
     (\<forall>c. mt = Some c \<longrightarrow> used + m_size m \<le> c)"
  by (auto simp: judge_member_def split: if_splits option.splits)

definition kept_from :: "int \<Rightarrow> tar_member list \<Rightarrow> (string \<times> string) \<Rightarrow> bool" where
  "kept_from mf ms f \<longleftrightarrow> (\<exists>m\<in>set ms. m_isfile m \<and> m_size m \<le> mf \<and> m_text m = Some (snd f) \<and>
     fst f = rel_path (m_name m) \<and> \<not> unsafe_rel (fst f))"

lemma extract_members_sound:
  assumes "f \<in> set (extract_members mf mx mt used out ms)" and "f \<notin> set out"
  shows "kept_from mf ms f"
  using assms
proof (induction mf mx mt used out ms rule: extract_members.induct)
  case (2 mf mx mt used out m ms)
  then show ?case
    by (fastforce simp: kept_from_def split: member_verdict.splits if_splits dest: judge_Keep)
qed simp

lemma extract_members_count:
  "int (length out) < mx \<or> out = [] \<Longrightarrow>
     int (length (extract_members mf mx mt used out ms)) \<le> max 1 mx"
  by (induction mf mx mt used out ms rule: extract_members.induct)
    (auto split: member_verdict.splits)

text \<open>The bytes the archive declares for the members that were kept, next to the loop's own total.\<close>

fun kept_bytes ::
    "int \<Rightarrow> int \<Rightarrow> int option \<Rightarrow> int \<Rightarrow> (string \<times> string) list \<Rightarrow> tar_member list \<Rightarrow> int" where
  "kept_bytes max_file max_files max_total used out [] = used"
| "kept_bytes max_file max_files max_total used out (m # ms) =
     (case judge_member max_file max_total used m of
        Skip \<Rightarrow> kept_bytes max_file max_files max_total used out ms
      | Stop \<Rightarrow> used
      | Keep rel text \<Rightarrow>
          if int (length out + 1) \<ge> max_files then used + m_size m
          else kept_bytes max_file max_files max_total (used + m_size m) (out @ [(rel, text)]) ms)"

lemma kept_bytes_bound: "used \<le> c \<Longrightarrow> kept_bytes mf mx (Some c) used out ms \<le> c"
proof (induction mf mx "Some c" used out ms rule: kept_bytes.induct)
  case (2 mf mx used out m ms)
  then show ?case by (auto split: member_verdict.splits dest: judge_Keep)
qed simp

text \<open>
  A snapshot respects its caps and stays inside the repository: it has at most \<open>max_files\<close> files
  (one, if the cap is not positive), the members it keeps declare at most \<open>max_total\<close> bytes together,
  and each kept file is a regular UTF-8 member not above the per-file cap, under a relative path
  without a parent step.
\<close>

theorem snapshot_caps:
  assumes "0 \<le> cap"
  shows "int (length (extract_repo_tarball mf mx (Some cap) ms)) \<le> max 1 mx \<and>
    kept_bytes mf mx (Some cap) 0 [] ms \<le> cap \<and>
    list_all (kept_from mf ms) (extract_repo_tarball mf mx (Some cap) ms)"
  using assms extract_members_sound [of _ mf mx "Some cap" 0 "[]" ms]
  by (auto simp: extract_repo_tarball_def extract_members_count kept_bytes_bound list_all_iff)

definition demo_tar :: "tar_member list" where
  "demo_tar = [
     \<lparr>m_name = ''o-r-1/a.py'', m_isfile = True, m_size = 5, m_readable = True, m_text = Some ''x = 1''\<rparr>,
     \<lparr>m_name = ''o-r-1/../b.py'', m_isfile = True, m_size = 5, m_readable = True, m_text = Some ''y = 2''\<rparr>,
     \<lparr>m_name = ''o-r-1/c.bin'', m_isfile = True, m_size = 2, m_readable = True, m_text = None\<rparr>]"

theorem snapshot_caps_witness:
  "extract_repo_tarball 10 5 (Some 20) demo_tar = [(''a.py'', ''x = 1'')] \<and>
   kept_bytes 10 5 (Some 20) 0 [] demo_tar \<le> 20"
proof -
  have "(0::int) \<le> 20" by simp
  from snapshot_caps [OF this, of 10 5 demo_tar]
  have "kept_bytes 10 5 (Some 20) 0 [] demo_tar \<le> 20" by simp
  moreover have "extract_repo_tarball 10 5 (Some 20) demo_tar = [(''a.py'', ''x = 1'')]"
    by code_simp
  ultimately show ?thesis by simp
qed

lemma stream_download_ok:
  "stream_download cap rp buf cs = Ret b \<Longrightarrow> b = buf @ concat cs \<and> (cs \<noteq> [] \<longrightarrow> int (length b) \<le> cap)"
proof (induction cap rp buf cs rule: stream_download.induct)
  case (2 cap rp buf c cs)
  then show ?case by (cases cs) (auto split: if_splits)
qed simp

lemma rmap_append:
  "rmap f (xs @ ys) = rbind (rmap f xs) (\<lambda>a. rbind (rmap f ys) (\<lambda>b. Ret (a @ b)))"
proof (induction xs)
  case Nil
  then show ?case by (cases "rmap f ys") auto
next
  case (Cons x xs)
  then show ?case by (cases "f x"; cases "rmap f xs"; cases "rmap f ys") auto
qed

lemma list_pull_files_from:
  assumes pages: "\<And>p. k \<le> p \<Longrightarrow> fetch p = Ret (take 100 (drop (100 * (p - k)) fs))"
    and norm: "rmap normalise_file fs = Ret gs" and "length fs div 100 < fuel"
  shows "list_pull_files fuel fetch k out = Some (Ret (out @ gs))"
  using assms
proof (induction fuel arbitrary: k fs gs out)
  case (Suc fuel)
  have page: "fetch k = Ret (take 100 fs)" using Suc.prems(1) [of k] by simp
  have "rbind (rmap normalise_file (take 100 fs))
      (\<lambda>a. rbind (rmap normalise_file (drop 100 fs)) (\<lambda>b. Ret (a @ b))) = Ret gs"
    using Suc.prems(2) rmap_append [of normalise_file "take 100 fs" "drop 100 fs"] by simp
  then obtain as bs where split: "rmap normalise_file (take 100 fs) = Ret as"
    "rmap normalise_file (drop 100 fs) = Ret bs" "gs = as @ bs" by auto
  show ?case
  proof (cases "length fs < 100")
    case True
    then have "take 100 fs = fs" "drop 100 fs = []" by simp_all
    with split True page show ?thesis by simp
  next
    case False
    have "fetch p = Ret (take 100 (drop (100 * (p - Suc k)) (drop 100 fs)))" if "Suc k \<le> p" for p
    proof -
      have "100 * (p - k) = 100 * (p - Suc k) + 100" using that by simp
      then show ?thesis using Suc.prems(1) [of p] that by (simp add: drop_drop [symmetric] del: drop_drop)
    qed
    moreover have "length (drop 100 fs) div 100 < fuel"
      using False Suc.prems(3) by simp
    ultimately have "list_pull_files fuel fetch (Suc k) (out @ as) = Some (Ret ((out @ as) @ bs))"
      by (rule Suc.IH [OF _ split(2)])
    with False page split show ?thesis by simp
  qed
qed simp

text \<open>
  The paged read is complete and ends: against a server that serves the list in pages of a
  hundred from page one, as the API documents, the loop returns every file once, in order, after one
  page more than the number of full pages.
\<close>

theorem list_pull_files_complete:
  assumes "\<And>p. 1 \<le> p \<Longrightarrow> fetch p = Ret (take 100 (drop (100 * (p - 1)) fs))"
    and "rmap normalise_file fs = Ret gs"
  shows "list_pull_files (Suc (length fs div 100)) fetch 1 [] = Some (Ret gs)"
  using list_pull_files_from [of 1 fetch fs gs "Suc (length fs div 100)" "[]"] assms by simp

theorem list_pull_files_complete_witness:
  "list_pull_files 1 (\<lambda>p. Ret (take 100 (drop (100 * (p - 1)) [JDict [(''filename'', JStr ''a.py'')]])))
     1 [] = Some (Ret [(JStr ''a.py'', JStr [])])"
  using list_pull_files_complete
    [of "\<lambda>p. Ret (take 100 (drop (100 * (p - 1)) [JDict [(''filename'', JStr ''a.py'')]]))"
      "[JDict [(''filename'', JStr ''a.py'')]]" "[(JStr ''a.py'', JStr [])]"]
  by (simp add: normalise_file_def)

text \<open>
  An instance that serves installations, writes for real and has no operator token reads through the
  fake: every pull request then has no changed files and every snapshot is empty.
\<close>

theorem tenant_reads_nothing:
  assumes "multi_tenant_enabled s" and "github_token s = []" and "\<not> handoff_mode s" and "\<not> github_dry_run s"
  shows "get_github_client s = TenantClient \<and> get_github_reader s = FakeReader"
  using assms by (simp add: get_github_client_def get_github_reader_def)

theorem tenant_reads_nothing_witness:
  "get_github_reader (default_settings\<lparr>github_app_id := Some 1, github_app_private_key := ''BEGIN'',
     github_dry_run := False\<rparr>) = FakeReader"
proof -
  have "strip ''BEGIN'' = ''BEGIN''" by (rule strip_id) (simp_all add: py_isspace_def)
  then show ?thesis
    using tenant_reads_nothing [of "default_settings\<lparr>github_app_id := Some 1,
      github_app_private_key := ''BEGIN'', github_dry_run := False\<rparr>"]
    by (simp add: multi_tenant_enabled_def default_settings_def)
qed

end
