(* ===== verification/Router.thy ===== *)
theory Router
  imports Store Github
begin

text \<open>
  The router, \<^verbatim>\<open>src/app/routing/router.py\<close>: the last node of every run, and the one that may act. It
  asks the policy, then queues the decision for a human or posts at once. \<open>execute_decision\<close> is shared
  with the approval endpoints.

  The world the router acts on is the committed database and the list of calls made to the GitHub
  client. A client that is absent stands for a fresh recording client, whose calls nobody sees.
\<close>

section \<open>The world and the posting of a comment\<close>

record world =
  wdb :: database
  calls :: "gh_call list"

definition post_issue_comment :: "gh_client option \<Rightarrow> world \<Rightarrow> gh_call \<Rightarrow> world \<times> action_result res" where
  "post_issue_comment github w c = (case github of
       None \<Rightarrow> (w, fake_client [] c)
     | Some client \<Rightarrow> (w\<lparr>calls := calls w @ [c]\<rparr>, client (calls w) c))"

lemma post_db [simp]: "wdb (fst (post_issue_comment github w c)) = wdb w"
  by (simp add: post_issue_comment_def split: option.split)

datatype session_factory = NoFactory | Broken exc | Sessions

definition middle_dot :: string where "middle_dot = [CHR 0xB7]"

definition queued_notice :: "review_decision \<Rightarrow> string" where
  "queued_notice row = join_lines
     [''### Action queued for approval'', [],
      quoted (''#'' @ int_str (dec_id row)) @ '' '' @ middle_dot @ '' **'' @ dec_action row @ ''** '' @
        middle_dot @ '' risk '' @ quoted (dec_risk row), [],
      ''This one changes code, so it waits for a human. A maintainer can run:'', [],
      fence, ''/autopr approve '' @ int_str (dec_id row), fence, [],
      quoted ''/autopr status'' @ '' lists what is waiting, '' @
        quoted (''/autopr reject '' @ int_str (dec_id row)) @ '' declines it.'']"

text \<open>The notice is best effort: its result and its exceptions only reach the log.\<close>

definition notify_queued :: "gh_client option \<Rightarrow> pr_state \<Rightarrow> review_decision \<Rightarrow> world \<Rightarrow> world" where
  "notify_queued github st row w =
     (if st_installation_id st = None \<or> st_installation_id st = Some JNull then w
      else (case pr_number st of
          None \<Rightarrow> w
        | Some pr \<Rightarrow>
            if get_default [] (repo st) = [] then w
            else fst (post_issue_comment github w
                   \<lparr>call_repo = get_default [] (repo st), call_pr = pr, call_body = queued_notice row\<rparr>)))"

text \<open>What \<open>execute_decision\<close> is given: a fresh decision, or the action and body of a stored row.\<close>

datatype proposal = FromPolicy routing_decision | FromRow string string

definition proposal_action :: "proposal \<Rightarrow> action res" where
  "proposal_action p = (case p of FromPolicy d \<Rightarrow> Ret (rd_action d) | FromRow a _ \<Rightarrow> action_of a)"

definition proposal_body :: "proposal \<Rightarrow> string" where
  "proposal_body p = (case p of FromPolicy d \<Rightarrow> rd_body d | FromRow _ b \<Rightarrow> b)"

definition execute_decision ::
    "gh_client option \<Rightarrow> proposal \<Rightarrow> string option \<Rightarrow> int option \<Rightarrow> world \<Rightarrow> world \<times> action_result res" where
  "execute_decision github p rp pr w =
     (case proposal_action p of
        Inl e \<Rightarrow> (w, Raise e)
      | Inr a \<Rightarrow>
          (let c = \<lparr>call_repo = get_default ''?'' rp, call_pr = get_default 0 pr,
                    call_body = proposal_body p\<rparr> in
           if a = COMMENT_REVIEW then post_issue_comment github w c
           else if a = PROPOSE_FIX \<or> a = ESCALATE then post_issue_comment github w c
           else (w, Ret \<lparr>ok = True, kind = ''noop'', url = [], detail = ''no action''\<rparr>)))"

lemma execute_decision_db [simp]: "wdb (fst (execute_decision github p rp pr w)) = wdb w"
  by (simp add: execute_decision_def Let_def split: sum.split)


section \<open>The node\<close>

definition routed :: "routing_decision \<Rightarrow> pr_state \<Rightarrow> pr_state" where
  "routed d st = st\<lparr>routing_action := Some (action_value (rd_action d)),
     routing_reason := Some (rd_reason d), approval_required := Some (requires_approval d),
     action_taken := Some ''none''\<rparr>"

definition already_executed :: "review_decision \<Rightarrow> pr_state \<Rightarrow> pr_state" where
  "already_executed row base = base\<lparr>action_taken := Some ''already_executed'',
     action_url := Some (get_default [] (result_url row))\<rparr>"

text \<open>The human-gated branch: persist, tell the tenant on first creation, re-open a failed row.\<close>

definition queue_for_human ::
    "int \<Rightarrow> gh_client option \<Rightarrow> session_factory \<Rightarrow> routing_decision \<Rightarrow> pr_state \<Rightarrow> world \<Rightarrow>
     world \<times> pr_state" where
  "queue_for_human now github fac d st w =
     (let base = routed d st; queued = (\<lambda>b. b\<lparr>action_taken := Some ''queued_for_approval''\<rparr>) in
      case fac of
        NoFactory \<Rightarrow> (w, queued base)
      | Broken e \<Rightarrow> (w, base\<lparr>action_taken := Some ''enqueue_failed''\<rparr>)
      | Sessions \<Rightarrow>
          (case enqueue_tracked now (wdb w) d st of
             (db, None) \<Rightarrow> (w\<lparr>wdb := db\<rparr>, base\<lparr>action_taken := Some ''enqueue_failed''\<rparr>)
           | (db, Some (row, created)) \<Rightarrow>
               (let base = base\<lparr>decision_id := Some (dec_id row)\<rparr>; w = w\<lparr>wdb := db\<rparr> in
                if dec_status row = EXECUTED then (w, already_executed row base)
                else
                  (let w = (if created then notify_queued github st row w else w);
                       w = (if dec_status row = FAILED
                            then w\<lparr>wdb := fst (requeue_failed now (wdb w) (dec_id row))\<rparr> else w)
                   in (w, queued base)))))"

text \<open>The post of the auto path, and the mark that records it.\<close>

definition auto_execute ::
    "int \<Rightarrow> gh_client option \<Rightarrow> routing_decision \<Rightarrow> pr_state \<Rightarrow> review_decision \<Rightarrow> pr_state \<Rightarrow> world \<Rightarrow>
     world \<times> pr_state" where
  "auto_execute now github d st row base w =
     (case execute_decision github (FromPolicy d) (repo st) (pr_number st) w of
        (w', Inl e) \<Rightarrow> (w', base\<lparr>action_taken := Some ''action_failed''\<rparr>)
      | (w', Inr result) \<Rightarrow>
          if ok result then
            (w'\<lparr>wdb := mark_executed now (wdb w') (dec_id row) (url result)\<rparr>,
             base\<lparr>action_taken := Some ''executed'', action_url := Some (url result)\<rparr>)
          else
            (w'\<lparr>wdb := mark_failed now (wdb w') (dec_id row) (detail result)\<rparr>,
             base\<lparr>action_taken := Some ''action_failed'', action_url := Some (url result)\<rparr>))"

definition auto_post ::
    "int \<Rightarrow> gh_client option \<Rightarrow> session_factory \<Rightarrow> routing_decision \<Rightarrow> pr_state \<Rightarrow> world \<Rightarrow>
     world \<times> pr_state res" where
  "auto_post now github fac d st w =
     (let base = routed d st in
      case fac of
        Broken e \<Rightarrow> (w, Ret (base\<lparr>action_taken := Some ''action_failed''\<rparr>))
      | NoFactory \<Rightarrow>
          (case execute_decision github (FromPolicy d) (repo st) (pr_number st) w of
             (w', Inl e) \<Rightarrow> (w', Raise e)
           | (w', Inr result) \<Rightarrow>
               (w', Ret (base\<lparr>action_taken := Some (if ok result then ''executed'' else ''action_failed''),
                              action_url := Some (url result)\<rparr>)))
      | Sessions \<Rightarrow>
          (case enqueue_tracked now (wdb w) d st of
             (db, None) \<Rightarrow> (w\<lparr>wdb := db\<rparr>, Ret (base\<lparr>action_taken := Some ''action_failed''\<rparr>))
           | (db, Some (row, created)) \<Rightarrow>
               (let base = base\<lparr>decision_id := Some (dec_id row)\<rparr>; w = w\<lparr>wdb := db\<rparr> in
                if dec_status row = EXECUTED then (w, Ret (already_executed row base))
                else if \<not> created \<and> dec_status row = REJECTED
                  then (w, Ret (base\<lparr>action_taken := Some ''already_rejected''\<rparr>))
                else if \<not> created \<and> dec_status row \<noteq> FAILED
                  then (w, Ret (base\<lparr>action_taken := Some ''already_queued''\<rparr>))
                else map_prod id Ret (auto_execute now github d st row base w))))"

definition router_node ::
    "settings \<Rightarrow> int \<Rightarrow> gh_client option \<Rightarrow> session_factory \<Rightarrow> pr_state \<Rightarrow> world \<Rightarrow> world \<times> pr_state res" where
  "router_node s now github fac st w =
     (case route s st of
        Inl e \<Rightarrow> (w, Raise e)
      | Inr d \<Rightarrow>
          if \<not> is_actionable d then (w, Ret (routed d st))
          else if requires_approval d then map_prod id Ret (queue_for_human now github fac d st w)
          else auto_post now github fac d st w)"


section \<open>Facts\<close>

lemma wf_notify [wf_intros]: "wf_db (wdb w) \<Longrightarrow> wf_db (wdb (notify_queued github st row w))"
  by (simp add: notify_queued_def split: option.split)

lemma wdb_notify [simp]: "wdb (notify_queued github st row w) = wdb w"
  by (simp add: notify_queued_def split: option.split)

lemma calls_notify:
  "calls (notify_queued github st row w) = calls w \<or>
   (\<exists>c. calls (notify_queued github st row w) = calls w @ [c] \<and> call_body c = queued_notice row)"
  by (simp add: notify_queued_def post_issue_comment_def split: option.split)

lemma wf_auto_execute [wf_intros]:
  "wf_db (wdb w) \<Longrightarrow> wf_db (wdb (fst (auto_execute now github d st row base w)))"
  using execute_decision_db [of github "FromPolicy d" "repo st" "pr_number st" w]
  by (auto simp: auto_execute_def wf_marks split: prod.split sum.split simp del: execute_decision_db)

lemma wf_router [wf_intros]:
  assumes "wf_db (wdb w)" shows "wf_db (wdb (fst (router_node s now github fac st w)))"
proof -
  have enq: "wf_db db" if "enqueue_tracked now (wdb w) d st = (db, x)" for d db x
    using wf_enqueue [OF assms, of now d st] that by simp
  have ex: "wdb w' = wdb w" if "execute_decision github p a b w = (w', x)" for p a b w' x
    using execute_decision_db [of github p a b w] that by simp
  have "wf_db (wdb (fst (queue_for_human now github fac d st w)))" for d
    by (auto simp: queue_for_human_def Let_def assms enq wf_requeue
        split: session_factory.split prod.split option.split)
  moreover have "wf_db (wdb (fst (auto_post now github fac d st w)))" for d
    by (auto simp: auto_post_def Let_def assms enq ex wf_auto_execute
        split: session_factory.split prod.split option.split sum.split)
  ultimately show ?thesis
    using assms by (simp add: router_node_def split: sum.split)
qed

text \<open>
  The two branches when the key already has a row that is not \<open>FAILED\<close>: neither writes nor posts.
\<close>

lemma queue_existing:
  assumes "find_decision (wdb w) (dedup_key d st) = Some row" and "dec_status row \<noteq> FAILED"
  shows "fst (queue_for_human now github Sessions d st w) = w"
  using assms by (simp add: queue_for_human_def enqueue_tracked_def enqueue_tracked_at_def Let_def)

lemma auto_existing:
  assumes "find_decision (wdb w) (dedup_key d st) = Some row" and "dec_status row \<noteq> FAILED"
  shows "fst (auto_post now github Sessions d st w) = w"
  using assms by (simp add: auto_post_def enqueue_tracked_def enqueue_tracked_at_def Let_def)

lemma router_existing:
  assumes "route s st = Ret d" and "find_decision (wdb w) (dedup_key d st) = Some row"
    and "dec_status row \<noteq> FAILED"
  shows "fst (router_node s now github Sessions st w) = w"
  using assms queue_existing [OF assms(2,3)] auto_existing [OF assms(2,3)]
  by (simp add: router_node_def)

lemma auto_execute_taken:
  assumes "auto_execute now github d st row base w = (w', st')"
    and "action_taken st' = Some ''executed''"
  shows "\<exists>u. wdb w' = mark_executed now (wdb w) (dec_id row) u"
  using assms execute_decision_db [of github "FromPolicy d" "repo st" "pr_number st" w]
  by (auto simp: auto_execute_def split: prod.splits sum.splits if_splits simp del: execute_decision_db)

text \<open>A run that reports \<open>executed\<close> leaves the row of its key \<open>EXECUTED\<close>.\<close>

lemma auto_post_executed:
  assumes "wf_db (wdb w)" and "auto_post now github Sessions d st w = (w', Ret st')"
    and "action_taken st' = Some ''executed''"
  shows "\<exists>row. find_decision (wdb w') (dedup_key d st) = Some row \<and> dec_status row = EXECUTED"
proof -
  obtain row c db where enq: "enqueue_tracked now (wdb w) d st = (db, Some (row, c))"
    using enqueue_Some [of now "wdb w" d st] by (cases "enqueue_tracked now (wdb w) d st") auto
  let ?w = "w\<lparr>wdb := db\<rparr>"
  let ?base = "(routed d st)\<lparr>decision_id := Some (dec_id row)\<rparr>"
  have here: "find_decision db (dedup_key d st) = Some row" "wf_db db"
    by (rule find_after_insert [OF assms(1) enq])+
  have "auto_execute now github d st row ?base ?w = (w', st')"
    using assms(2,3) enq by (auto simp: auto_post_def Let_def already_executed_def split: if_splits prod.splits)
  from auto_execute_taken [OF this assms(3)] obtain u
    where db': "wdb w' = mark_executed now db (dec_id row) u" by auto
  have got: "get_decision db (dec_id row) = Some row" "dec_dedup_key row = dedup_key d st"
    using here by (simp_all add: find_decision_get)
  let ?new = "row\<lparr>dec_status := EXECUTED, result_url := Some u, dec_updated_at := now\<rparr>"
  have "get_decision (wdb w') (dec_id ?new) = Some ?new" using got by (simp add: db' mark_get)
  moreover have "wf_db (wdb w')" using here(2) by (simp add: db' wf_marks)
  ultimately have "find_decision (wdb w') (dedup_key d st) = Some ?new"
    using got(2) by (simp add: find_decision_get)
  then show ?thesis by auto
qed

lemma router_executed:
  assumes "wf_db (wdb w)" and "route s st = Ret d"
    and "router_node s now github Sessions st w = (w', Ret st')" and "action_taken st' = Some ''executed''"
  shows "\<exists>row. find_decision (wdb w') (dedup_key d st) = Some row \<and> dec_status row = EXECUTED"
proof -
  have "action_taken (snd (queue_for_human now github Sessions d st w)) \<noteq> Some ''executed''"
    by (auto simp: queue_for_human_def Let_def already_executed_def routed_def split: prod.split option.split)
  then have "auto_post now github Sessions d st w = (w', Ret st')"
    using assms by (auto simp: router_node_def routed_def split: if_splits)
  from auto_post_executed [OF assms(1) this assms(4)] show ?thesis .
qed

text \<open>
  C9. Gate preservation: whatever the policy makes of a redelivery, if the decision's key already has
  a row that is pending, approved, rejected or executed, the router posts nothing and writes nothing.
  And a decision that requires approval is never carried out here: the only call it can cause is the
  notice of its own fresh row.
\<close>

theorem router_preserves_gate:
  assumes "wf_db (wdb w)" and "route s st = Ret d"
    and "router_node s now (Some client) Sessions st w = (w', r)"
  shows "(case find_decision (wdb w) (dedup_key d st) of
      Some row \<Rightarrow> dec_status row \<noteq> FAILED \<longrightarrow> w' = w
    | None \<Rightarrow> True) \<and>
   (requires_approval d \<longrightarrow> calls w' = calls w \<or>
     (\<exists>c row. calls w' = calls w @ [c] \<and> call_body c = queued_notice row \<and>
        find_decision (wdb w) (dedup_key d st) = None \<and>
        find_decision (wdb w') (dedup_key d st) = Some row \<and> dec_status row = PENDING))"
proof (intro conjI impI)
  show "case find_decision (wdb w) (dedup_key d st) of
      Some row \<Rightarrow> dec_status row \<noteq> FAILED \<longrightarrow> w' = w | None \<Rightarrow> True"
    using router_existing [OF assms(2)] assms(3) by (auto split: option.split) (metis fst_conv)
next
  assume gated: "requires_approval d"
  obtain row c db where enq: "enqueue_tracked now (wdb w) d st = (db, Some (row, c))"
    using enqueue_Some [of now "wdb w" d st] by (cases "enqueue_tracked now (wdb w) d st") auto
  have w': "w' = fst (queue_for_human now (Some client) Sessions d st w) \<or> w' = w"
    using assms(2,3) gated by (auto simp: router_node_def split: if_splits prod.splits)
  show "calls w' = calls w \<or> (\<exists>c row. calls w' = calls w @ [c] \<and> call_body c = queued_notice row \<and>
      find_decision (wdb w) (dedup_key d st) = None \<and>
      find_decision (wdb w') (dedup_key d st) = Some row \<and> dec_status row = PENDING)"
  proof (cases c)
    case False
    then show ?thesis using w' enq by (auto simp: queue_for_human_def Let_def)
  next
    case True
    then have new: "find_decision (wdb w) (dedup_key d st) = None" "dec_status row = PENDING"
      using enqueue_created [of now "wdb w" d st db row] enq by simp_all
    have here: "find_decision db (dedup_key d st) = Some row" by (rule find_after_insert [OF assms(1) enq])
    show ?thesis
      using w' enq True new here calls_notify [of "Some client" st row "w\<lparr>wdb := db\<rparr>"]
      by (auto simp: queue_for_human_def Let_def)
  qed
qed

text \<open>
  A redelivered job does not post twice: once a run has executed its decision, any later run, at
  any risk score and against any client, that resolves to the same key posts nothing and leaves the
  ledger as it is.
\<close>

theorem router_posts_once:
  assumes "wf_db (wdb w)" and "route s st = Ret d"
    and "router_node s now (Some client) Sessions st w = (w1, Ret st1)"
    and "action_taken st1 = Some ''executed''"
    and "route s2 st2 = Ret d2" and "dedup_key d2 st2 = dedup_key d st"
  shows "fst (router_node s2 later (Some client2) Sessions st2 w1) = w1"
proof -
  obtain row where "find_decision (wdb w1) (dedup_key d st) = Some row" "dec_status row = EXECUTED"
    using router_executed [OF assms(1-4)] by blast
  then show ?thesis using router_existing [OF assms(5)] assms(6) by simp
qed

text \<open>
  With a session factory, the node returns a state whenever the policy produced a decision,
  whatever the GitHub client or the database connection raise; what it reports about the action is
  one of eight values.
\<close>

theorem router_returns:
  assumes "route s st = Ret d" and "fac \<noteq> NoFactory"
  shows "\<exists>w' st'. router_node s now github fac st w = (w', Ret st') \<and>
    action_taken st' \<in> Some ` {''none'', ''queued_for_approval'', ''enqueue_failed'', ''already_executed'',
      ''already_rejected'', ''already_queued'', ''executed'', ''action_failed''}"
proof -
  have q: "action_taken (snd (queue_for_human now github fac d st w)) \<in>
      Some ` {''queued_for_approval'', ''enqueue_failed'', ''already_executed''}"
    by (simp add: queue_for_human_def Let_def already_executed_def split: session_factory.split prod.split option.split)
  have x: "action_taken (snd (auto_execute now github d st row base w2)) \<in> Some ` {''executed'', ''action_failed''}"
    for row base w2
    by (simp add: auto_execute_def split: prod.split sum.split)
  have a: "\<exists>w' st'. auto_post now github fac d st w = (w', Ret st') \<and> action_taken st' \<in>
      Some ` {''already_executed'', ''already_rejected'', ''already_queued'', ''executed'', ''action_failed''}"
  proof (cases fac)
    case Sessions
    obtain row c db where enq: "enqueue_tracked now (wdb w) d st = (db, Some (row, c))"
      using enqueue_Some [of now "wdb w" d st] by (cases "enqueue_tracked now (wdb w) d st") auto
    let ?run = "auto_execute now github d st row ((routed d st)\<lparr>decision_id := Some (dec_id row)\<rparr>) (w\<lparr>wdb := db\<rparr>)"
    obtain w' st' where run: "?run = (w', st')" by (cases ?run)
    have "action_taken st' \<in> Some ` {''executed'', ''action_failed''}"
      using x [of row "(routed d st)\<lparr>decision_id := Some (dec_id row)\<rparr>" "w\<lparr>wdb := db\<rparr>"]
      unfolding run by simp
    then show ?thesis
      by (auto simp: auto_post_def Let_def Sessions enq already_executed_def run)
  qed (use assms(2) in \<open>simp_all add: auto_post_def\<close>)
  show ?thesis
    using assms(1) q a by (cases "queue_for_human now github fac d st w")
      (auto simp: router_node_def routed_def)
qed

definition demo_world :: world where
  "demo_world = \<lparr>wdb = empty_db, calls = []\<rparr>"

definition gated_world :: world where
  "gated_world = \<lparr>wdb = empty_db\<lparr>review_decisions := \<lparr>rows =
     [(demo_row PENDING)\<lparr>dec_dedup_key := ''octo/demo|7|abc123|comment_review''\<rparr>], seq = 2\<rparr>\<rparr>, calls = []\<rparr>"

lemma wf_demo_worlds [simp]: "wf_db (wdb demo_world)" "wf_db (wdb gated_world)"
  by (simp_all add: demo_world_def gated_world_def wf_db_def wf_table_def empty_db_def
      empty_table_def demo_row_def)

lemma demo_route:
  obtains d where "route default_settings demo_review_state = Ret d" "rd_action d = COMMENT_REVIEW"
proof -
  have "\<exists>d. route default_settings demo_review_state = Ret d \<and> rd_action d = COMMENT_REVIEW"
    by (simp add: route_defs is_ci_state_def auto_ok_def demo_review_state_def default_settings_def
        empty_state_def risk_rank_values render_review_body_def json_iter_def render_finding_def json_or_def)
  then show ?thesis using that by blast
qed

lemma demo_key:
  assumes "rd_action d = COMMENT_REVIEW"
  shows "dedup_key d demo_review_state = ''octo/demo|7|abc123|comment_review''"
proof -
  have "int_str 7 = ''7''" by code_simp
  then show ?thesis using assms by (simp add: dedup_key_def demo_review_state_def)
qed

theorem router_preserves_gate_witness:
  "fst (router_node default_settings 5 (Some fake_client) Sessions demo_review_state gated_world) = gated_world"
proof -
  obtain d where d: "route default_settings demo_review_state = Ret d" "rd_action d = COMMENT_REVIEW"
    by (rule demo_route)
  have "find_decision (wdb gated_world) ''octo/demo|7|abc123|comment_review'' =
      Some ((demo_row PENDING)\<lparr>dec_dedup_key := ''octo/demo|7|abc123|comment_review''\<rparr>)"
    by code_simp
  moreover have "dec_status (demo_row PENDING) = PENDING" by (simp add: demo_row_def)
  ultimately show ?thesis
    using router_preserves_gate [OF wf_demo_worlds(2) d(1), of 5 fake_client
        "fst (router_node default_settings 5 (Some fake_client) Sessions demo_review_state gated_world)"
        "snd (router_node default_settings 5 (Some fake_client) Sessions demo_review_state gated_world)"]
    by (simp add: demo_key [OF d(2)])
qed

definition demo_executed :: "world \<times> pr_state res" where
  "demo_executed = router_node default_settings 5 (Some fake_client) Sessions demo_review_state demo_world"

theorem router_posts_once_witness:
  "length (calls (fst demo_executed)) = 1 \<and>
   fst (router_node default_settings 6 (Some fake_client) Sessions demo_review_state (fst demo_executed)) =
     fst demo_executed"
proof -
  obtain d where d: "route default_settings demo_review_state = Ret d" by (rule demo_route)
  have "case demo_executed of (w, Inr st) \<Rightarrow> action_taken st = Some ''executed'' \<and> length (calls w) = 1 | _ \<Rightarrow> False"
    by code_simp
  then obtain w1 st1 where run: "demo_executed = (w1, Ret st1)" and st1: "action_taken st1 = Some ''executed''"
    and one: "length (calls w1) = 1"
    by (auto split: prod.splits sum.splits)
  have "fst (router_node default_settings 6 (Some fake_client) Sessions demo_review_state w1) = w1"
    by (rule router_posts_once [OF wf_demo_worlds(1) d run [unfolded demo_executed_def] st1 d refl])
  then show ?thesis using one unfolding run by simp
qed

theorem router_returns_witness:
  "\<exists>w' st'. router_node default_settings 5 (Some (\<lambda>_ _. Raise (Exc HTTPError ''timeout''))) Sessions
     demo_review_state demo_world = (w', Ret st')"
proof -
  obtain d where d: "route default_settings demo_review_state = Ret d" by (rule demo_route)
  have "Sessions \<noteq> NoFactory" by simp
  from router_returns [OF d this] show ?thesis by blast
qed

end
