(* ===== verification/Approval.thy ===== *)
theory Approval
  imports Router
begin

text \<open>
  Concurrent approvals. The endpoints of \<^verbatim>\<open>src/app/main.py\<close> and \<^verbatim>\<open>src/app/commands.py\<close> run in several
  threads against one database, so an approval is a sequence of separately committed statements. Here
  each committed statement of \<open>store.py\<close> is one step of the relation \<open>astep\<close>, and any number of
  approvers, rejecters, enqueues, re-openings and restarts interleave at will.

  The locale \<open>decision_store\<close> is the interface the approvers rely on: what each statement does to the
  status of a decision. It is interpreted on the operations of the store, and the invariant of the
  protocol is preserved because of its laws alone.
\<close>

section \<open>The protocol state\<close>

text \<open>
  Where one approval request is: \<open>Tried\<close> lost the first compare-and-set and will look at the row
  again, \<open>Retrying\<close> saw \<open>FAILED\<close> and will try the second, \<open>Holding\<close> owns the execution, \<open>Posted\<close> has
  GitHub's answer and has not recorded it.
\<close>

datatype phase = Idle | Tried int | Retrying int | Holding int | Posted int bool | Finished

text \<open>
  \<open>landed\<close> counts, per decision, the comments that reached GitHub; \<open>lost\<close> counts the restarts that
  killed a request between the accepted comment and the mark that would have recorded it.
\<close>

record protocol =
  pdb :: database
  pc :: "nat \<Rightarrow> phase"
  landed :: "int \<Rightarrow> nat"
  lost :: "int \<Rightarrow> nat"

definition dstat :: "database \<Rightarrow> int \<Rightarrow> decision_status option" where
  "dstat db i = map_option dec_status (get_decision db i)"

definition in_flight :: "phase \<Rightarrow> int \<Rightarrow> bool" where
  "in_flight p i \<longleftrightarrow> p = Holding i \<or> (\<exists>b. p = Posted i b)"

definition goto :: "nat \<Rightarrow> phase \<Rightarrow> protocol \<Rightarrow> protocol" where
  "goto a p s = s\<lparr>pc := (pc s)(a := p)\<rparr>"

lemma goto_simps [simp]:
  "pdb (goto a p s) = pdb s" "pc (goto a p s) = (pc s)(a := p)"
  "landed (goto a p s) = landed s" "lost (goto a p s) = lost s"
  by (simp_all add: goto_def)

definition killed :: "(nat \<Rightarrow> phase) \<Rightarrow> nat \<Rightarrow> phase" where
  "killed f a = (if f a = Idle then Idle else Finished)"

definition lose :: "(nat \<Rightarrow> phase) \<Rightarrow> (int \<Rightarrow> nat) \<Rightarrow> int \<Rightarrow> nat" where
  "lose f l i = l i + (if \<exists>a. f a = Posted i True then 1 else 0)"

inductive astep :: "protocol \<Rightarrow> protocol \<Rightarrow> bool" where
  try_claim:
    "pc s a = Idle \<Longrightarrow> claim_from PENDING now (pdb s) i = (db', won) \<Longrightarrow>
     astep s (goto a (if won then Holding i else Tried i) (s\<lparr>pdb := db'\<rparr>))"
| reread:
    "pc s a = Tried i \<Longrightarrow>
     astep s (goto a (if dstat (pdb s) i = Some FAILED then Retrying i else Finished) s)"
| retry_claim:
    "pc s a = Retrying i \<Longrightarrow> claim_from FAILED now (pdb s) i = (db', won) \<Longrightarrow>
     astep s (goto a (if won then Holding i else Finished) (s\<lparr>pdb := db'\<rparr>))"
| post:
    "pc s a = Holding i \<Longrightarrow>
     astep s (goto a (Posted i b) (s\<lparr>landed := (landed s)(i := landed s i + (if b then 1 else 0))\<rparr>))"
| raised:
    "pc s a = Holding i \<Longrightarrow> astep s (goto a Finished s)"
| hand_off:
    "pc s a = Holding i \<Longrightarrow>
     astep s (goto a Finished (s\<lparr>pdb := mark_executed now (pdb s) i u\<rparr>))"
| record_success:
    "pc s a = Posted i True \<Longrightarrow>
     astep s (goto a Finished (s\<lparr>pdb := mark_executed now (pdb s) i u\<rparr>))"
| record_failure:
    "pc s a = Posted i False \<Longrightarrow>
     astep s (goto a Finished (s\<lparr>pdb := mark_failed now (pdb s) i det\<rparr>))"
| reject:
    "astep s (s\<lparr>pdb := fst (reject_pending now (pdb s) i)\<rparr>)"
| requeue:
    "astep s (s\<lparr>pdb := fst (requeue_failed now (pdb s) i)\<rparr>)"
| queue_up:
    "astep s (s\<lparr>pdb := fst (enqueue_tracked_at now seen (pdb s) d st)\<rparr>)"
| restart:
    "astep s (s\<lparr>pdb := fst (sweep_interrupted now (pdb s)), pc := killed (pc s),
                lost := lose (pc s) (lost s)\<rparr>)"

definition initial :: "protocol \<Rightarrow> bool" where
  "initial s \<longleftrightarrow> wf_db (pdb s) \<and> (\<forall>a. pc s a = Idle) \<and> (\<forall>i. landed s i = 0 \<and> lost s i = 0)"

inductive reachable :: "protocol \<Rightarrow> bool" where
  start: "initial s \<Longrightarrow> reachable s"
| step: "reachable s \<Longrightarrow> astep s s' \<Longrightarrow> reachable s'"


section \<open>The interface the approvers rely on\<close>

text \<open>
  The invariant, over the status of each decision: at most one request is in flight for a decision,
  the decision is \<open>APPROVED\<close> while one is, and every comment that landed is accounted for by a recorded
  execution, by the request about to record it, or by a restart that lost it.
\<close>

definition exclusive :: "(nat \<Rightarrow> phase) \<Rightarrow> bool" where
  "exclusive f \<longleftrightarrow> (\<forall>a b i. in_flight (f a) i \<and> in_flight (f b) i \<longrightarrow> a = b)"

definition held :: "(int \<Rightarrow> decision_status option) \<Rightarrow> (nat \<Rightarrow> phase) \<Rightarrow> bool" where
  "held st f \<longleftrightarrow> (\<forall>a i. in_flight (f a) i \<longrightarrow> st i = Some APPROVED)"

definition recorded :: "(int \<Rightarrow> decision_status option) \<Rightarrow> (nat \<Rightarrow> phase) \<Rightarrow> int \<Rightarrow> bool" where
  "recorded st f i \<longleftrightarrow> st i = Some EXECUTED \<or> (\<exists>a. f a = Posted i True)"

definition accounted ::
    "(int \<Rightarrow> decision_status option) \<Rightarrow> (nat \<Rightarrow> phase) \<Rightarrow> (int \<Rightarrow> nat) \<Rightarrow> (int \<Rightarrow> nat) \<Rightarrow> bool" where
  "accounted st f ld ls \<longleftrightarrow> (\<forall>i. ld i \<le> ls i + (if recorded st f i then 1 else 0))"

definition ainv ::
    "(int \<Rightarrow> decision_status option) \<Rightarrow> (nat \<Rightarrow> phase) \<Rightarrow> (int \<Rightarrow> nat) \<Rightarrow> (int \<Rightarrow> nat) \<Rightarrow> bool" where
  "ainv st f ld ls \<longleftrightarrow> exclusive f \<and> held st f \<and> accounted st f ld ls"

lemma accounted_mono:
  assumes "accounted st f ld ls" and "\<And>i. recorded st f i \<Longrightarrow> recorded st' f' i"
  shows "accounted st' f' ld ls"
  unfolding accounted_def
proof
  fix i
  have "ld i \<le> ls i + (if recorded st f i then 1 else 0)" using assms(1) by (simp add: accounted_def)
  also have "\<dots> \<le> ls i + (if recorded st' f' i then 1 else 0)" using assms(2) [of i] by simp
  finally show "ld i \<le> ls i + (if recorded st' f' i then 1 else 0)" .
qed

lemma posted_upd:
  "f a \<noteq> Posted i True \<Longrightarrow> p \<noteq> Posted i True \<Longrightarrow> (\<exists>b. (f(a := p)) b = Posted i True) \<longleftrightarrow> (\<exists>b. f b = Posted i True)"
  by (metis fun_upd_apply)

lemma exclusive_upd:
  assumes "exclusive f" and "\<And>b j. in_flight p j \<Longrightarrow> in_flight (f b) j \<Longrightarrow> b = a"
  shows "exclusive (f(a := p))"
  using assms unfolding exclusive_def fun_upd_apply by metis

lemma held_upd:
  assumes "held st f" and "\<And>j. in_flight p j \<Longrightarrow> st' j = Some APPROVED"
    and "\<And>b j. in_flight (f b) j \<Longrightarrow> b \<noteq> a \<Longrightarrow> st' j = st j"
  shows "held st' (f(a := p))"
  using assms unfolding held_def fun_upd_apply by metis

lemma in_flight_simps [simp]:
  "in_flight (Holding i) j \<longleftrightarrow> j = i" "in_flight (Posted i b) j \<longleftrightarrow> j = i" "\<not> in_flight Finished j"
  "\<not> in_flight Idle j" "\<not> in_flight (Tried i) j" "\<not> in_flight (Retrying i) j"
  by (auto simp: in_flight_def)

locale decision_store =
  fixes valid :: "'db \<Rightarrow> bool" and status :: "'db \<Rightarrow> int \<Rightarrow> decision_status option"
    and claim :: "decision_status \<Rightarrow> 'db \<Rightarrow> int \<Rightarrow> 'db \<times> bool"
    and executed :: "'db \<Rightarrow> int \<Rightarrow> 'db" and failed :: "'db \<Rightarrow> int \<Rightarrow> 'db"
    and rejects :: "'db \<Rightarrow> int \<Rightarrow> 'db" and reopen :: "'db \<Rightarrow> int \<Rightarrow> 'db" and sweep :: "'db \<Rightarrow> 'db"
  assumes claim_won: "valid db \<Longrightarrow> snd (claim s db i) \<longleftrightarrow> status db i = Some s"
    and claim_status: "valid db \<Longrightarrow> status (fst (claim s db i)) =
      (if status db i = Some s then (status db)(i := Some APPROVED) else status db)"
    and executed_status: "valid db \<Longrightarrow> status db i \<noteq> None \<Longrightarrow> status (executed db i) = (status db)(i := Some EXECUTED)"
    and failed_status: "valid db \<Longrightarrow> status db i \<noteq> None \<Longrightarrow> status (failed db i) = (status db)(i := Some FAILED)"
    and rejects_status: "valid db \<Longrightarrow> status (rejects db i) =
      (if status db i = Some PENDING then (status db)(i := Some REJECTED) else status db)"
    and reopen_status: "valid db \<Longrightarrow> status (reopen db i) =
      (if status db i = Some FAILED then (status db)(i := Some PENDING) else status db)"
    and sweep_status: "valid db \<Longrightarrow> status (sweep db) k =
      (if status db k = Some APPROVED then Some FAILED else status db k)"
begin

lemma claim_keeps:
  assumes "valid db" and "s \<in> {PENDING, FAILED}" and inv: "ainv (status db) f ld ls"
    and a: "\<And>i. \<not> in_flight (f a) i" and p: "\<And>j. \<not> in_flight p j"
  shows "ainv (status (fst (claim s db i))) (f(a := if snd (claim s db i) then Holding i else p)) ld ls"
proof (cases "status db i = Some s")
  case True
  have free: "\<not> in_flight (f b) i" for b
  proof
    assume "in_flight (f b) i"
    then have "status db i = Some APPROVED" using inv unfolding ainv_def held_def by blast
    with True assms(2) show False by auto
  qed
  let ?st = "(status db)(i := Some APPROVED)" and ?f = "f(a := Holding i)"
  have "f a \<noteq> Posted j True" for j using a [of j] by (auto simp: in_flight_def)
  then have "(\<exists>b. ?f b = Posted j True) \<longleftrightarrow> (\<exists>b. f b = Posted j True)" for j
    by (intro posted_upd) simp_all
  moreover have "status db j = Some EXECUTED \<Longrightarrow> ?st j = Some EXECUTED" for j
    using assms(2) True by (cases "j = i") auto
  ultimately have "recorded (status db) f j \<Longrightarrow> recorded ?st ?f j" for j
    unfolding recorded_def by blast
  then have "accounted ?st ?f ld ls"
    using inv accounted_mono [of "status db" f ld ls] unfolding ainv_def by blast
  moreover have "exclusive ?f"
    by (rule exclusive_upd) (use inv free in \<open>auto simp: ainv_def\<close>)
  moreover have "held ?st ?f"
    by (rule held_upd [of "status db"]) (use inv free in \<open>auto simp: ainv_def\<close>)
  ultimately have "ainv ?st ?f ld ls" unfolding ainv_def by blast
  moreover have "status (fst (claim s db i)) = ?st" "snd (claim s db i)"
    using claim_status [OF assms(1)] claim_won [OF assms(1)] True by simp_all
  ultimately show ?thesis by simp
next
  case False
  have "f a \<noteq> Posted j True" "p \<noteq> Posted j True" for j
    using a [of j] p [of j] by (auto simp: in_flight_def)
  then have "recorded (status db) (f(a := p)) j \<longleftrightarrow> recorded (status db) f j" for j
    using posted_upd [of f a j p] unfolding recorded_def by blast
  then have "accounted (status db) (f(a := p)) ld ls" using inv by (simp add: ainv_def accounted_def)
  moreover have "exclusive (f(a := p))" by (rule exclusive_upd) (use inv p in \<open>auto simp: ainv_def\<close>)
  moreover have "held (status db) (f(a := p))" by (rule held_upd [of "status db"]) (use inv p in \<open>auto simp: ainv_def\<close>)
  ultimately show ?thesis using False by (simp add: ainv_def claim_won claim_status assms(1))
qed

lemma record_keeps:
  assumes "valid db" and inv: "ainv (status db) f ld ls" and a: "in_flight (f a) i"
  shows "ainv (status (executed db i)) (f(a := Finished)) ld ls"
    and "f a \<noteq> Posted i True \<Longrightarrow> ainv (status (failed db i)) (f(a := Finished)) ld ls"
proof -
  have st: "status db i = Some APPROVED" and one: "\<And>b. in_flight (f b) i \<Longrightarrow> b = a"
    using inv a by (auto simp: ainv_def held_def exclusive_def)
  have e: "status (executed db i) = (status db)(i := Some EXECUTED)"
    "status (failed db i) = (status db)(i := Some FAILED)"
    using st by (simp_all add: executed_status failed_status assms(1))
  have fl: "exclusive (f(a := Finished))" "held ((status db)(i := x)) (f(a := Finished))" for x
    using inv one by (auto simp: ainv_def intro!: exclusive_upd held_upd [of "status db"])
  have other: "(\<exists>b. (f(a := Finished)) b = Posted j True) \<longleftrightarrow> (\<exists>b. f b = Posted j True)" if "j \<noteq> i" for j
    using that a by (intro posted_upd) (auto simp: in_flight_def)
  have "recorded (status db) f j \<Longrightarrow> recorded ((status db)(i := Some EXECUTED)) (f(a := Finished)) j" for j
    using other [of j] by (cases "j = i") (simp_all only: recorded_def fun_upd_other fun_upd_same simp_thms)
  then show "ainv (status (executed db i)) (f(a := Finished)) ld ls"
    using inv fl accounted_mono [of "status db" f ld ls] unfolding e ainv_def by blast
  show "ainv (status (failed db i)) (f(a := Finished)) ld ls" if no: "f a \<noteq> Posted i True"
  proof -
    have "f b \<noteq> Posted i True" for b using no one [of b] by (auto simp: in_flight_def)
    then have "\<not> recorded (status db) f i" using st by (simp add: recorded_def)
    then have "recorded (status db) f j \<Longrightarrow> recorded ((status db)(i := Some FAILED)) (f(a := Finished)) j" for j
      using other [of j] by (cases "j = i") (simp_all only: recorded_def fun_upd_other simp_thms)
    then show ?thesis using inv fl accounted_mono [of "status db" f ld ls] unfolding e ainv_def by blast
  qed
qed

lemma quiet_keeps:
  assumes "valid db" and inv: "ainv (status db) f ld ls"
  shows "ainv (status (rejects db i)) f ld ls" "ainv (status (reopen db i)) f ld ls"
proof -
  have "recorded (status db) f j \<Longrightarrow> recorded (status (rejects db i)) f j \<and> recorded (status (reopen db i)) f j" for j
    by (auto simp: recorded_def rejects_status reopen_status assms(1))
  then have "accounted (status (rejects db i)) f ld ls" "accounted (status (reopen db i)) f ld ls"
    using inv accounted_mono [of "status db" f ld ls] unfolding ainv_def by blast+
  then show "ainv (status (rejects db i)) f ld ls" "ainv (status (reopen db i)) f ld ls"
    using inv by (auto simp: ainv_def held_def rejects_status reopen_status assms(1))
qed

lemma restart_keeps:
  assumes "valid db" and "ainv (status db) f ld ls"
  shows "ainv (status (sweep db)) (killed f) ld (lose f ls)"
proof -
  have no: "\<not> in_flight (killed f a) i" "killed f a \<noteq> Posted i b" for a i b
    by (auto simp: killed_def in_flight_def)
  have "ld i \<le> lose f ls i + (if recorded (status (sweep db)) (killed f) i then 1 else 0)" for i
  proof -
    have "ld i \<le> ls i + (if recorded (status db) f i then 1 else 0)"
      using assms(2) by (simp add: ainv_def accounted_def)
    then show ?thesis using no assms(1)
      by (auto simp: recorded_def lose_def sweep_status split: if_splits)
  qed
  then show ?thesis using no by (simp add: ainv_def exclusive_def held_def accounted_def)
qed

end


section \<open>The store provides the interface\<close>

text \<open>The status seen through a statement that maps the rows one by one.\<close>

lemma dstat_after:
  assumes "\<And>k. get_decision db' k = map_option (g k) (get_decision db k)"
    and "\<And>k r. dec_status (g k r) = h k (dec_status r)"
  shows "dstat db' k = map_option (h k) (dstat db k)"
  by (simp add: dstat_def assms option.map_comp comp_def)

lemma dstat_claim: "dstat (fst (claim_from s now db i)) k =
    map_option (\<lambda>x. if k = i \<and> x = s then APPROVED else x) (dstat db k)"
  by (rule dstat_after, rule claim_from_get) simp

lemma dstat_reject: "dstat (fst (reject_pending now db i)) k =
    map_option (\<lambda>x. if k = i \<and> x = PENDING then REJECTED else x) (dstat db k)"
  by (rule dstat_after, rule reject_pending_get) simp

lemma dstat_requeue: "dstat (fst (requeue_failed now db i)) k =
    map_option (\<lambda>x. if k = i \<and> x = FAILED then PENDING else x) (dstat db k)"
  by (rule dstat_after, rule requeue_get) simp

lemma dstat_sweep: "dstat (fst (sweep_interrupted now db)) k =
    map_option (\<lambda>x. if x = APPROVED then FAILED else x) (dstat db k)"
  by (rule dstat_after, rule sweep_get) simp

lemma dstat_mark:
  "dstat (mark_executed now db i u) k = map_option (\<lambda>x. if k = i then EXECUTED else x) (dstat db k)"
  "dstat (mark_failed now db i det) k = map_option (\<lambda>x. if k = i then FAILED else x) (dstat db k)"
  by (rule dstat_after, rule mark_get, simp)+

lemma map_option_upd:
  "m i \<noteq> None \<Longrightarrow> (\<lambda>k. map_option (\<lambda>x. if k = i then v else x) (m k)) = m(i := Some v)"
  "(\<lambda>k. map_option (\<lambda>x. if k = i \<and> x = w then v else x) (m k)) = (if m i = Some w then m(i := Some v) else m)"
proof -
  show "m i \<noteq> None \<Longrightarrow> (\<lambda>k. map_option (\<lambda>x. if k = i then v else x) (m k)) = m(i := Some v)"
    by (rule ext, case_tac "m k") auto
  show "(\<lambda>k. map_option (\<lambda>x. if k = i \<and> x = w then v else x) (m k)) = (if m i = Some w then m(i := Some v) else m)"
    by (rule ext, case_tac "m k") auto
qed

lemma dstat_fun:
  "dstat (fst (claim_from s now db i)) = (if dstat db i = Some s then (dstat db)(i := Some APPROVED) else dstat db)"
  "dstat (fst (reject_pending now db i)) = (if dstat db i = Some PENDING then (dstat db)(i := Some REJECTED) else dstat db)"
  "dstat (fst (requeue_failed now db i)) = (if dstat db i = Some FAILED then (dstat db)(i := Some PENDING) else dstat db)"
  "dstat db i \<noteq> None \<Longrightarrow> dstat (mark_executed now db i u) = (dstat db)(i := Some EXECUTED)"
  "dstat db i \<noteq> None \<Longrightarrow> dstat (mark_failed now db i det) = (dstat db)(i := Some FAILED)"
  by (simp_all only: dstat_claim dstat_reject dstat_requeue dstat_mark refl
      map_option_upd [symmetric] fun_eq_iff simp_thms not_False_eq_True)

interpretation ds: decision_store wf_db dstat "\<lambda>s. claim_from s now" "\<lambda>db i. mark_executed now db i u"
    "\<lambda>db i. mark_failed now db i det" "\<lambda>db i. fst (reject_pending now db i)"
    "\<lambda>db i. fst (requeue_failed now db i)" "\<lambda>db. fst (sweep_interrupted now db)" for now u det
proof
  show "wf_db db \<Longrightarrow> snd (claim_from s now db i) \<longleftrightarrow> dstat db i = Some s" for db s i
    by (auto simp: claim_from_won dstat_def)
  show "dstat (fst (sweep_interrupted now db)) k =
      (if dstat db k = Some APPROVED then Some FAILED else dstat db k)" for db k
    by (cases "dstat db k") (simp_all add: dstat_sweep)
qed (rule dstat_fun; assumption?)+

lemma dstat_enqueue:
  assumes "wf_db db"
  shows "dstat (fst (enqueue_tracked_at now seen db d st)) = dstat db \<or>
    dstat db (seq (review_decisions db)) = None \<and>
    dstat (fst (enqueue_tracked_at now seen db d st)) = (dstat db)(seq (review_decisions db) := Some PENDING)"
proof -
  let ?n = "seq (review_decisions db)"
  have "get_decision db ?n = None"
    using wf_dbD(2) [OF assms] by (fastforce simp: get_decision_def wf_table_def)
  moreover have "get_decision (db\<lparr>review_decisions :=
      insert_row (with_dec_id (new_decision now d st)) (review_decisions db)\<rparr>) k =
      (if k = ?n then Some (with_dec_id (new_decision now d st) k) else get_decision db k)" for k
    using wf_dbD(2) [OF assms] by (simp add: get_decision_def decisions.lookup_insert)
  ultimately show ?thesis
    by (auto simp: enqueue_tracked_at_def dstat_def fun_eq_iff split: option.split)
qed

lemma enqueue_keeps:
  assumes "wf_db db" and inv: "ainv (dstat db) f ld ls"
  shows "ainv (dstat (fst (enqueue_tracked_at now seen db d st))) f ld ls"
proof (cases "dstat (fst (enqueue_tracked_at now seen db d st)) = dstat db")
  case True
  then show ?thesis using inv by simp
next
  case False
  let ?n = "seq (review_decisions db)" and ?st = "dstat (fst (enqueue_tracked_at now seen db d st))"
  have n: "dstat db ?n = None" and st: "?st = (dstat db)(?n := Some PENDING)"
    using dstat_enqueue [OF assms(1), of now seen d st] False by simp_all
  have "recorded (dstat db) f i \<Longrightarrow> recorded ?st f i" for i
    using n unfolding st by (auto simp: recorded_def)
  then have "accounted ?st f ld ls"
    using inv accounted_mono [of "dstat db" f ld ls] unfolding ainv_def by blast
  moreover have "held ?st f"
    using inv n unfolding st ainv_def held_def fun_upd_apply by (metis option.distinct(1))
  ultimately show ?thesis using inv by (simp add: ainv_def)
qed

text \<open>Posting changes only the phase of its request and its own count.\<close>

lemma post_keeps:
  assumes inv: "ainv st f ld ls" and a: "f a = Holding i"
  shows "ainv st (f(a := Posted i b)) (ld(i := ld i + (if b then 1 else 0))) ls"
proof -
  have one: "in_flight (f c) i \<Longrightarrow> c = a" for c
    using inv a by (auto simp: ainv_def exclusive_def)
  have st: "st i = Some APPROVED"
    using inv a in_flight_simps(1) [of i i] unfolding ainv_def held_def by metis
  have nr: "\<not> recorded st f i" proof
    assume "recorded st f i"
    then obtain c where c: "f c = Posted i True" using st by (auto simp: recorded_def)
    with one [of c] a show False by simp
  qed
  have "ld j \<le> ls j + (if recorded st f j then 1 else 0)" for j
    using inv by (simp add: ainv_def accounted_def)
  moreover have "recorded st (f(a := Posted i b)) j \<longleftrightarrow> recorded st f j \<or> (j = i \<and> b)" for j
  proof (cases "j = i")
    case True
    have "(\<exists>c. (f(a := Posted i b)) c = Posted i True) \<longleftrightarrow> b"
      using one by auto
    then show ?thesis using True nr st by (auto simp: recorded_def)
  next
    case False
    then have "(\<exists>c. (f(a := Posted i b)) c = Posted j True) \<longleftrightarrow> (\<exists>c. f c = Posted j True)"
      using a by (intro posted_upd) auto
    then show ?thesis using False by (simp add: recorded_def)
  qed
  ultimately have "accounted st (f(a := Posted i b)) (ld(i := ld i + (if b then 1 else 0))) ls"
    using nr by (auto simp: accounted_def) (metis add.right_neutral)+
  moreover have "exclusive (f(a := Posted i b))"
    by (rule exclusive_upd) (use inv one in \<open>auto simp: ainv_def\<close>)
  moreover have "held st (f(a := Posted i b))"
    by (rule held_upd [of st]) (use inv st in \<open>auto simp: ainv_def\<close>)
  ultimately show ?thesis by (simp add: ainv_def)
qed

lemma drop_keeps:
  assumes inv: "ainv st f ld ls" and "\<And>i. f a \<noteq> Posted i True" and "\<And>i. \<not> in_flight p i"
  shows "ainv st (f(a := p)) ld ls"
proof -
  have "p \<noteq> Posted i True" for i using assms(3) [of i] by auto
  then have "recorded st f i \<Longrightarrow> recorded st (f(a := p)) i" for i
    using assms(2) posted_upd [of f a i p] unfolding recorded_def by blast
  then have "accounted st (f(a := p)) ld ls"
    using inv accounted_mono [of st f ld ls] unfolding ainv_def by blast
  moreover have "exclusive (f(a := p))" by (rule exclusive_upd) (use inv assms(3) in \<open>auto simp: ainv_def\<close>)
  moreover have "held st (f(a := p))" by (rule held_upd [of st]) (use inv assms(3) in \<open>auto simp: ainv_def\<close>)
  ultimately show ?thesis by (simp add: ainv_def)
qed

definition pinv :: "protocol \<Rightarrow> bool" where
  "pinv s \<longleftrightarrow> wf_db (pdb s) \<and> ainv (dstat (pdb s)) (pc s) (landed s) (lost s)"

lemma step_wf: "astep s s' \<Longrightarrow> wf_db (pdb s) \<Longrightarrow> wf_db (pdb s')"
proof (induction rule: astep.induct)
  case (try_claim s a now i db' won)
  then show ?case using wf_claim_from [of "pdb s" PENDING now i] by (simp add: goto_def)
next
  case (retry_claim s a i now db' won)
  then show ?case using wf_claim_from [of "pdb s" FAILED now i] by (simp add: goto_def)
qed (simp_all add: goto_def wf_marks wf_reject wf_requeue wf_enqueue_at wf_sweep)

lemma step_pinv: "astep s s' \<Longrightarrow> pinv s \<Longrightarrow> pinv s'"
proof -
  assume "astep s s'" "pinv s"
  then have wf': "wf_db (pdb s')" using step_wf by (simp add: pinv_def)
  from \<open>astep s s'\<close> \<open>pinv s\<close> have "ainv (dstat (pdb s')) (pc s') (landed s') (lost s')"
  proof (induction rule: astep.induct)
    case (try_claim s a now i db' won)
    then show ?case
      using ds.claim_keeps [of "pdb s" PENDING "pc s" "landed s" "lost s" a "Tried i" now i]
      by (simp add: pinv_def del: fun_upd_apply)
  next
    case (reread s a i)
    then show ?case by (auto simp: pinv_def drop_keeps simp del: fun_upd_apply)
  next
    case (retry_claim s a i now db' won)
    then show ?case
      using ds.claim_keeps [of "pdb s" FAILED "pc s" "landed s" "lost s" a Finished now i]
      by (simp add: pinv_def del: fun_upd_apply)
  qed (simp_all add: pinv_def drop_keeps post_keeps ds.record_keeps ds.quiet_keeps
      ds.restart_keeps enqueue_keeps del: fun_upd_apply)
  with wf' show "pinv s'" by (simp add: pinv_def)
qed

lemma reachable_pinv: "reachable s \<Longrightarrow> pinv s"
proof (induction rule: reachable.induct)
  case (start s)
  then show ?case
    by (simp add: initial_def pinv_def ainv_def exclusive_def held_def accounted_def)
next
  case (step s s')
  then show ?case by (blast intro: step_pinv)
qed


section \<open>Properties\<close>



text \<open>
  The concurrent protocol refines the life cycle of a decision: every step, of whichever request,
  takes the status of every decision along the specification, so no interleaving leaves a final status.
\<close>

theorem protocol_refines_lifecycle:
  assumes "reachable s" and "astep s s'" and "dstat (pdb s) k = Some x"
  shows "\<exists>y. dstat (pdb s') k = Some y \<and> lifecycle x y"
proof -
  have pinv: "pinv s" using assms(1) by (rule reachable_pinv)
  then have wf: "wf_db (pdb s)" by (simp add: pinv_def)
  have appr: "x = APPROVED" if "in_flight (pc s a) k" for a
  proof -
    have "dstat (pdb s) k = Some APPROVED" using that pinv unfolding pinv_def ainv_def held_def by blast
    with assms(3) show ?thesis by simp
  qed
  from assms(2) show ?thesis
  proof cases
    case (try_claim a now i db' won)
    then have "db' = fst (claim_from PENDING now (pdb s) i)" by simp
    then show ?thesis using assms(3) try_claim(1) by (auto simp: dstat_claim)
  next
    case (retry_claim a i now db' won)
    then have "db' = fst (claim_from FAILED now (pdb s) i)" by simp
    then show ?thesis using assms(3) retry_claim(1) by (auto simp: dstat_claim)
  next
    case (queue_up now seen d st)
    then show ?thesis
      using dstat_enqueue [OF wf, of now seen d st] assms(3) by auto
  next
    case (hand_off a i now u)
    with assms(3) appr [of a] show ?thesis by (cases "k = i") (simp_all add: dstat_mark)
  next
    case (record_success a i now u)
    with assms(3) appr [of a] show ?thesis by (cases "k = i") (simp_all add: dstat_mark)
  next
    case (record_failure a i now det)
    with assms(3) appr [of a] show ?thesis by (cases "k = i") (simp_all add: dstat_mark)
  qed (use assms(3) in \<open>auto simp: dstat_reject dstat_requeue dstat_sweep\<close>)
qed

text \<open>
  The automatic path is outside this protection: a \<open>FAILED\<close> row, also one that failed after a human
  had approved it, is posted by a run whose score is low, without a claim, while an approver's claim
  on the same row is granted as well.
\<close>

theorem auto_retry_unguarded:
  assumes "wf_db (wdb w)" and "route s st = Ret d" and "rd_action d = COMMENT_REVIEW"
    and "\<not> requires_approval d"
    and "find_decision (wdb w) (dedup_key d st) = Some row" and "dec_status row = FAILED"
  shows "length (calls (fst (router_node s now (Some client) Sessions st w))) = length (calls w) + 1 \<and>
    snd (snd (claim_approval later (wdb w) (dec_id row))) = Claimed"
proof
  have "enqueue_tracked now (wdb w) d st = (wdb w, Some (row, False))"
    using assms(5) by (simp add: enqueue_existing)
  moreover have "length (calls (fst (auto_execute now (Some client) d st row base w))) = length (calls w) + 1" for base
    using assms(3) by (simp add: auto_execute_def execute_decision_def proposal_action_def
        post_issue_comment_def Let_def split: sum.split)
  ultimately show "length (calls (fst (router_node s now (Some client) Sessions st w))) = length (calls w) + 1"
    using assms by (simp add: router_node_def is_actionable_def auto_post_def Let_def)
next
  have "get_decision (wdb w) (dec_id row) = Some row"
    using assms(1,5) by (simp add: find_decision_get)
  then show "snd (snd (claim_approval later (wdb w) (dec_id row))) = Claimed"
    using assms(1,6) by (simp add: claim_approval_cases)
qed

text \<open>A run with two racing approvers, for the witnesses.\<close>

definition demo_protocol :: protocol where
  "demo_protocol = \<lparr>pdb = demo_db PENDING, pc = (\<lambda>_. Idle), landed = (\<lambda>_. 0), lost = (\<lambda>_. 0)\<rparr>"

lemma demo_initial: "reachable demo_protocol"
  by (rule start) (simp add: initial_def demo_protocol_def)

lemma demo_claim:
  obtains s where "reachable s" "pc s 0 = Holding 1" "dstat (pdb s) 1 = Some APPROVED"
proof -
  have won: "snd (claim_from PENDING 9 (demo_db PENDING) 1)" by code_simp
  let ?s = "goto 0 (Holding 1) (demo_protocol\<lparr>pdb := fst (claim_from PENDING 9 (demo_db PENDING) 1)\<rparr>)"
  have "astep demo_protocol ?s"
    using astep.try_claim [of demo_protocol 0 9 1 "fst (claim_from PENDING 9 (demo_db PENDING) 1)" True] won
    by (cases "claim_from PENDING 9 (demo_db PENDING) 1") (simp add: demo_protocol_def)
  then have "reachable ?s" using demo_initial by (blast intro: step)
  moreover have "dstat (demo_db PENDING) 1 = Some PENDING" by code_simp
  ultimately show ?thesis using that [of ?s] by (simp add: dstat_claim)
qed



theorem protocol_refines_lifecycle_witness:
  "\<exists>s y. reachable s \<and> dstat (pdb s) 1 = Some APPROVED \<and> y = APPROVED \<and> lifecycle APPROVED y"
proof -
  obtain s where s: "reachable s" "pc s 0 = Holding 1" "dstat (pdb s) 1 = Some APPROVED" by (rule demo_claim)
  have "astep s (goto 0 Finished s)" by (rule astep.raised) (rule s(2))
  from protocol_refines_lifecycle [OF s(1) this s(3)] s show ?thesis by auto
qed

theorem auto_retry_unguarded_witness:
  "\<exists>w. length (calls (fst (router_node default_settings 5 (Some fake_client) Sessions demo_review_state w))) = 1 \<and>
     snd (snd (claim_approval 6 (wdb w) 1)) = Claimed"
proof -
  let ?row = "(demo_row FAILED)\<lparr>dec_dedup_key := ''octo/demo|7|abc123|comment_review''\<rparr>"
  let ?w = "\<lparr>wdb = empty_db\<lparr>review_decisions := \<lparr>rows = [?row], seq = 2\<rparr>\<rparr>, calls = []\<rparr>"
  obtain d where d: "route default_settings demo_review_state = Ret d" "rd_action d = COMMENT_REVIEW"
    by (rule demo_route)
  have free: "\<not> requires_approval d"
    using d by (auto simp: route_defs is_ci_state_def auto_ok_def demo_review_state_def default_settings_def
        empty_state_def risk_rank_values)
  have wf: "wf_db (wdb ?w)"
    by (simp add: wf_db_def wf_table_def empty_db_def empty_table_def demo_row_def)
  have row: "find_decision (wdb ?w) (dedup_key d demo_review_state) = Some ?row" "dec_status ?row = FAILED"
    "dec_id ?row = 1"
    by (simp_all add: demo_key [OF d(2)] find_decision_def select_one_def demo_row_def)
  show ?thesis
    using auto_retry_unguarded [OF wf d free row(1,2), of 5 fake_client 6] unfolding row(3) by (intro exI [of _ ?w]) simp
qed

end
