(* ===== verification/Security.thy ===== *)
theory Security
  imports Prelude "HOL-Library.Word"
begin

text \<open>
  Authentication, \<^verbatim>\<open>src/app/security.py\<close>: the webhook signature and the bearer token. The pieces of
  Python's \<open>hashlib\<close> and \<open>hmac\<close> the module uses are defined here on 32-bit words and byte strings:
  SHA-256, the HMAC construction over it, the hexadecimal digest, and \<open>compare_digest\<close>, which refuses
  texts that are not ASCII.
\<close>

unbundle bit_operations_syntax

type_synonym word32 = "32 word"


section \<open>SHA-256\<close>

definition round_constants :: "word32 list" where
  "round_constants =
    [1116352408, 1899447441, 3049323471, 3921009573, 961987163, 1508970993, 2453635748, 2870763221,
     3624381080, 310598401, 607225278, 1426881987, 1925078388, 2162078206, 2614888103, 3248222580,
     3835390401, 4022224774, 264347078, 604807628, 770255983, 1249150122, 1555081692, 1996064986,
     2554220882, 2821834349, 2952996808, 3210313671, 3336571891, 3584528711, 113926993, 338241895,
     666307205, 773529912, 1294757372, 1396182291, 1695183700, 1986661051, 2177026350, 2456956037,
     2730485921, 2820302411, 3259730800, 3345764771, 3516065817, 3600352804, 4094571909, 275423344,
     430227734, 506948616, 659060556, 883997877, 958139571, 1322822218, 1537002063, 1747873779,
     1955562222, 2024104815, 2227730452, 2361852424, 2428436474, 2756734187, 3204031479, 3329325298]"

definition initial_hash :: "word32 list" where
  "initial_hash =
    [1779033703, 3144134277, 1013904242, 2773480762, 1359893119, 2600822924, 528734635, 1541459225]"

definition small_sigma0 :: "word32 \<Rightarrow> word32" where
  "small_sigma0 x = word_rotr 7 x XOR word_rotr 18 x XOR drop_bit 3 x"

definition small_sigma1 :: "word32 \<Rightarrow> word32" where
  "small_sigma1 x = word_rotr 17 x XOR word_rotr 19 x XOR drop_bit 10 x"

definition big_sigma0 :: "word32 \<Rightarrow> word32" where
  "big_sigma0 x = word_rotr 2 x XOR word_rotr 13 x XOR word_rotr 22 x"

definition big_sigma1 :: "word32 \<Rightarrow> word32" where
  "big_sigma1 x = word_rotr 6 x XOR word_rotr 11 x XOR word_rotr 25 x"

definition select_bits :: "word32 \<Rightarrow> word32 \<Rightarrow> word32 \<Rightarrow> word32" where
  "select_bits x y z = (x AND y) XOR (NOT x AND z)"

definition majority :: "word32 \<Rightarrow> word32 \<Rightarrow> word32 \<Rightarrow> word32" where
  "majority x y z = (x AND y) XOR (x AND z) XOR (y AND z)"

text \<open>The message schedule, kept newest first while it grows.\<close>

fun extend_schedule :: "nat \<Rightarrow> word32 list \<Rightarrow> word32 list" where
  "extend_schedule 0 ws = ws"
| "extend_schedule (Suc n) ws = extend_schedule n
     ((small_sigma1 (ws ! 1) + ws ! 6 + small_sigma0 (ws ! 14) + ws ! 15) # ws)"

definition schedule :: "word32 list \<Rightarrow> word32 list" where
  "schedule block = rev (extend_schedule 48 (rev block))"

fun sha_round :: "word32 list \<Rightarrow> word32 \<times> word32 \<Rightarrow> word32 list" where
  "sha_round [a, b, c, d, e, f, g, h] (k, w) =
     (let t1 = h + big_sigma1 e + select_bits e f g + k + w;
          t2 = big_sigma0 a + majority a b c
      in [t1 + t2, a, b, c, d + t1, e, f, g])"
| "sha_round st _ = st"

definition compress :: "word32 list \<Rightarrow> word32 list \<Rightarrow> word32 list" where
  "compress hs block =
     map2 (+) hs (foldl sha_round hs (zip round_constants (schedule block)))"

definition byte_word :: "char \<Rightarrow> word32" where
  "byte_word c = word_of_nat (of_char c)"

fun to_words :: "string \<Rightarrow> word32 list" where
  "to_words (a # b # c # d # rest) =
     (push_bit 24 (byte_word a) OR push_bit 16 (byte_word b) OR push_bit 8 (byte_word c) OR byte_word d)
       # to_words rest"
| "to_words _ = []"

definition word_bytes :: "word32 \<Rightarrow> string" where
  "word_bytes w = map (\<lambda>s. char_of (unat (drop_bit s w AND 0xFF))) [24, 16, 8, 0]"

definition length_bytes :: "nat \<Rightarrow> string" where
  "length_bytes n = map (\<lambda>s. char_of (unat (drop_bit s (word_of_nat (8 * n) :: 64 word) AND 0xFF)))
     [56, 48, 40, 32, 24, 16, 8, 0]"

definition pad_message :: "string \<Rightarrow> string" where
  "pad_message m = m @ [CHR 0x80] @ replicate ((119 - length m mod 64) mod 64) (CHR 0x00) @
     length_bytes (length m)"

function sha_blocks :: "word32 list \<Rightarrow> string \<Rightarrow> word32 list" where
  "sha_blocks hs m = (if length m < 64 then hs
     else sha_blocks (compress hs (to_words (take 64 m))) (drop 64 m))"
  by pat_completeness auto
termination
  by (relation "measure (\<lambda>(hs, m). length m)") auto

declare sha_blocks.simps [simp del]

definition sha256 :: "string \<Rightarrow> string" where
  "sha256 m = concat (map word_bytes (sha_blocks initial_hash (pad_message m)))"

definition hex_byte :: "char \<Rightarrow> string" where
  "hex_byte c = [hex_digit (of_char c div 16), hex_digit (of_char c mod 16)]"

definition hexdigest :: "string \<Rightarrow> string" where
  "hexdigest b = concat (map hex_byte b)"


section \<open>HMAC and comparison\<close>

definition xor_byte :: "nat \<Rightarrow> char \<Rightarrow> char" where
  "xor_byte k c = char_of (k XOR of_char c)"

definition hmac_key :: "string \<Rightarrow> string" where
  "hmac_key key = (let k = (if length key > 64 then sha256 key else key)
     in k @ replicate (64 - length k) (CHR 0x00))"

definition hmac_sha256 :: "string \<Rightarrow> string \<Rightarrow> string" where
  "hmac_sha256 key m =
     sha256 (map (xor_byte 0x5C) (hmac_key key) @
       sha256 (map (xor_byte 0x36) (hmac_key key) @ m))"

definition compare_digest :: "string \<Rightarrow> string \<Rightarrow> bool res" where
  "compare_digest a b = (if is_ascii a \<and> is_ascii b then Ret (a = b)
     else Raise (Exc TypeError ''comparing strings with non-ASCII characters is not supported''))"


section \<open>The module\<close>

definition SIGNATURE_PREFIX :: string where "SIGNATURE_PREFIX = ''sha256=''"

definition compute_signature :: "string \<Rightarrow> string \<Rightarrow> string" where
  "compute_signature secret body = SIGNATURE_PREFIX @ hexdigest (hmac_sha256 (utf8 secret) body)"

definition verify_signature :: "string \<Rightarrow> string \<Rightarrow> string option \<Rightarrow> bool res" where
  "verify_signature secret body header = (case header of
       None \<Rightarrow> Ret False
     | Some h \<Rightarrow>
         if h = [] \<or> \<not> startswith h SIGNATURE_PREFIX then Ret False
         else compare_digest (compute_signature secret body) h)"

definition BEARER_PREFIX :: string where "BEARER_PREFIX = ''Bearer ''"

definition verify_bearer_token :: "string \<Rightarrow> string option \<Rightarrow> bool res" where
  "verify_bearer_token expected header =
     (if expected = [] then Ret False
      else (case header of
          None \<Rightarrow> Ret False
        | Some h \<Rightarrow>
            if h = [] \<or> \<not> startswith h BEARER_PREFIX then Ret False
            else
              (let provided = strip (drop (length BEARER_PREFIX) h) in
               if provided = [] then Ret False else compare_digest expected provided)))"


section \<open>Facts\<close>

lemma length_sha_round [simp]: "length (sha_round st kw) = length st"
  by (induction st kw rule: sha_round.induct) (simp_all add: Let_def)

lemma length_fold_round [simp]: "length (foldl sha_round st kws) = length st"
  by (induction kws arbitrary: st) simp_all

lemma length_sha_blocks: "length (sha_blocks hs m) = length hs"
proof (induction hs m rule: sha_blocks.induct)
  case (1 hs m)
  then show ?case by (subst sha_blocks.simps) (simp add: compress_def)
qed

lemma length_concat_const: "(\<And>x. length (f x) = n) \<Longrightarrow> length (concat (map f xs)) = n * length xs"
  by (induction xs) simp_all

lemma length_sha256 [simp]: "length (sha256 m) = 32"
proof -
  have "length (word_bytes w) = 4" for w by (simp add: word_bytes_def)
  then show ?thesis
    by (simp add: sha256_def length_concat_const [where n = 4] length_sha_blocks initial_hash_def)
qed

text \<open>The padded message is a whole number of blocks, so no byte of it is left out.\<close>

lemma pad_message_blocks: "64 dvd length (pad_message m)"
proof -
  have "length (pad_message m) = length m + 9 + (119 - length m mod 64) mod 64"
    by (simp add: pad_message_def length_bytes_def)
  moreover have "64 dvd n + 9 + (119 - n mod 64) mod 64" for n :: nat
  proof -
    have r: "n mod 64 < 64" by simp
    have "(119 - n mod 64) mod 64 = (if n mod 64 \<le> 55 then 55 - n mod 64 else 119 - n mod 64)"
      using r by (auto simp: le_mod_geq)
    moreover obtain q r where qr: "n div 64 = q" "n mod 64 = r" "n = 64 * q + r" "r < 64"
      using r mult_div_mod_eq [of 64 n] by metis
    ultimately have "n + 9 + (119 - n mod 64) mod 64 = 64 * q + (if r \<le> 55 then 64 else 128)"
      by (simp split: if_splits)
    then show ?thesis by (simp add: dvd_add)
  qed
  ultimately show ?thesis by simp
qed

lemma hex_digit_ascii: "n < 16 \<Longrightarrow> (of_char (hex_digit n) :: nat) < 128"
  by (simp add: hex_digit_def)

lemma hexdigest_ascii: "is_ascii (hexdigest b)"
proof -
  have "(of_char c :: nat) < 256" for c by simp
  then have "(of_char c :: nat) div 16 < 16" for c by (simp add: less_mult_imp_div_less)
  then show ?thesis
    by (auto simp: is_ascii_def hexdigest_def hex_byte_def list_all_iff hex_digit_ascii)
qed

lemma compute_signature_ascii [simp]: "is_ascii (compute_signature secret body)"
  using hexdigest_ascii [of "hmac_sha256 (utf8 secret) body"]
  by (simp add: compute_signature_def is_ascii_def SIGNATURE_PREFIX_def)

text \<open>
  C26. The webhook signature check is exact: on ASCII headers it never raises and accepts one header
  only, the prefix followed by the 64 hexadecimal digits of the HMAC-SHA256 of the raw body under the
  secret. A header that carries the prefix and a character outside ASCII makes it raise.
\<close>

theorem verify_signature_exact:
  "(case header of
      None \<Rightarrow> verify_signature secret body header = Ret False
    | Some h \<Rightarrow>
        if is_ascii h then verify_signature secret body header = Ret (h = compute_signature secret body)
        else if startswith h SIGNATURE_PREFIX
        then (\<exists>m. verify_signature secret body header = Raise (Exc TypeError m))
        else verify_signature secret body header = Ret False) \<and>
   compute_signature secret body = ''sha256='' @ hexdigest (hmac_sha256 (utf8 secret) body) \<and>
   length (compute_signature secret body) = 71"
proof -
  have pre: "startswith (compute_signature secret body) SIGNATURE_PREFIX"
    by (simp add: compute_signature_def)
  have "length (hexdigest b) = 2 * length b" for b
    by (simp add: hexdigest_def length_concat_const [where n = 2] hex_byte_def)
  then have "length (compute_signature secret body) = 71"
    by (simp add: compute_signature_def SIGNATURE_PREFIX_def hmac_sha256_def)
  moreover have "compute_signature secret body = ''sha256='' @ hexdigest (hmac_sha256 (utf8 secret) body)"
    by (simp add: compute_signature_def SIGNATURE_PREFIX_def)
  moreover have "verify_signature secret body None = Ret False" by (simp add: verify_signature_def)
  moreover have "verify_signature secret body (Some h) = (if startswith h SIGNATURE_PREFIX
      then compare_digest (compute_signature secret body) h else Ret False)" for h
    by (auto simp: verify_signature_def startswith_def SIGNATURE_PREFIX_def)
  ultimately show ?thesis
    using pre compute_signature_ascii [of secret body] by (cases header) (auto simp: compare_digest_def)
qed

text \<open>
  A bearer token is accepted only if one is configured and the header is \<open>Bearer\<close> followed by that
  token up to surrounding white space; an empty credential is never accepted.
\<close>

theorem bearer_token_exact:
  "verify_bearer_token expected header = Ret True \<longleftrightarrow>
     expected \<noteq> [] \<and> is_ascii expected \<and>
     (\<exists>rest. header = Some (''Bearer '' @ rest) \<and> strip rest = expected)"
  by (auto simp: verify_bearer_token_def compare_digest_def BEARER_PREFIX_def Let_def startswith_iff
      split: option.splits if_splits)

end
