(* ===== verification/Tenancy.thy ===== *)
theory Tenancy
  imports Models
begin

text \<open>
  Tenancy, \<^verbatim>\<open>src/app/tenancy.py\<close>: the rows of the \<open>installations\<close> table, written from GitHub's
  installation events. The current time is an argument; a function that commits returns the next
  database.
\<close>

section \<open>Reading payloads\<close>

definition as_int :: "json option \<Rightarrow> int option" where
  "as_int raw = (case raw of
       Some (JInt i) \<Rightarrow> Some i
     | Some (JStr s) \<Rightarrow> py_int s
     | _ \<Rightarrow> None)"

record installation_fields =
  f_installation_id :: "int option"
  f_account_login :: string
  f_account_type :: string
  f_account_id :: "int option"
  f_target_type :: string
  f_repository_selection :: string

text \<open>\<open>str(v.get(k, "") or "")\<close>.\<close>

definition text_field :: "json \<Rightarrow> string \<Rightarrow> string res" where
  "text_field v k = rbind (jget_or v k (JStr [])) (\<lambda>x. Ret (json_str x))"

definition installation_fields_of :: "json \<Rightarrow> installation_fields res" where
  "installation_fields_of inst =
     rbind (jget_dict inst ''account'') (\<lambda>acc. rbind (jget inst ''id'') (\<lambda>i.
     rbind (text_field acc ''login'') (\<lambda>login. rbind (text_field acc ''type'') (\<lambda>typ.
     rbind (jget acc ''id'') (\<lambda>aid. rbind (text_field inst ''target_type'') (\<lambda>tt.
     rbind (text_field inst ''repository_selection'') (\<lambda>rs.
       Ret \<lparr>f_installation_id = as_int i, f_account_login = login, f_account_type = typ,
            f_account_id = as_int aid, f_target_type = tt, f_repository_selection = rs\<rparr>)))))))"


section \<open>Rows\<close>

definition get_installation :: "database \<Rightarrow> int \<Rightarrow> installation option" where
  "get_installation db i = select_one (\<lambda>r. installation_id r = i) (installations db)"

definition get_active :: "database \<Rightarrow> int \<Rightarrow> installation option" where
  "get_active db i = (case get_installation db i of
       None \<Rightarrow> None | Some row \<Rightarrow> if \<not> is_active row then None else Some row)"

definition new_installation :: "int \<Rightarrow> installation_fields \<Rightarrow> int \<Rightarrow> installation" where
  "new_installation now f i = \<lparr>inst_pk = 0, installation_id = i, account_login = f_account_login f,
     account_type = f_account_type f, account_id = f_account_id f, target_type = f_target_type f,
     repository_selection = f_repository_selection f, suspended_at = None, deleted_at = None,
     inst_created_at = now, inst_updated_at = now\<rparr>"

definition same_metadata :: "installation_fields \<Rightarrow> installation \<Rightarrow> bool" where
  "same_metadata f r \<longleftrightarrow> account_login r = f_account_login f \<and> account_type r = f_account_type f \<and>
     account_id r = f_account_id f \<and> target_type r = f_target_type f \<and>
     repository_selection r = f_repository_selection f"

definition refresh_metadata :: "int \<Rightarrow> installation_fields \<Rightarrow> installation \<Rightarrow> installation" where
  "refresh_metadata now f r = r\<lparr>account_login := f_account_login f, account_type := f_account_type f,
     account_id := f_account_id f, target_type := f_target_type f,
     repository_selection := f_repository_selection f, inst_updated_at := now\<rparr>"

definition update_installation ::
    "int \<Rightarrow> (installation \<Rightarrow> installation) \<Rightarrow> database \<Rightarrow> database" where
  "update_installation i f db =
     db\<lparr>installations := update_where (\<lambda>r. installation_id r = i) f (installations db)\<rparr>"

text \<open>
  \<open>upsert\<close> reads in the database \<open>seen\<close> and inserts into \<open>db\<close>, where a concurrent delivery may have
  enrolled the installation in between.
\<close>

definition upsert_at :: "int \<Rightarrow> database \<Rightarrow> database \<Rightarrow> json \<Rightarrow> (database \<times> installation option) res" where
  "upsert_at now seen db inst = rbind (installation_fields_of inst) (\<lambda>f.
     case f_installation_id f of
       None \<Rightarrow> Ret (db, None)
     | Some i \<Rightarrow>
         (case get_installation seen i of
            None \<Rightarrow>
              (case get_installation db i of
                 None \<Rightarrow>
                   (let mk = with_inst_pk (new_installation now f i) in
                    Ret (db\<lparr>installations := insert_row mk (installations db)\<rparr>,
                         Some (mk (seq (installations db)))))
               | Some row \<Rightarrow> Ret (db, Some row))
          | Some row \<Rightarrow>
              if deleted_at row \<noteq> None then Ret (db, Some row)
              else if same_metadata f row then Ret (db, Some row)
              else Ret (update_installation i (refresh_metadata now f) db, Some (refresh_metadata now f row))))"

definition upsert :: "int \<Rightarrow> database \<Rightarrow> json \<Rightarrow> (database \<times> installation option) res" where
  "upsert now db inst = upsert_at now db db inst"


section \<open>Events\<close>

definition ACTIVE_ACTIONS :: "string list" where
  "ACTIVE_ACTIONS = [''created'', ''new_permissions_accepted'', ''unsuspend'']"

definition or_now :: "int \<Rightarrow> int option \<Rightarrow> int option" where
  "or_now now t = (case t of None \<Rightarrow> Some now | Some x \<Rightarrow> Some x)"

definition apply_action :: "int \<Rightarrow> string \<Rightarrow> installation \<Rightarrow> database \<Rightarrow> database \<times> string" where
  "apply_action now act row db =
     (let i = installation_id row in
      if act \<in> set ACTIVE_ACTIONS then
        (if deleted_at row \<noteq> None then (db, ''deleted_installation_ignored'')
         else if suspended_at row \<noteq> None
         then (update_installation i (\<lambda>r. r\<lparr>suspended_at := None, inst_updated_at := now\<rparr>) db, ''active'')
         else (db, ''active''))
      else if act = ''suspend'' then
        (update_installation i (\<lambda>r. r\<lparr>suspended_at := or_now now (suspended_at row), inst_updated_at := now\<rparr>) db,
         ''suspended'')
      else if act = ''deleted'' then
        (update_installation i (\<lambda>r. r\<lparr>deleted_at := or_now now (deleted_at row), inst_updated_at := now\<rparr>) db,
         ''deleted'')
      else (db, ''noop''))"

definition apply_event :: "int \<Rightarrow> database \<Rightarrow> string \<Rightarrow> json \<Rightarrow> (database \<times> string) res" where
  "apply_event now db act payload =
     rbind (jget_dict payload ''installation'') (\<lambda>inst. rbind (upsert now db inst) (\<lambda>(db, row).
       case row of
         None \<Rightarrow> Ret (db, ''ignored'')
       | Some r \<Rightarrow> Ret (apply_action now act r db)))"

definition count_names :: "json \<Rightarrow> string \<Rightarrow> nat res" where
  "count_names payload k = rbind (jget_or payload k (JList [])) (\<lambda>v. rbind (json_iter v) (\<lambda>rs.
     rbind (rmap (\<lambda>r. jget r ''full_name'') rs) (\<lambda>ns. Ret (length ns))))"

definition apply_repositories_event :: "int \<Rightarrow> database \<Rightarrow> json \<Rightarrow> database \<times> string res" where
  "apply_repositories_event now db payload =
     (case rbind (jget_dict payload ''installation'') (upsert now db) of
        Inl e \<Rightarrow> (db, Raise e)
      | Inr (db', None) \<Rightarrow> (db', Ret ''ignored'')
      | Inr (db', Some row) \<Rightarrow>
          (db', rbind (count_names payload ''repositories_added'') (\<lambda>_.
                rbind (count_names payload ''repositories_removed'') (\<lambda>_. Ret ''recorded''))))"


section \<open>Facts\<close>

lemma get_installation_iff:
  "wf_db db \<Longrightarrow> get_installation db i = Some r \<longleftrightarrow> r \<in> set (rows (installations db)) \<and> installation_id r = i"
  by (simp add: get_installation_def tenants.select_by_key wf_dbD)

lemma wf_update_installation [wf_intros]:
  "wf_db db \<Longrightarrow> (\<And>r. inst_pk (f r) = inst_pk r \<and> installation_id (f r) = installation_id r) \<Longrightarrow>
     wf_db (update_installation i f db)"
  unfolding update_installation_def by (intro wf_db_installations tenants.wf_update) (simp_all add: wf_dbD)

lemma get_update_installation:
  assumes "\<And>r. installation_id (f r) = installation_id r"
  shows "get_installation (update_installation i f db) k =
    map_option (\<lambda>r. if k = i then f r else r) (get_installation db k)"
proof -
  have "find (\<lambda>r. installation_id r = k) (map (\<lambda>r. if installation_id r = i then f r else r) rs) =
      map_option (\<lambda>r. if k = i then f r else r) (find (\<lambda>r. installation_id r = k) rs)" for rs
    by (induction rs) (auto simp: assms)
  then show ?thesis by (simp add: get_installation_def update_installation_def select_one_def)
qed

lemma refresh_keys [simp]:
  "inst_pk (refresh_metadata now f r) = inst_pk r" "installation_id (refresh_metadata now f r) = installation_id r"
  "deleted_at (refresh_metadata now f r) = deleted_at r" "suspended_at (refresh_metadata now f r) = suspended_at r"
  by (simp_all add: refresh_metadata_def)

lemma wf_upsert_at [wf_intros]:
  assumes "wf_db db" and "upsert_at now seen db inst = Ret (db', r)"
  shows "wf_db db'"
proof -
  obtain f where f: "installation_fields_of inst = Ret f" using assms(2) by (auto simp: upsert_at_def)
  note run = assms(2) [unfolded upsert_at_def, simplified f rbind_simps]
  have ins: "wf_db (db\<lparr>installations := insert_row (with_inst_pk (new_installation now f i)) (installations db)\<rparr>)"
    if "get_installation db i = None" for i
    using that assms(1) by (intro wf_db_installations tenants.wf_insert)
      (auto simp: get_installation_def new_installation_def wf_dbD)
  have upd: "wf_db (update_installation i (refresh_metadata now f) db)" for i
    using assms(1) by (intro wf_update_installation) simp_all
  show ?thesis
  proof (cases "f_installation_id f")
    case None
    with run assms(1) show ?thesis by simp
  next
    case (Some i)
    with run assms(1) ins upd show ?thesis by (auto simp: Let_def split: option.splits if_splits)
  qed
qed

lemma wf_apply_action [wf_intros]: "wf_db db \<Longrightarrow> wf_db (fst (apply_action now act row db))"
  by (auto simp: apply_action_def Let_def intro!: wf_update_installation)

text \<open>What an upsert does to the row of the installation it names, and to the others.\<close>

lemma upsert_get:
  assumes "wf_db db" and "upsert now db inst = Ret (db', row)"
  shows "get_installation db' k = (if row \<noteq> None \<and> k = installation_id (the row) then row
    else get_installation db k)" and
    "\<And>r. row = Some r \<Longrightarrow> (case get_installation db (installation_id r) of
        None \<Rightarrow> deleted_at r = None \<and> suspended_at r = None
      | Some old \<Rightarrow> deleted_at r = deleted_at old \<and> suspended_at r = suspended_at old)"
proof -
  obtain f where f: "installation_fields_of inst = Ret f" using assms(2) by (auto simp: upsert_def upsert_at_def)
  note run = assms(2) [unfolded upsert_def upsert_at_def, simplified f rbind_simps]
  have "get_installation db' k = (if row \<noteq> None \<and> k = installation_id (the row) then row
      else get_installation db k) \<and> (\<forall>r. row = Some r \<longrightarrow> (case get_installation db (installation_id r) of
        None \<Rightarrow> deleted_at r = None \<and> suspended_at r = None
      | Some old \<Rightarrow> deleted_at r = deleted_at old \<and> suspended_at r = suspended_at old))"
  proof (cases "f_installation_id f")
    case None
    with run show ?thesis by simp
  next
    case (Some i)
    show ?thesis
    proof (cases "get_installation db i")
      case None
      let ?mk = "with_inst_pk (new_installation now f i)"
      have db': "db' = db\<lparr>installations := insert_row ?mk (installations db)\<rparr>"
        and row: "row = Some (?mk (seq (installations db)))"
        using run Some None by (simp_all add: Let_def)
      have fa: "find P (xs @ [x]) = (case find P xs of None \<Rightarrow> if P x then Some x else None | r \<Rightarrow> r)"
        for P :: "installation \<Rightarrow> bool" and xs x by (induction xs) auto
      have "installation_id (?mk n) = i" "deleted_at (?mk n) = None" "suspended_at (?mk n) = None" for n
        by (simp_all add: with_inst_pk_def new_installation_def)
      then show ?thesis using None
        by (auto simp: db' row get_installation_def select_one_def fa split: option.splits)
    next
      case old: (Some old)
      then have "installation_id old = i" by (auto simp: get_installation_def dest: select_one_Some)
      then show ?thesis
        using run Some old by (auto simp: get_update_installation option.map_ident split: if_splits)
    qed
  qed
  then show "get_installation db' k = (if row \<noteq> None \<and> k = installation_id (the row) then row
    else get_installation db k)"
    "\<And>r. row = Some r \<Longrightarrow> (case get_installation db (installation_id r) of
        None \<Rightarrow> deleted_at r = None \<and> suspended_at r = None
      | Some old \<Rightarrow> deleted_at r = deleted_at old \<and> suspended_at r = suspended_at old)"
    by blast+
qed

lemma apply_action_get:
  "get_installation (fst (apply_action now act row db)) k = map_option (\<lambda>r.
     if k = installation_id row then
       (if act \<in> set ACTIVE_ACTIONS \<and> deleted_at row = None \<and> suspended_at row \<noteq> None
        then r\<lparr>suspended_at := None, inst_updated_at := now\<rparr>
        else if act = ''suspend'' then r\<lparr>suspended_at := or_now now (suspended_at row), inst_updated_at := now\<rparr>
        else if act = ''deleted'' then r\<lparr>deleted_at := or_now now (deleted_at row), inst_updated_at := now\<rparr>
        else r) else r) (get_installation db k)"
proof (cases "act \<in> set ACTIVE_ACTIONS")
  case True
  then have "act \<noteq> ''suspend''" "act \<noteq> ''deleted''" by (auto simp: ACTIVE_ACTIONS_def)
  with True show ?thesis
    by (cases "get_installation db k") (auto simp: apply_action_def Let_def get_update_installation)
next
  case False
  then show ?thesis
    by (cases "get_installation db k") (auto simp: apply_action_def Let_def get_update_installation)
qed

text \<open>
  C32. Uninstalling is final: once a tenant's row is marked deleted, no later event, of any kind and
  with any payload, makes the tenant active again or changes when it was deleted.
\<close>

theorem deleted_is_final:
  assumes "wf_db db" and "get_installation db k = Some row" and "deleted_at row = Some t"
    and "apply_event now db act payload = Ret (db', out)"
  shows "\<exists>row'. get_installation db' k = Some row' \<and> deleted_at row' = Some t \<and> get_active db' k = None"
proof -
  obtain inst db1 r1 where up: "upsert now db inst = Ret (db1, r1)"
    and run: "(case r1 of None \<Rightarrow> (db1, ''ignored'') | Some r \<Rightarrow> apply_action now act r db1) = (db', out)"
    using assms(4) by (auto simp: apply_event_def split: option.splits)
  note got = upsert_get [OF assms(1) up]
  obtain row1 where row1: "get_installation db1 k = Some row1" "deleted_at row1 = Some t"
  proof (cases "r1 \<noteq> None \<and> k = installation_id (the r1)")
    case True
    then obtain r where r: "r1 = Some r" "k = installation_id r" by auto
    with got(1) [of k] got(2) [OF r(1)] assms(2,3) that show ?thesis by auto
  next
    case False
    with got(1) [of k] assms(2,3) that show ?thesis by auto
  qed
  have "\<exists>row'. get_installation db' k = Some row' \<and> deleted_at row' = Some t"
  proof (cases r1)
    case None
    with run row1 show ?thesis by simp
  next
    case (Some r)
    then have db': "db' = fst (apply_action now act r db1)" using run by simp
    have "k = installation_id r \<Longrightarrow> deleted_at r = Some t"
      using got(1) [of k] row1 Some by simp
    then show ?thesis using row1 by (auto simp: db' apply_action_get or_now_def)
  qed
  then show ?thesis by (auto simp: get_active_def is_active_def)
qed

text \<open>
  A suspended tenant does no work until it is unsuspended: a suspend event makes it inactive and
  keeps the first time stamp; re-enrolment by another delivery does not reactivate it.
\<close>

theorem suspension_holds:
  assumes "wf_db db" and "upsert now db inst = Ret (db1, Some row)"
    and "get_installation db (installation_id row) = Some old" and "suspended_at old = Some t"
  shows "get_active db1 (installation_id row) = None \<and> suspended_at row = Some t \<and>
    suspended_at (the (get_installation (fst (apply_action now ''suspend'' row db1)) (installation_id row))) = Some t"
proof -
  have row: "get_installation db1 (installation_id row) = Some row" "suspended_at row = Some t"
    using upsert_get [OF assms(1,2)] assms(3,4) by auto
  then show ?thesis by (simp add: get_active_def is_active_def apply_action_get or_now_def ACTIVE_ACTIONS_def)
qed

definition demo_installation :: json where
  "demo_installation = JDict [(''id'', JInt 5), (''account'', JDict [(''login'', JStr ''octo'')])]"

definition demo_tenants :: "int option \<Rightarrow> int option \<Rightarrow> database" where
  "demo_tenants del susp = empty_db\<lparr>installations := \<lparr>rows = [\<lparr>inst_pk = 1, installation_id = 5,
     account_login = ''octo'', account_type = [], account_id = None, target_type = [],
     repository_selection = [], suspended_at = susp, deleted_at = del, inst_created_at = 0,
     inst_updated_at = 0\<rparr>], seq = 2\<rparr>\<rparr>"

lemma demo_tenants_facts: "wf_db (demo_tenants del susp)"
  "\<exists>row. get_installation (demo_tenants del susp) 5 = Some row \<and> deleted_at row = del \<and> suspended_at row = susp"
  by (simp_all add: demo_tenants_def wf_db_def wf_table_def empty_db_def empty_table_def
      get_installation_def select_one_def)

theorem deleted_is_final_witness:
  "\<exists>db' out. apply_event 9 (demo_tenants (Some 3) None) ''unsuspend''
     (JDict [(''installation'', demo_installation)]) = Ret (db', out) \<and> get_active db' 5 = None"
proof -
  obtain row where row: "get_installation (demo_tenants (Some 3) None) 5 = Some row" "deleted_at row = Some 3"
    using demo_tenants_facts(2) by blast
  have "case apply_event 9 (demo_tenants (Some 3) None) ''unsuspend'' (JDict [(''installation'', demo_installation)])
      of Inr x \<Rightarrow> True | Inl _ \<Rightarrow> False" by code_simp
  then obtain db' out where run: "apply_event 9 (demo_tenants (Some 3) None) ''unsuspend''
      (JDict [(''installation'', demo_installation)]) = Ret (db', out)"
    by (auto split: sum.splits)
  from deleted_is_final [OF demo_tenants_facts(1) row run] run show ?thesis by blast
qed

theorem suspension_holds_witness:
  "\<exists>db1 row. upsert 9 (demo_tenants None (Some 3)) demo_installation = Ret (db1, Some row) \<and>
     get_active db1 (installation_id row) = None"
proof -
  have "case upsert 9 (demo_tenants None (Some 3)) demo_installation of
      Inr (db1, Some row) \<Rightarrow> installation_id row = 5 | _ \<Rightarrow> False" by code_simp
  then obtain db1 row where up: "upsert 9 (demo_tenants None (Some 3)) demo_installation = Ret (db1, Some row)"
    "installation_id row = 5"
    by (auto split: sum.splits prod.splits option.splits)
  obtain old where "get_installation (demo_tenants None (Some 3)) (installation_id row) = Some old"
    "suspended_at old = Some 3" using demo_tenants_facts(2) up(2) by metis
  from suspension_holds [OF demo_tenants_facts(1) up(1) this] up(1) show ?thesis by blast
qed

end
