(* ===== verification/Commands.thy ===== *)
theory Commands
  imports Router Tenancy
begin

text \<open>
  Approval from a pull request thread, \<^verbatim>\<open>src/app/commands.py\<close>: the parser of \<open>/autopr\<close> comments and the
  handler of comment deliveries. The App's credentials are parameters: the permission GitHub reports
  for a collaborator, and the write client of an installation. The handler works on the world of the
  router: the committed database and the calls made to GitHub.
\<close>

section \<open>Parsing\<close>

record command =
  verb :: string
  cmd_id :: "int option"

text \<open>The word characters of \<open>\w\<close> in the modelled range.\<close>

definition is_word :: "char \<Rightarrow> bool" where
  "is_word c \<longleftrightarrow> (let n = (of_char c :: nat) in
     (48 \<le> n \<and> n \<le> 57) \<or> (65 \<le> n \<and> n \<le> 90) \<or> n = 95 \<or> (97 \<le> n \<and> n \<le> 122) \<or>
     n \<in> {170, 178, 179, 181, 185, 186, 188, 189, 190} \<or> (192 \<le> n \<and> n \<noteq> 215 \<and> n \<noteq> 247))"

text \<open>A match of a literal, ignoring case: what is left of the text after it.\<close>

definition match_ci :: "string \<Rightarrow> string \<Rightarrow> string option" where
  "match_ci pat s = (if lower (take (length pat) s) = pat \<and> length pat \<le> length s
     then Some (drop (length pat) s) else None)"

text \<open>\<open>\b\<close> after a word character: the text ends or goes on with another kind of character.\<close>

definition at_boundary :: "string \<Rightarrow> bool" where
  "at_boundary s \<longleftrightarrow> s = [] \<or> \<not> is_word (hd s)"

definition match_word :: "string \<Rightarrow> string \<Rightarrow> string option" where
  "match_word pat s = (case match_ci pat s of
       Some r \<Rightarrow> if at_boundary r then Some r else None | None \<Rightarrow> None)"

text \<open>
  The prefix \<open>/auto-?pr(-bot)?\b\<close>: the suffix is taken if a word boundary follows it, and is left to
  the rest of the line otherwise.
\<close>

definition match_prefix :: "string \<Rightarrow> string option" where
  "match_prefix line =
     (case (case match_ci ''/auto-pr'' line of Some r \<Rightarrow> Some r | None \<Rightarrow> match_ci ''/autopr'' line) of
        None \<Rightarrow> None
      | Some r \<Rightarrow> (case match_word ''-bot'' r of
          Some r' \<Rightarrow> Some r'
        | None \<Rightarrow> if at_boundary r then Some r else None))"

definition VERBS :: "string list" where
  "VERBS = [''approve'', ''reject'', ''status'', ''help'']"

fun match_verb :: "string list \<Rightarrow> string \<Rightarrow> (string \<times> string) option" where
  "match_verb [] s = None"
| "match_verb (v # vs) s = (case match_word v s of Some r \<Rightarrow> Some (v, r) | None \<Rightarrow> match_verb vs s)"

text \<open>\<open>#?(\d{1,12})\<close>, searched: up to twelve digits from the first one.\<close>

definition find_id :: "string \<Rightarrow> int option" where
  "find_id s = (case take 12 (takeWhile is_digit (dropWhile (\<lambda>c. \<not> is_digit c) s)) of
       [] \<Rightarrow> None | ds \<Rightarrow> map_option int (parse_nat ds))"

definition parse_line :: "string \<Rightarrow> command option" where
  "parse_line line = (case match_prefix line of
       None \<Rightarrow> None
     | Some after \<Rightarrow>
         (let rest = strip after in
          if rest = [] then Some \<lparr>verb = ''help'', cmd_id = None\<rparr>
          else (case match_verb VERBS rest of
              None \<Rightarrow> None
            | Some (v, r) \<Rightarrow>
                if v = ''status'' \<or> v = ''help'' then Some \<lparr>verb = v, cmd_id = None\<rparr>
                else Some \<lparr>verb = v, cmd_id = find_id r\<rparr>)))"

fun parse_lines :: "string list \<Rightarrow> command option" where
  "parse_lines [] = None"
| "parse_lines (raw # ls) = (if strip raw = [] then parse_lines ls else parse_line (strip raw))"

definition parse_command :: "string \<Rightarrow> command option" where
  "parse_command body = parse_lines (splitlines body)"


section \<open>Handling a delivery\<close>

definition APPROVER_PERMISSIONS :: "string list" where
  "APPROVER_PERMISSIONS = [''admin'', ''maintain'', ''write'', ''push'']"

record app_auth =
  collaborator_permission :: "int \<Rightarrow> string \<Rightarrow> string \<Rightarrow> string res"
  app_client :: "int \<Rightarrow> gh_client res"

datatype handled =
    Ignored string | Errored string | Replied string
  | ExecutedBy int string string | ActionFailed int string | RejectedBy int string

definition decision_for :: "database \<Rightarrow> int \<Rightarrow> string \<Rightarrow> int \<Rightarrow> review_decision option" where
  "decision_for db i rp inst = (case get_decision db i of
       None \<Rightarrow> None
     | Some row \<Rightarrow>
         if lower (dec_repo row) \<noteq> lower rp then None
         else if dec_installation_id row \<noteq> Some inst then None
         else Some row)"

definition pending_for_repo :: "database \<Rightarrow> string \<Rightarrow> int \<Rightarrow> review_decision list" where
  "pending_for_repo db rp inst = take 10 (sort_key dec_created_at (select_all (\<lambda>r.
     dec_status r = PENDING \<and> dec_installation_id r = Some inst \<and> dec_repo r = rp) (review_decisions db)))"

definition reply :: "gh_client \<Rightarrow> string \<Rightarrow> int \<Rightarrow> string \<Rightarrow> world \<Rightarrow> world \<times> handled res" where
  "reply client rp pr body w =
     (case post_issue_comment (Some client) w \<lparr>call_repo = rp, call_pr = pr, call_body = body\<rparr> of
        (w', Inl e) \<Rightarrow> (w', Raise e)
      | (w', Inr result) \<Rightarrow> (w', Ret (Replied (url result))))"

definition hash_id :: "int \<Rightarrow> string" where
  "hash_id i = quoted (''#'' @ int_str i)"

definition status_text :: "database \<Rightarrow> string \<Rightarrow> int \<Rightarrow> string" where
  "status_text db rp inst =
     (let pending = pending_for_repo db rp inst in
      if pending = [] then ''Nothing is waiting for review on this repository.''
      else join_lines ([''**'' @ nat_str (length pending) @ '' item(s) waiting for review**'', []] @
        map (\<lambda>row. ''- '' @ hash_id (dec_id row) @ '' **'' @ dec_action row @ ''** '' @ middle_dot @ '' risk '' @
               quoted (dec_risk row) @ '' '' @ middle_dot @ '' '' @
               (if dec_title row = [] then ''no title'' else dec_title row)) pending @
        [[], ''Approve with '' @ quoted ''/autopr approve <id>'' @ '', decline with '' @
             quoted ''/autopr reject <id>'' @ ''.'']))"

definition help_text :: string where
  "help_text = join_lines
     [''**AutoPR commands**'', [],
      ''- '' @ quoted ''/autopr status'' @ '' '' @ em_dash @ '' what is waiting for review on this repository'',
      ''- '' @ quoted ''/autopr approve <id>'' @ '' '' @ em_dash @ '' carry out a queued action'',
      ''- '' @ quoted ''/autopr reject <id>'' @ '' '' @ em_dash @ '' decline it (no GitHub action is taken)'', [],
      ''Only people with write access or above can approve. Code changes are never '' @
      ''applied automatically: they wait here for a human.'']"

definition usage_text :: "string \<Rightarrow> string" where
  "usage_text v = ''Usage: '' @ quoted (''/autopr '' @ v @ '' <id>'') @ '' '' @ em_dash @ '' see '' @
     quoted ''/autopr status'' @ '' for ids.''"

definition not_found_text :: "int \<Rightarrow> string" where
  "not_found_text i = ''No decision '' @ hash_id i @ '' is awaiting review on this repository.''"

definition approve_command ::
    "int \<Rightarrow> gh_client \<Rightarrow> review_decision \<Rightarrow> string \<Rightarrow> int \<Rightarrow> string \<Rightarrow> world \<Rightarrow> world \<times> handled res" where
  "approve_command now client row rp pr actor w =
     (case claim_approval now (wdb w) (dec_id row) of
        (db, None, _) \<Rightarrow> (w\<lparr>wdb := db\<rparr>, Ret (Ignored ''decision_missing''))
      | (db, Some claimed, oc) \<Rightarrow>
          (let w = w\<lparr>wdb := db\<rparr> in
           if oc = AlreadyExecuted then reply client rp pr (hash_id (dec_id row) @ '' was already executed.'') w
           else if oc = Rejected then reply client rp pr (hash_id (dec_id row) @ '' was rejected; nothing to do.'') w
           else if oc = InProgress then reply client rp pr (hash_id (dec_id row) @ '' is being executed right now.'') w
           else
             (case execute_decision (Some client) (FromRow (dec_action claimed) (dec_body claimed))
                     (Some (dec_repo claimed)) (Some (dec_pr_number claimed)) w of
                (w', Inl e) \<Rightarrow> (w', Raise e)
              | (w', Inr result) \<Rightarrow>
                  if ok result then
                    (w'\<lparr>wdb := mark_executed now (wdb w') (dec_id claimed) (url result)\<rparr>,
                     Ret (ExecutedBy (dec_id claimed) (url result) actor))
                  else
                    (case reply client rp pr (''Could not execute '' @ hash_id (dec_id claimed) @ '': '' @ detail result)
                            (w'\<lparr>wdb := mark_failed now (wdb w') (dec_id claimed) (detail result)\<rparr>) of
                       (w'', Inl e) \<Rightarrow> (w'', Raise e)
                     | (w'', Inr _) \<Rightarrow> (w'', Ret (ActionFailed (dec_id claimed) (detail result)))))))"

definition reject_command ::
    "int \<Rightarrow> gh_client \<Rightarrow> review_decision \<Rightarrow> string \<Rightarrow> int \<Rightarrow> string \<Rightarrow> world \<Rightarrow> world \<times> handled res" where
  "reject_command now client row rp pr actor w =
     (case reject_pending now (wdb w) (dec_id row) of
        (db, None, _) \<Rightarrow> (w\<lparr>wdb := db\<rparr>, Ret (Ignored ''decision_missing''))
      | (db, Some claimed, oc) \<Rightarrow>
          (let w = w\<lparr>wdb := db\<rparr> in
           if oc = AlreadyExecuted then reply client rp pr (hash_id (dec_id row) @ '' already executed; cannot reject.'') w
           else if oc = InProgress then reply client rp pr (hash_id (dec_id row) @ '' is executing; cannot reject.'') w
           else (w, Ret (RejectedBy (dec_id claimed) actor))))"

text \<open>The command of an authorised actor.\<close>

definition run_command ::
    "int \<Rightarrow> gh_client \<Rightarrow> command \<Rightarrow> string \<Rightarrow> int \<Rightarrow> int \<Rightarrow> string \<Rightarrow> world \<Rightarrow> world \<times> handled res" where
  "run_command now client cmd rp pr inst actor w =
     (if verb cmd = ''help'' then reply client rp pr help_text w
      else if verb cmd = ''status'' then reply client rp pr (status_text (wdb w) rp inst) w
      else (case cmd_id cmd of
          None \<Rightarrow> reply client rp pr (usage_text (verb cmd)) w
        | Some i \<Rightarrow> (case decision_for (wdb w) i rp inst of
              None \<Rightarrow> reply client rp pr (not_found_text i) w
            | Some row \<Rightarrow>
                if verb cmd = ''reject'' then reject_command now client row rp pr actor w
                else approve_command now client row rp pr actor w)))"

text \<open>
  The authority check: the tenant is active and GitHub reports an approving permission. Only then a
  client is made.
\<close>

definition authorised ::
    "int \<Rightarrow> app_auth \<Rightarrow> command \<Rightarrow> string \<Rightarrow> int res \<Rightarrow> int res \<Rightarrow> string \<Rightarrow> world \<Rightarrow> world \<times> handled res" where
  "authorised now auth cmd rp pr0 inst0 actor w =
     (case inst0 of
        Inl e \<Rightarrow> (w, Raise e)
      | Inr inst \<Rightarrow>
          if get_active (wdb w) inst = None then (w, Ret (Ignored ''installation_inactive''))
          else (case collaborator_permission auth inst rp actor of
              Inl e \<Rightarrow> if exc_class e = GitHubAppError then (w, Ret (Errored ''permission_check_failed''))
                       else (w, Raise e)
            | Inr perm \<Rightarrow>
                (case pr0 of
                   Inl e \<Rightarrow> if perm \<in> set APPROVER_PERMISSIONS
                            then (case app_client auth inst of Inl x \<Rightarrow> (w, Raise x) | Inr _ \<Rightarrow> (w, Raise e))
                            else (w, Raise e)
                 | Inr pr \<Rightarrow>
                     if perm \<notin> set APPROVER_PERMISSIONS then (w, Ret (Ignored ''insufficient_permission''))
                     else (case app_client auth inst of
                         Inl e \<Rightarrow> (w, Raise e)
                       | Inr client \<Rightarrow> run_command now client cmd rp pr inst actor w))))"

definition parsed_body :: "json \<Rightarrow> command option res" where
  "parsed_body body = (case body of JStr b \<Rightarrow> Ret (parse_command b) | _ \<Rightarrow> Raise (no_attr ''splitlines''))"

text \<open>
  What the handler reads from the delivery before it looks at the database: either the answer with
  which it stops, or the request.
\<close>

record request =
  req_command :: command
  req_actor :: string
  req_repo :: string
  req_pr :: json
  req_installation :: json

definition request_of :: "command \<Rightarrow> string \<Rightarrow> json \<Rightarrow> json \<Rightarrow> (handled + request) res" where
  "request_of cmd actor payload issue =
     rbind (jget_dict payload ''repository'') (\<lambda>r. rbind (jget_or r ''full_name'' (JStr [])) (\<lambda>n.
     rbind (jget issue ''number'') (\<lambda>pr. rbind (jget_dict payload ''installation'') (\<lambda>i.
     rbind (jget i ''id'') (\<lambda>iid.
       Ret (if json_str n = [] \<or> pr = None \<or> pr = Some JNull \<or> iid = None \<or> iid = Some JNull
            then Inl (Ignored ''incomplete_delivery'')
            else Inr \<lparr>req_command = cmd, req_actor = actor, req_repo = json_str n, req_pr = the pr,
                      req_installation = the iid\<rparr>))))))"

definition request_from :: "command \<Rightarrow> json \<Rightarrow> json \<Rightarrow> json \<Rightarrow> (handled + request) res" where
  "request_from cmd payload issue comment =
     rbind (jget_dict comment ''user'') (\<lambda>u. rbind (jget_or u ''login'' (JStr [])) (\<lambda>l.
     if json_str l = [] then Ret (Inl (Ignored ''anonymous''))
     else rbind (jget_or u ''type'' (JStr [])) (\<lambda>typ.
       if lower (json_str typ) = ''bot'' then Ret (Inl (Ignored ''bot_comment''))
       else request_of cmd (json_str l) payload issue)))"

definition comment_request :: "settings \<Rightarrow> json \<Rightarrow> (handled + request) res" where
  "comment_request s payload =
     (if \<not> github_comment_commands s then Ret (Inl (Ignored ''comment_commands_disabled''))
      else rbind (jget payload ''action'') (\<lambda>act.
        if act \<noteq> Some (JStr ''created'') then Ret (Inl (Ignored ''not_created''))
        else rbind (jget_dict payload ''issue'') (\<lambda>issue. rbind (jget issue ''pull_request'') (\<lambda>p.
          if \<not> truthy_json p then Ret (Inl (Ignored ''not_a_pull_request''))
          else rbind (jget_dict payload ''comment'') (\<lambda>c. rbind (jget_or c ''body'' (JStr [])) (\<lambda>b.
            rbind (parsed_body b) (\<lambda>cmd. case cmd of
                None \<Rightarrow> Ret (Inl (Ignored ''not_a_command''))
              | Some cmd \<Rightarrow> request_from cmd payload issue c)))))))"

definition handle_issue_comment ::
    "settings \<Rightarrow> int \<Rightarrow> app_auth option \<Rightarrow> json \<Rightarrow> world \<Rightarrow> world \<times> handled res" where
  "handle_issue_comment s now auth payload w =
     (case comment_request s payload of
        Inl e \<Rightarrow> (w, Raise e)
      | Inr (Inl h) \<Rightarrow> (w, Ret h)
      | Inr (Inr req) \<Rightarrow>
          (case auth of
             None \<Rightarrow> (w, Ret (Ignored ''no_app_credentials''))
           | Some au \<Rightarrow> authorised now au (req_command req) (req_repo req) (json_int (req_pr req))
               (json_int (req_installation req)) (req_actor req) w))"


section \<open>Facts\<close>

lemma parse_lines_skip:
  "(\<And>l. l \<in> set ls \<Longrightarrow> strip l = []) \<Longrightarrow> parse_lines (ls @ rest) = parse_lines rest"
  by (induction ls) auto

text \<open>
  Only the first line with content is read: blank lines before it are skipped, what follows it is
  ignored, and if it is not addressed to AutoPR nothing later in the comment is obeyed.
\<close>

theorem only_first_line_counts:
  assumes "list_all (\<lambda>l. strip l = []) blank" and "strip line \<noteq> []"
  shows "parse_lines (blank @ line # rest) = parse_line (strip line) \<and>
    (match_prefix (strip line) = None \<longrightarrow> parse_lines (blank @ line # rest) = None)"
  using assms parse_lines_skip [of blank "line # rest"]
  by (auto simp: list_all_iff parse_line_def)

theorem only_first_line_counts_witness:
  "parse_command (join_lines [[], ''is this right?'', ''/autopr approve 42'']) = None"
proof -
  have l: "splitlines (join_lines [[], ''is this right?'', ''/autopr approve 42'']) =
      [[]] @ ''is this right?'' # [''/autopr approve 42'']"
    "match_prefix (strip ''is this right?'') = None" "strip ''is this right?'' \<noteq> []" "strip [] = []"
    by code_simp+
  then show ?thesis
    using only_first_line_counts [of "[[]]" "''is this right?''" "[''/autopr approve 42'']"]
    by (simp add: parse_command_def)
qed

lemma digits_find:
  assumes "0 \<le> i" and "length (int_str i) \<le> 12"
  shows "find_id (CHR '' '' # int_str i) = Some i"
proof -
  have s: "int_str i = nat_str (nat i)" using assms(1) by (simp add: int_str_def)
  have dig: "\<forall>c\<in>set (nat_str n). is_digit c" for n using nat_str_digits by blast
  have sp: "\<not> is_digit (CHR '' '')" by code_simp
  have dw: "dropWhile (\<lambda>c. \<not> is_digit c) (nat_str (nat i)) = nat_str (nat i)"
    using nat_str_ends(1) [of "nat i"] by (cases "nat_str (nat i)") auto
  have tw: "takeWhile is_digit (nat_str (nat i)) = nat_str (nat i)"
    using dig by (simp add: takeWhile_eq_all_conv)
  have "take 12 (takeWhile is_digit (dropWhile (\<lambda>c. \<not> is_digit c) (CHR '' '' # int_str i))) = nat_str (nat i)"
    using assms(2) sp by (simp add: s dw tw)
  moreover obtain c cs where "nat_str (nat i) = c # cs" by (cases "nat_str (nat i)") auto
  moreover have "parse_nat (nat_str (nat i)) = Some (nat i)" by simp
  ultimately show ?thesis using assms(1) by (simp add: find_id_def del: parse_nat_str)
qed

text \<open>
  The command a queued notice tells the maintainer to run is understood: for ids of up to twelve
  digits, the line it shows parses to an approval, or a rejection, of exactly that decision.
\<close>

theorem notice_command_roundtrip:
  assumes "0 \<le> i" and "length (int_str i) \<le> 12"
  shows "parse_line (''/autopr approve '' @ int_str i) = Some \<lparr>verb = ''approve'', cmd_id = Some i\<rparr> \<and>
    parse_line (''/autopr reject '' @ int_str i) = Some \<lparr>verb = ''reject'', cmd_id = Some i\<rparr>"
proof -
  have sp: "\<not> is_word (CHR '' '')" "py_isspace (CHR '' '')" "\<not> py_isspace (CHR ''a'')" "\<not> py_isspace (CHR ''r'')"
    by code_simp+
  have lst: "is_digit (last (int_str i))" using nat_str_ends(2) [of "nat i"] assms(1) by (simp add: int_str_def)
  have ne: "int_str i \<noteq> []" using assms(1) by (simp add: int_str_def)
  have strip: "strip (CHR '' '' # v @ CHR '' '' # int_str i) = v @ CHR '' '' # int_str i"
    if "v \<noteq> []" "\<not> py_isspace (hd v)" for v
  proof -
    have "strip (CHR '' '' # v @ CHR '' '' # int_str i) = strip (v @ CHR '' '' # int_str i)"
      using sp(2) by (simp add: strip_def lstrip_def)
    also have "\<dots> = v @ CHR '' '' # int_str i"
      by (rule strip_id) (use that lst ne in \<open>auto\<close>)
    finally show ?thesis .
  qed
  have pre: "match_prefix (''/autopr'' @ CHR '' '' # r) = Some (CHR '' '' # r)" for r
    using sp(1) by (simp add: match_prefix_def match_ci_def match_word_def at_boundary_def lower_def lower_char_def)
  have "match_verb VERBS (''approve'' @ CHR '' '' # int_str i) = Some (''approve'', CHR '' '' # int_str i)"
    "match_verb VERBS (''reject'' @ CHR '' '' # int_str i) = Some (''reject'', CHR '' '' # int_str i)"
    using sp(1) by (simp_all add: VERBS_def match_word_def match_ci_def at_boundary_def lower_def lower_char_def)
  then show ?thesis
    using pre [of "''approve'' @ CHR '' '' # int_str i"] pre [of "''reject'' @ CHR '' '' # int_str i"]
      strip [of "''approve''"] strip [of "''reject''"] sp(3,4) digits_find [OF assms]
    by (simp add: parse_line_def)
qed

theorem notice_command_roundtrip_witness:
  "parse_command ''/autopr approve 42'' = Some \<lparr>verb = ''approve'', cmd_id = Some 42\<rparr>"
proof -
  have n: "int_str 42 = ''42''" "splitlines ''/autopr approve 42'' = [''/autopr approve 42'']"
    "strip ''/autopr approve 42'' = ''/autopr approve 42''" by code_simp+
  then show ?thesis using notice_command_roundtrip [of 42] by (simp add: parse_command_def)
qed


subsection \<open>Authority\<close>

lemma reply_db [simp]: "wdb (fst (reply client rp pr body w)) = wdb w"
  using post_db [of "Some client" w "\<lparr>call_repo = rp, call_pr = pr, call_body = body\<rparr>"]
  by (auto simp: reply_def split: prod.split sum.split simp del: post_db)

text \<open>
  What a command may do to the decisions: nothing, or something to the one row it addresses, which
  belongs to the tenant and the repository of the comment.
\<close>

definition only_row :: "int \<Rightarrow> database \<Rightarrow> database \<Rightarrow> bool" where
  "only_row i db db' \<longleftrightarrow> (\<forall>k. k \<noteq> i \<longrightarrow> get_decision db' k = get_decision db k)"

lemma only_row_refl [simp]: "only_row i db db"
  by (simp add: only_row_def)

lemma only_row_claim: "wf_db db \<Longrightarrow> only_row i db (fst (claim_approval now db i))"
  by (simp add: only_row_def claim_approval_get option.map_ident)

lemma only_row_mark:
  "only_row i db d \<Longrightarrow> only_row i db (mark_executed now d i u)"
  "only_row i db d \<Longrightarrow> only_row i db (mark_failed now d i det)"
  by (simp_all add: only_row_def mark_get option.map_ident)

lemma claimed_id:
  assumes "wf_db db" and "claim_approval now db i = (db', Some r, oc)" shows "dec_id r = i"
proof -
  have "get_decision db' i = Some r"
  proof (cases "get_decision db i")
    case None
    with assms show ?thesis by (simp add: claim_approval_cases)
  next
    case (Some x)
    then show ?thesis
      using assms claim_approval_get [OF assms(1), of now i i]
      by (cases "dec_status x") (auto simp: claim_approval_cases [OF assms(1)])
  qed
  then show ?thesis by (rule get_decision_id)
qed

lemma only_row_approve:
  assumes "wf_db (wdb w)"
  shows "only_row (dec_id row) (wdb w) (wdb (fst (approve_command now client row rp pr actor w)))"
proof -
  obtain db x oc where cl: "claim_approval now (wdb w) (dec_id row) = (db, x, oc)"
    by (cases "claim_approval now (wdb w) (dec_id row)") auto
  have o1: "only_row (dec_id row) (wdb w) db" using only_row_claim [OF assms, of "dec_id row" now] cl by simp
  show ?thesis
  proof (cases x)
    case None
    with cl o1 show ?thesis by (simp add: approve_command_def)
  next
    case (Some claimed)
    have id: "dec_id claimed = dec_id row" using claimed_id [OF assms cl [unfolded Some]] .
    let ?ex = "execute_decision (Some client) (FromRow (dec_action claimed) (dec_body claimed))
      (Some (dec_repo claimed)) (Some (dec_pr_number claimed)) (w\<lparr>wdb := db\<rparr>)"
    obtain w' r where ex: "?ex = (w', r)" by (cases ?ex)
    have "wdb w' = db" using execute_decision_db [of "Some client" "FromRow (dec_action claimed) (dec_body claimed)"
        "Some (dec_repo claimed)" "Some (dec_pr_number claimed)" "w\<lparr>wdb := db\<rparr>"] ex by simp
    moreover have "wdb (fst (case reply client rp pr b v of (w'', Inl e) \<Rightarrow> (w'', Raise e)
        | (w'', Inr _) \<Rightarrow> (w'', Ret y))) = wdb v" for b v and y :: handled
      using reply_db [of client rp pr b v] by (auto split: prod.splits sum.splits simp del: reply_db)
    ultimately show ?thesis
      using cl o1 ex Some id
      by (cases r) (simp_all add: approve_command_def Let_def only_row_mark)
  qed
qed

lemma only_row_reject:
  "only_row (dec_id row) (wdb w) (wdb (fst (reject_command now client row rp pr actor w)))"
proof -
  have "only_row (dec_id row) (wdb w) (fst (reject_pending now (wdb w) (dec_id row)))"
    by (simp add: only_row_def reject_pending_get option.map_ident)
  then show ?thesis
    by (cases "reject_pending now (wdb w) (dec_id row)")
      (auto simp: reject_command_def Let_def split: option.split)
qed

lemma run_command_authority:
  assumes "wf_db (wdb w)" and "wdb (fst (run_command now client cmd rp pr inst actor w)) \<noteq> wdb w"
  shows "\<exists>row. decision_for (wdb w) (dec_id row) rp inst = Some row \<and> cmd_id cmd = Some (dec_id row) \<and>
    only_row (dec_id row) (wdb w) (wdb (fst (run_command now client cmd rp pr inst actor w)))"
proof -
  obtain i row where c: "cmd_id cmd = Some i" "decision_for (wdb w) i rp inst = Some row"
    "verb cmd \<noteq> ''help''" "verb cmd \<noteq> ''status''"
    using assms(2) by (auto simp: run_command_def split: if_splits option.splits)
  have "dec_id row = i" using c(2) by (auto simp: decision_for_def dest: get_decision_id split: option.splits if_splits)
  then show ?thesis
    using c only_row_approve [OF assms(1)] only_row_reject
    by (intro exI [of _ row]) (auto simp: run_command_def)
qed

lemma request_actor: "comment_request s payload = Ret (Inr req) \<Longrightarrow> req_actor req \<noteq> []"
proof -
  have "request_of cmd actor payload issue = Ret (Inr req) \<Longrightarrow> req_actor req = actor" for cmd actor issue
    by (auto simp: request_of_def split: if_splits)
  then have "request_from cmd payload issue c = Ret (Inr req) \<Longrightarrow> req_actor req \<noteq> []" for cmd issue c
    by (fastforce simp: request_from_def split: if_splits)
  then show "comment_request s payload = Ret (Inr req) \<Longrightarrow> req_actor req \<noteq> []"
    by (auto simp: comment_request_def split: if_splits option.splits)
qed

lemma decision_forD:
  assumes "decision_for db i rp inst = Some row"
  shows "get_decision db i = Some row" "dec_id row = i" "dec_installation_id row = Some inst"
    "lower (dec_repo row) = lower rp"
proof -
  show got: "get_decision db i = Some row"
    using assms by (auto simp: decision_for_def split: option.splits if_splits)
  show "dec_id row = i" using got by (rule get_decision_id)
  show "dec_installation_id row = Some inst" "lower (dec_repo row) = lower rp"
    using assms got by (simp_all add: decision_for_def split: if_splits)
qed

lemma authorised_acts:
  assumes "authorised now auth cmd rp pr0 inst0 actor w = (w', r)" and "w' \<noteq> w"
  obtains inst perm pr client where "collaborator_permission auth inst rp actor = Ret perm"
    "perm \<in> set APPROVER_PERMISSIONS" "get_active (wdb w) inst \<noteq> None"
    "run_command now client cmd rp pr inst actor w = (w', r)"
proof -
  obtain inst where i: "inst0 = Inr inst" using assms by (cases inst0) (auto simp: authorised_def)
  have act: "get_active (wdb w) inst \<noteq> None"
  proof
    assume "get_active (wdb w) inst = None"
    with assms i show False by (simp add: authorised_def)
  qed
  obtain perm where p: "collaborator_permission auth inst rp actor = Inr perm"
    using assms i act by (cases "collaborator_permission auth inst rp actor") (auto simp: authorised_def split: if_splits)
  obtain pr where pr: "pr0 = Inr pr"
    using assms i act p by (cases pr0; cases "app_client auth inst") (auto simp: authorised_def split: if_splits)
  have ok: "perm \<in> set APPROVER_PERMISSIONS" using assms i act p pr by (auto simp: authorised_def split: if_splits)
  obtain client where "app_client auth inst = Inr client"
    using assms i act p pr ok by (cases "app_client auth inst") (auto simp: authorised_def)
  with assms i act p pr ok that show ?thesis by (auto simp: authorised_def)
qed


definition demo_auth :: "string \<Rightarrow> app_auth" where
  "demo_auth p = \<lparr>collaborator_permission = (\<lambda>_ _ _. Ret p), app_client = (\<lambda>_. Ret fake_client)\<rparr>"

definition demo_comment :: json where
  "demo_comment = JDict [(''action'', JStr ''created''),
     (''issue'', JDict [(''number'', JInt 7), (''pull_request'', JDict [(''url'', JStr ''u'')])]),
     (''comment'', JDict [(''body'', JStr ''/autopr reject 1''), (''user'', JDict [(''login'', JStr ''ann'')])]),
     (''repository'', JDict [(''full_name'', JStr ''o/r'')]),
     (''installation'', JDict [(''id'', JInt 5)])]"

definition comment_world :: world where
  "comment_world = \<lparr>wdb = (demo_tenants None None)\<lparr>review_decisions := review_decisions (demo_db PENDING)\<rparr>, calls = []\<rparr>"


end
