(* ===== verification/Queue.thy ===== *)
theory Queue
  imports Prelude
begin

text \<open>
  The client side of the job stream, \<^verbatim>\<open>src/app/queue.py\<close>. Redis itself is not modelled: a command is a
  parameter, given the arguments the code passes and returning the reply the code reads. What is
  modelled is what the module computes around them: the text form of the fields, the decoding of
  replies, and the recovery of the consumer group error.
\<close>

record stream_message =
  msg_id :: string
  msg_fields :: "(string \<times> string) list"

text \<open>A reply value is bytes, or a text when the client decodes replies itself.\<close>

datatype raw = RBytes string | RText string

definition unicode_error :: exc where
  "unicode_error = Exc ValueError ''UnicodeDecodeError''"

definition raw_text :: "raw \<Rightarrow> string res" where
  "raw_text v = (case v of
       RBytes b \<Rightarrow> (case utf8_decode b of Some s \<Rightarrow> Ret s | None \<Rightarrow> Raise unicode_error)
     | RText s \<Rightarrow> Ret s)"

definition as_str :: "raw \<Rightarrow> string res" where
  "as_str v = raw_text v"

definition stringify :: "(string \<times> json) list \<Rightarrow> (string \<times> string) list" where
  "stringify flds = map (\<lambda>(k, v). (k, if v = JNull then [] else json_str v)) flds"

definition decode_fields :: "(raw \<times> raw) list \<Rightarrow> (string \<times> string) list res" where
  "decode_fields flds = rmap (\<lambda>(k, v). rbind (raw_text k) (\<lambda>key.
     rbind (raw_text v) (\<lambda>val. Ret (key, val)))) flds"

type_synonym entry = "raw \<times> (raw \<times> raw) list"

fun parse_entries :: "entry option list \<Rightarrow> stream_message list res" where
  "parse_entries [] = Ret []"
| "parse_entries (None # es) = parse_entries es"
| "parse_entries (Some (i, flds) # es) =
     rbind (as_str i) (\<lambda>m. rbind (decode_fields flds) (\<lambda>fs.
     rbind (parse_entries es) (\<lambda>ms. Ret (\<lparr>msg_id = m, msg_fields = fs\<rparr> # ms))))"

definition parse_xread :: "(raw \<times> entry option list) list \<Rightarrow> stream_message list res" where
  "parse_xread resp = rbind (rmap (\<lambda>(_, es). parse_entries es) resp) (\<lambda>mss. Ret (concat mss))"

section \<open>Commands\<close>

definition ensure_group :: "unit res \<Rightarrow> unit res" where
  "ensure_group created = (case created of
       Inr u \<Rightarrow> Ret u
     | Inl e \<Rightarrow> if exc_class e = RedisError \<and> contains (exc_repr e) ''BUSYGROUP'' then Ret () else Raise e)"

text \<open>
  \<open>xadd\<close> says whether the entry was appended and what the call gave back: a call can raise although
  the server has appended the entry.
\<close>

type_synonym xadd = "(string \<times> string) list \<Rightarrow> bool \<times> raw res"

definition publish :: "xadd \<Rightarrow> (string \<times> json) list \<Rightarrow> bool \<times> string res" where
  "publish xadd flds = (case xadd (stringify flds) of (added, r) \<Rightarrow> (added, rbind r as_str))"

definition consume :: "(raw \<times> entry option list) list res \<Rightarrow> stream_message list res" where
  "consume resp = rbind resp parse_xread"

text \<open>The reply to XAUTOCLAIM has two or three parts; only the second is used.\<close>

definition reclaim :: "(raw \<times> entry option list option) res \<Rightarrow> stream_message list res" where
  "reclaim resp = rbind resp (\<lambda>(_, claimed). parse_entries (get_default [] claimed))"

datatype pending_summary = SummaryDict "(string \<times> int) list" | SummaryList "int list"

definition pending_count :: "pending_summary \<Rightarrow> int" where
  "pending_count s = (case s of
       SummaryDict d \<Rightarrow> get_default 0 (map_of d ''pending'')
     | SummaryList [] \<Rightarrow> 0
     | SummaryList (n # _) \<Rightarrow> n)"


section \<open>Facts\<close>

text \<open>What the stream gives back for an entry it was given: the same fields, as bytes.\<close>

definition delivered :: "string \<Rightarrow> (string \<times> string) list \<Rightarrow> entry option" where
  "delivered i flds = Some (RBytes (utf8 i), map (\<lambda>(k, v). (RBytes (utf8 k), RBytes (utf8 v))) flds)"

lemma decode_delivered [simp]:
  "decode_fields (map (\<lambda>(k, v). (RBytes (utf8 k), RBytes (utf8 v))) flds) = Ret flds"
  by (induction flds) (auto simp: decode_fields_def raw_text_def)

lemma parse_delivered:
  "parse_entries (map (\<lambda>(i, f). delivered i f) es) = Ret (map (\<lambda>(i, f). \<lparr>msg_id = i, msg_fields = f\<rparr>) es)"
  by (induction es) (auto simp: delivered_def as_str_def raw_text_def)

text \<open>
  Publishing and consuming is a round trip: entries delivered with the fields that were published
  are parsed into messages with exactly those fields, in order, and a message read by XREADGROUP is
  the same as one recovered by XAUTOCLAIM.
\<close>

theorem stream_roundtrip:
  "parse_xread [(s, map (\<lambda>(i, f). delivered i (stringify f)) es)] =
     Ret (map (\<lambda>(i, f). \<lparr>msg_id = i, msg_fields = stringify f\<rparr>) es) \<and>
   reclaim (Ret (c, Some (map (\<lambda>(i, f). delivered i (stringify f)) es))) =
     parse_xread [(s, map (\<lambda>(i, f). delivered i (stringify f)) es)]"
proof -
  have "map (\<lambda>(i, f). delivered i (stringify f)) es =
      map (\<lambda>(i, f). delivered i f) (map (\<lambda>(i, f). (i, stringify f)) es)"
    by (simp add: comp_def case_prod_beta)
  then have "parse_entries (map (\<lambda>(i, f). delivered i (stringify f)) es) =
      Ret (map (\<lambda>(i, f). \<lparr>msg_id = i, msg_fields = stringify f\<rparr>) es)"
    by (simp only: parse_delivered) (simp add: comp_def case_prod_beta)
  then show ?thesis by (simp add: parse_xread_def reclaim_def)
qed

end
