(* ===== verification/Ingest.thy ===== *)
theory Ingest
  imports Models Security Queue
begin

text \<open>
  Ingestion, \<^verbatim>\<open>src/app/ingest.py\<close>: from a verified webhook payload to a queued job. The parsers read
  untyped JSON, so each may raise where the code would; the repository name is kept as the JSON value
  it is, because the code never converts it.

  The state is the committed database and the job stream, to which XADD may append an entry. The
  current correlation id, time and the XADD command are arguments.
\<close>

record pr_payload =
  pl_repo :: json
  pl_pr_number :: int
  pl_commit_sha :: string
  pl_author :: string
  pl_event :: string
  pl_installation_id :: "int option"
  pl_ci_logs :: string

definition payload_dedup_key :: "pr_payload \<Rightarrow> string" where
  "payload_dedup_key p = hexdigest (sha256 (utf8
     (pl_event p @ ''|'' @ json_str (pl_repo p) @ ''|'' @ int_str (pl_pr_number p) @ ''|'' @ pl_commit_sha p)))"


section \<open>Parsers\<close>

text \<open>
  \<open>int(raw)\<close> with \<open>TypeError\<close> and \<open>ValueError\<close> caught; an infinite float raises \<open>OverflowError\<close>, which is not.
\<close>

definition installation_id_from :: "json \<Rightarrow> int option res" where
  "installation_id_from payload =
     rbind (jget_dict payload ''installation'') (\<lambda>inst. rbind (jget inst ''id'') (\<lambda>raw.
       (case raw of
          None \<Rightarrow> Ret None
        | Some JNull \<Rightarrow> Ret None
        | Some v \<Rightarrow> (case json_int v of
              Inr n \<Rightarrow> Ret (Some n)
            | Inl e \<Rightarrow> if exc_class e = TypeError \<or> exc_class e = ValueError then Ret None else Raise e))))"

definition absent :: "json option \<Rightarrow> bool" where
  "absent v \<longleftrightarrow> v = None \<or> v = Some JNull"

definition falsy :: "json option \<Rightarrow> bool" where
  "falsy v \<longleftrightarrow> (case v of None \<Rightarrow> True | Some x \<Rightarrow> \<not> truthy x)"

definition parse_pull_request_event :: "string \<Rightarrow> json \<Rightarrow> pr_payload option res" where
  "parse_pull_request_event event payload =
     (if event = ''ping'' then Ret None
      else rbind (jget payload ''pull_request'') (\<lambda>pr0.
        if falsy pr0 then Ret None
        else (let pr = the pr0 in
          rbind (jget_dict payload ''repository'') (\<lambda>rp. rbind (jget rp ''full_name'') (\<lambda>repo.
          rbind (jget_dict pr ''head'') (\<lambda>head.
          rbind (jget_dict pr ''user'') (\<lambda>user. rbind (jget user ''login'') (\<lambda>author.
          if falsy repo then Ret None
          else rbind (jget pr ''number'') (\<lambda>number.
            if absent number then Ret None
            else rbind (jget head ''sha'') (\<lambda>sha.
              if falsy sha then Ret None
              else rbind (json_int (the number)) (\<lambda>n.
                rbind (installation_id_from payload) (\<lambda>inst.
                  Ret (Some \<lparr>pl_repo = the repo, pl_pr_number = n, pl_commit_sha = json_str (the sha),
                    pl_author = json_str (get_default (JStr ''unknown'') author), pl_event = event,
                    pl_installation_id = inst, pl_ci_logs = []\<rparr>)))))))))))))"

definition FAILURE_CONCLUSIONS :: "string list" where
  "FAILURE_CONCLUSIONS = [''failure'', ''timed_out'', ''action_required'']"

text \<open>The first item that carries a number; \<open>objs or []\<close> is iterated.\<close>

fun first_number :: "json list \<Rightarrow> int option res" where
  "first_number [] = Ret None"
| "first_number (item # items) =
     rbind (jget (if truthy item then item else JDict []) ''number'') (\<lambda>n.
       if absent n then first_number items else rbind (json_int (the n)) (\<lambda>k. Ret (Some k)))"

definition first_pr_number :: "json option \<Rightarrow> int option res" where
  "first_pr_number objs = (if falsy objs then Ret None
     else rbind (json_iter (the objs)) first_number)"

definition CLIP_LIMIT :: nat where "CLIP_LIMIT = 12000"

definition clip_marker :: string where
  "clip_marker = newline @ ''... (truncated) ...''"

definition clip :: "nat \<Rightarrow> string \<Rightarrow> string" where
  "clip limit s = (if length s \<le> limit then s else take limit s @ clip_marker)"

text \<open>\<open>(v.get(k) or "").strip()\<close>, and \<open>f"{v.get(k, '?')}"\<close>.\<close>

definition stripped_part :: "json \<Rightarrow> string \<Rightarrow> string res" where
  "stripped_part v k = rbind (jget_or v k (JStr [])) json_strip"

definition shown_part :: "string \<Rightarrow> json \<Rightarrow> string \<Rightarrow> string res" where
  "shown_part label v k = rbind (jget v k) (\<lambda>x. Ret (label @ json_str (get_default (JStr ''?'') x)))"

definition join_parts :: "string list \<Rightarrow> string" where
  "join_parts parts = clip CLIP_LIMIT (join_lines (filter (\<lambda>p. p \<noteq> []) parts))"

definition check_run_logs :: "json \<Rightarrow> string res" where
  "check_run_logs cr =
     rbind (jget_dict cr ''output'') (\<lambda>out.
     rbind (shown_part ''check: '' cr ''name'') (\<lambda>a. rbind (shown_part ''conclusion: '' cr ''conclusion'') (\<lambda>b.
     rbind (stripped_part out ''title'') (\<lambda>c. rbind (stripped_part out ''summary'') (\<lambda>d.
     rbind (stripped_part out ''text'') (\<lambda>e. Ret (join_parts [a, b, c, d, e])))))))"

definition workflow_run_logs :: "json \<Rightarrow> string res" where
  "workflow_run_logs wr =
     rbind (jget_dict wr ''head_commit'') (\<lambda>hc.
     rbind (shown_part ''workflow: '' wr ''name'') (\<lambda>a. rbind (shown_part ''conclusion: '' wr ''conclusion'') (\<lambda>b.
     rbind (shown_part ''event: '' wr ''event'') (\<lambda>c. rbind (stripped_part wr ''display_title'') (\<lambda>d.
     rbind (stripped_part hc ''message'') (\<lambda>e. Ret (join_parts [a, b, c, d, e])))))))"

text \<open>
  The two CI events differ in the object that carries the run, in who is named as the author, and in
  how the log text is assembled.
\<close>

definition ci_run ::
    "string \<Rightarrow> json \<Rightarrow> json \<Rightarrow> json \<Rightarrow> string \<Rightarrow> string \<Rightarrow> (json \<Rightarrow> string res) \<Rightarrow> pr_payload option res" where
  "ci_run event payload repo run who login logs_of =
     rbind (jget run ''conclusion'') (\<lambda>concl. rbind (json_in concl FAILURE_CONCLUSIONS) (\<lambda>bad.
     if \<not> bad then Ret None
     else rbind (jget run ''head_sha'') (\<lambda>sha. rbind (jget run ''pull_requests'') (\<lambda>prs.
       rbind (first_pr_number prs) (\<lambda>n. rbind (jget_dict run who) (\<lambda>w.
       rbind (jget_or w login (JStr ''ci'')) (\<lambda>author. rbind (logs_of run) (\<lambda>logs.
       if falsy sha \<or> n = None then Ret None
       else rbind (installation_id_from payload) (\<lambda>inst.
         Ret (Some \<lparr>pl_repo = repo, pl_pr_number = the n, pl_commit_sha = json_str (the sha),
           pl_author = json_str author, pl_event = event, pl_installation_id = inst,
           pl_ci_logs = logs\<rparr>))))))))))"

definition parse_ci_event :: "string \<Rightarrow> json \<Rightarrow> pr_payload option res" where
  "parse_ci_event event payload =
     rbind (jget payload ''action'') (\<lambda>act.
     if act \<noteq> Some (JStr ''completed'') then Ret None
     else rbind (jget_dict payload ''repository'') (\<lambda>rp. rbind (jget rp ''full_name'') (\<lambda>repo.
       if falsy repo then Ret None
       else if event = ''check_run'' then
         rbind (jget_dict payload ''check_run'') (\<lambda>run.
           ci_run event payload (the repo) run ''app'' ''slug'' check_run_logs)
       else if event = ''workflow_run'' then
         rbind (jget_dict payload ''workflow_run'') (\<lambda>run.
           ci_run event payload (the repo) run ''actor'' ''login'' workflow_run_logs)
       else Ret None)))"

definition parse_event :: "string \<Rightarrow> json \<Rightarrow> pr_payload option res" where
  "parse_event event payload =
     (if event = ''check_run'' \<or> event = ''workflow_run'' then parse_ci_event event payload
      else parse_pull_request_event event payload)"

definition repo_is_allowed :: "settings \<Rightarrow> json \<Rightarrow> bool res" where
  "repo_is_allowed s repo =
     (if allowed_repo_set s = {} then Ret True
      else rbind (json_strip repo) (\<lambda>r. Ret (lower r \<in> allowed_repo_set s)))"


section \<open>Persist and enqueue\<close>

record ingest_world =
  idb :: database
  stream :: "(string \<times> string) list list"

definition job_fields :: "string \<Rightarrow> pr_job \<Rightarrow> (string \<times> json) list" where
  "job_fields cid job = [(''job_id'', JInt (job_id job)), (''repo'', JStr (job_repo job)),
     (''pr_number'', JInt (job_pr_number job)), (''commit_sha'', JStr (job_commit_sha job)),
     (''correlation_id'', JStr cid)]"

definition publish_failed :: "exc \<Rightarrow> string" where
  "publish_failed e = ''publish failed: '' @ exc_repr e"

definition record_published :: "int \<Rightarrow> string \<Rightarrow> pr_job \<Rightarrow> pr_job" where
  "record_published now m j = j\<lparr>stream_msg_id := Some m, job_last_error := None, job_updated_at := now\<rparr>"

definition release_claim :: "int \<Rightarrow> exc \<Rightarrow> pr_job \<Rightarrow> pr_job" where
  "release_claim now e j = j\<lparr>job_status := JOB_PENDING, job_last_error := Some (publish_failed e),
     job_updated_at := now\<rparr>"

definition append_if :: "bool \<Rightarrow> (string \<times> string) list \<Rightarrow> ingest_world \<Rightarrow> ingest_world" where
  "append_if added fs w = (if added then w\<lparr>stream := stream w @ [fs]\<rparr> else w)"

definition claim_and_publish ::
    "int \<Rightarrow> xadd \<Rightarrow> string \<Rightarrow> int \<Rightarrow> ingest_world \<Rightarrow> ingest_world \<times> bool res" where
  "claim_and_publish now xadd cid i w =
     (case exec_job i (\<lambda>j. job_status j = JOB_PENDING)
             (\<lambda>j. j\<lparr>job_status := QUEUED, job_updated_at := now\<rparr>) (idb w) of
        (db, claimed) \<Rightarrow>
          if claimed = 0 then (w\<lparr>idb := db\<rparr>, Ret False)
          else (case get_job db i of
              None \<Rightarrow> (w\<lparr>idb := db\<rparr>, Raise (Exc OtherException ''row is gone''))
            | Some job \<Rightarrow>
                (let fs = job_fields cid job; (added, r) = publish xadd fs;
                     w = append_if added (stringify fs) (w\<lparr>idb := db\<rparr>) in
                 case r of
                   Inr m \<Rightarrow> (w\<lparr>idb := update_job i (\<lambda>_. True) (record_published now m) (idb w)\<rparr>, Ret True)
                 | Inl e \<Rightarrow>
                     if exc_class e = RedisError
                     then (w\<lparr>idb := update_job i (\<lambda>_. True) (release_claim now e) (idb w)\<rparr>, Raise e)
                     else (w, Raise e))))"

definition new_job :: "int \<Rightarrow> pr_payload \<Rightarrow> pr_job" where
  "new_job now p = \<lparr>job_id = 0, job_dedup_key = payload_dedup_key p, job_repo = json_str (pl_repo p),
     job_pr_number = pl_pr_number p, job_commit_sha = pl_commit_sha p, job_author = pl_author p,
     job_event = pl_event p, job_installation_id = pl_installation_id p, job_status = JOB_PENDING,
     attempts = 0, stream_msg_id = None, job_last_error = None,
     event_context = (if pl_ci_logs p = [] then None else Some (pl_ci_logs p)),
     job_created_at = now, job_updated_at = now\<rparr>"

record ingest_result =
  ing_job_id :: int
  ing_created :: bool

definition find_job :: "database \<Rightarrow> string \<Rightarrow> pr_job option" where
  "find_job db key = select_one (\<lambda>j. job_dedup_key j = key) (pr_jobs db)"

definition ingest ::
    "int \<Rightarrow> xadd \<Rightarrow> string \<Rightarrow> pr_payload \<Rightarrow> ingest_world \<Rightarrow> ingest_world \<times> ingest_result res" where
  "ingest now xadd cid p w =
     (case insert_ignore_duplicates job_dedup_key (with_job_id (new_job now p)) (pr_jobs (idb w)) of
        (jobs', won) \<Rightarrow>
          (let w = w\<lparr>idb := (idb w)\<lparr>pr_jobs := jobs'\<rparr>\<rparr>; created = (won \<noteq> None) in
           case find_job (idb w) (payload_dedup_key p) of
             None \<Rightarrow> (w, Raise (Exc OtherException ''no row was found''))
           | Some job \<Rightarrow>
               if \<not> created \<and> job_status job \<noteq> JOB_PENDING
               then (w, Ret \<lparr>ing_job_id = job_id job, ing_created = False\<rparr>)
               else (case claim_and_publish now xadd cid (job_id job) w of
                   (w', Inl e) \<Rightarrow> (w', Raise e)
                 | (w', Inr _) \<Rightarrow> (w', Ret \<lparr>ing_job_id = job_id job, ing_created = created\<rparr>))))"


section \<open>Facts\<close>

lemma keeps_job_keys_ingest [simp]:
  "keeps_job_keys (record_published now m)" "keeps_job_keys (release_claim now e)"
  "keeps_job_keys (\<lambda>j. j\<lparr>job_status := s, job_updated_at := now\<rparr>)"
  by (simp_all add: keeps_job_keys_def record_published_def release_claim_def)

lemma append_if_simps [simp]:
  "idb (append_if b fs w) = idb w" "stream (append_if b fs w) = stream w @ (if b then [fs] else [])"
  by (simp_all add: append_if_def)

lemma job_fields_status [simp]: "job_fields cid (j\<lparr>job_status := s, job_updated_at := t\<rparr>) = job_fields cid j"
  by (simp add: job_fields_def)

lemma update_job_none:
  assumes "wf_db db" and "get_job db i = Some j" and "\<not> P j"
  shows "update_job i P f db = db"
proof -
  have "update_where (\<lambda>j. job_id j = i \<and> P j) f (pr_jobs db) = pr_jobs db"
    using assms get_job_iff [OF assms(1)] by (intro update_where_none) (metis option.inject)
  then show ?thesis by (simp add: update_job_def)
qed

text \<open>The run of \<open>claim_and_publish\<close> on a row that is not pending, and on one that is.\<close>

lemma claim_refused:
  assumes "wf_db (idb w)" and "get_job (idb w) i = Some job" and "job_status job \<noteq> JOB_PENDING"
  shows "claim_and_publish now x cid i w = (w, Ret False)"
proof -
  have "rowcount (\<lambda>j. job_id j = i \<and> job_status j = JOB_PENDING) (pr_jobs (idb w)) = 0"
    using assms rowcount_job [OF assms(1), of i "\<lambda>j. job_status j = JOB_PENDING"] by auto
  then show ?thesis
    using update_job_none [OF assms(1,2), of "\<lambda>j. job_status j = JOB_PENDING"] assms(3)
    by (simp add: claim_and_publish_def del: rowcount_zero)
qed

lemma claim_granted:
  assumes "wf_db (idb w)" and "get_job (idb w) i = Some job" and "job_status job = JOB_PENDING"
  shows "claim_and_publish now x cid i w =
    (let db = update_job i (\<lambda>j. job_status j = JOB_PENDING)
           (\<lambda>j. j\<lparr>job_status := QUEUED, job_updated_at := now\<rparr>) (idb w);
         (added, r) = publish x (job_fields cid job);
         w2 = append_if added (stringify (job_fields cid job)) (w\<lparr>idb := db\<rparr>) in
     case r of
       Inr m \<Rightarrow> (w2\<lparr>idb := update_job i (\<lambda>_. True) (record_published now m) db\<rparr>, Ret True)
     | Inl e \<Rightarrow> if exc_class e = RedisError
                then (w2\<lparr>idb := update_job i (\<lambda>_. True) (release_claim now e) db\<rparr>, Raise e)
                else (w2, Raise e))"
proof -
  have "0 < rowcount (\<lambda>j. job_id j = i \<and> job_status j = JOB_PENDING) (pr_jobs (idb w))"
    using assms rowcount_job [OF assms(1), of i "\<lambda>j. job_status j = JOB_PENDING"] by auto
  then show ?thesis
    using assms by (simp add: claim_and_publish_def Let_def split: prod.split sum.split
      del: rowcount_pos rowcount_zero)
qed

lemma find_job_get:
  "wf_db db \<Longrightarrow> find_job db k = Some j \<longleftrightarrow> get_job db (job_id j) = Some j \<and> job_dedup_key j = k"
  by (simp add: find_job_def jobs.select_by_key wf_dbD get_job_iff)

lemma new_job_columns [simp]:
  "job_dedup_key (with_job_id (new_job now p) i) = payload_dedup_key p"
  "job_id (with_job_id (new_job now p) i) = i"
  "job_status (with_job_id (new_job now p) i) = JOB_PENDING"
  by (simp_all add: with_job_id_def new_job_def)

text \<open>The database after the INSERT that the unique key may suppress.\<close>

definition admitted :: "int \<Rightarrow> pr_payload \<Rightarrow> database \<Rightarrow> database" where
  "admitted now p db = (if find_job db (payload_dedup_key p) = None
     then db\<lparr>pr_jobs := insert_row (with_job_id (new_job now p)) (pr_jobs db)\<rparr> else db)"

lemma insert_admitted:
  "insert_ignore_duplicates job_dedup_key (with_job_id (new_job now p)) (pr_jobs db) =
     (pr_jobs (admitted now p db), if find_job db (payload_dedup_key p) = None then Some (seq (pr_jobs db)) else None)"
  by (auto simp: insert_ignore_duplicates_def admitted_def find_job_def)

lemma admitted_db: "db\<lparr>pr_jobs := pr_jobs (admitted now p db)\<rparr> = admitted now p db"
  by (simp add: admitted_def)

lemma wf_admitted [wf_intros]: "wf_db db \<Longrightarrow> wf_db (admitted now p db)"
  by (auto simp: admitted_def find_job_def intro!: wf_db_jobs jobs.wf_insert dest: wf_dbD simp: new_job_def)

lemma find_admitted:
  assumes "wf_db db"
  shows "find_job (admitted now p db) (payload_dedup_key p) =
    Some (case find_job db (payload_dedup_key p) of
      None \<Rightarrow> with_job_id (new_job now p) (seq (pr_jobs db)) | Some j \<Rightarrow> j)"
proof (cases "find_job db (payload_dedup_key p)")
  case None
  let ?j = "with_job_id (new_job now p) (seq (pr_jobs db))"
  have "?j \<in> set (rows (pr_jobs (admitted now p db)))" using None by (simp add: admitted_def)
  then have "find_job (admitted now p db) (payload_dedup_key p) = Some ?j"
    by (simp add: find_job_def jobs.select_by_key wf_dbD [OF wf_admitted [OF assms]])
  with None show ?thesis by simp
qed (simp add: admitted_def)

lemma ingest_unfold:
  assumes "wf_db (idb w)"
  shows "ingest now x cid p w =
    (let db = admitted now p (idb w); created = (find_job (idb w) (payload_dedup_key p) = None);
         job = the (find_job db (payload_dedup_key p)); w = w\<lparr>idb := db\<rparr> in
     if \<not> created \<and> job_status job \<noteq> JOB_PENDING
     then (w, Ret \<lparr>ing_job_id = job_id job, ing_created = False\<rparr>)
     else case claim_and_publish now x cid (job_id job) w of
         (w', Inl e) \<Rightarrow> (w', Raise e)
       | (w', Inr _) \<Rightarrow> (w', Ret \<lparr>ing_job_id = job_id job, ing_created = created\<rparr>))"
  by (cases "find_job (idb w) (payload_dedup_key p)")
    (simp_all add: ingest_def insert_admitted admitted_db find_admitted [OF assms] Let_def)

lemma wf_publish [wf_intros]: "wf_db (idb w) \<Longrightarrow> wf_db (idb (fst (claim_and_publish now x cid i w)))"
  by (auto simp: claim_and_publish_def Let_def wf_update_job split: prod.split sum.split option.split)

lemma wf_ingest [wf_intros]:
  assumes "wf_db (idb w)" shows "wf_db (idb (fst (ingest now x cid p w)))"
proof -
  have "wf_db (idb (w\<lparr>idb := admitted now p (idb w)\<rparr>))" using assms by (simp add: wf_admitted)
  from wf_publish [OF this, of now x cid] show ?thesis
    using assms by (auto simp: ingest_unfold [OF assms] Let_def wf_admitted split: prod.split sum.split)
      (metis fst_conv)+
qed

lemma claim_result:
  assumes "wf_db (idb w)" and "get_job (idb w) i = Some job" and "job_status job = JOB_PENDING"
    and "claim_and_publish now x cid i w = (w', r)"
  shows "stream w' = stream w @ (if fst (publish x (job_fields cid job))
      then [stringify (job_fields cid job)] else []) \<and>
    (case snd (publish x (job_fields cid job)) of
       Inr m \<Rightarrow> r = Ret True \<and> get_job (idb w') i = Some (job\<lparr>job_status := QUEUED,
         stream_msg_id := Some m, job_last_error := None, job_updated_at := now\<rparr>)
     | Inl e \<Rightarrow> r = Raise e \<and> get_job (idb w') i = Some (if exc_class e = RedisError
         then job\<lparr>job_last_error := Some (publish_failed e), job_updated_at := now\<rparr>
         else job\<lparr>job_status := QUEUED, job_updated_at := now\<rparr>))"
proof -
  obtain added pub where p: "publish x (job_fields cid job) = (added, pub)"
    by (cases "publish x (job_fields cid job)")
  show ?thesis
  proof (cases pub)
    case (Inl e)
    then show ?thesis using assms(4) unfolding claim_granted [OF assms(1-3)]
      by (auto simp: p Let_def assms(2,3) release_claim_def)
  next
    case (Inr m)
    then show ?thesis using assms(4) unfolding claim_granted [OF assms(1-3)]
      by (auto simp: p Let_def assms(2,3) record_published_def)
  qed
qed

lemma ingest_ok_state:
  assumes "wf_db (idb w)" and "ingest now x cid p w = (w1, Ret r)"
  shows "\<exists>job. find_job (idb w1) (payload_dedup_key p) = Some job \<and> job_id job = ing_job_id r \<and>
    job_status job \<noteq> JOB_PENDING"
proof -
  let ?db = "admitted now p (idb w)" and ?k = "payload_dedup_key p"
  let ?w = "w\<lparr>idb := ?db\<rparr>"
  have wf: "wf_db ?db" and wf1: "wf_db (idb w1)"
    using wf_admitted [OF assms(1)] wf_ingest [OF assms(1), of now x cid p] assms(2) by simp_all
  obtain job where job: "find_job ?db ?k = Some job" using find_admitted [OF assms(1)] by simp
  then have got: "get_job ?db (job_id job) = Some job" "job_dedup_key job = ?k"
    using wf by (simp_all add: find_job_get)
  have new: "find_job (idb w) ?k = None \<Longrightarrow> job_status job = JOB_PENDING"
    using find_admitted [OF assms(1), of now p] job by simp
  show ?thesis
  proof (cases "job_status job = JOB_PENDING")
    case False
    then have "find_job (idb w) ?k \<noteq> None" using new by blast
    with False show ?thesis using assms(2) job by (auto simp: ingest_unfold [OF assms(1)] Let_def)
  next
    case True
    obtain w' b where run: "claim_and_publish now x cid (job_id job) ?w = (w', Ret b)"
      and w': "w1 = w'" "ing_job_id r = job_id job"
      using assms(2) True job by (auto simp: ingest_unfold [OF assms(1)] Let_def split: prod.splits sum.splits)
    have "wf_db (idb ?w)" "get_job (idb ?w) (job_id job) = Some job" using wf got by simp_all
    from claim_result [OF this True run] obtain j where
      "get_job (idb w1) (job_id job) = Some j" "job_status j = QUEUED" "job_dedup_key j = ?k"
      using got(2) by (auto simp: w' split: sum.splits)
    then show ?thesis using get_job_id [of "idb w1" "job_id job" j] w'(2)
      by (intro exI [of _ j]) (simp add: find_job_get [OF wf1])
  qed
qed

lemma ingest_existing:
  assumes "wf_db (idb w)" and "find_job (idb w) (payload_dedup_key p) = Some job"
    and "job_status job \<noteq> JOB_PENDING"
  shows "ingest now x cid p w = (w, Ret \<lparr>ing_job_id = job_id job, ing_created = False\<rparr>)"
  using assms(2,3) by (simp add: ingest_unfold [OF assms(1)] admitted_def Let_def)

text \<open>
  C20. Publishing is a compare-and-set: \<open>claim_and_publish\<close> reaches the stream only for a row that is
  pending in the database at that moment. If Redis accepts, the row is queued with the entry's id; if
  Redis raises, the row is pending again, with the error recorded, and the exception goes to the
  caller; any other row is left alone and the call reports \<open>False\<close>.
\<close>

theorem claim_and_publish_contract:
  assumes "wf_db (idb w)" and "get_job (idb w) i = Some job"
    and "claim_and_publish now x cid i w = (w', r)"
  shows "if job_status job \<noteq> JOB_PENDING then w' = w \<and> r = Ret False
    else stream w' = stream w @ (if fst (publish x (job_fields cid job))
           then [stringify (job_fields cid job)] else []) \<and>
      (case snd (publish x (job_fields cid job)) of
         Inr m \<Rightarrow> r = Ret True \<and> get_job (idb w') i = Some (job\<lparr>job_status := QUEUED,
           stream_msg_id := Some m, job_last_error := None, job_updated_at := now\<rparr>)
       | Inl e \<Rightarrow> r = Raise e \<and> get_job (idb w') i = Some (if exc_class e = RedisError
           then job\<lparr>job_last_error := Some (publish_failed e), job_updated_at := now\<rparr>
           else job\<lparr>job_status := QUEUED, job_updated_at := now\<rparr>))"
  using claim_refused [OF assms(1,2)] claim_result [OF assms(1,2) _ assms(3)] assms(3)
  by (cases "job_status job = JOB_PENDING") simp_all


lemma ingest_error_state:
  assumes "wf_db (idb w)" and "ingest now x cid p w = (w1, Raise e)" and "exc_class e = RedisError"
  shows "\<exists>job. find_job (idb w1) (payload_dedup_key p) = Some job \<and> job_status job = JOB_PENDING"
proof -
  let ?db = "admitted now p (idb w)" and ?k = "payload_dedup_key p"
  let ?w = "w\<lparr>idb := ?db\<rparr>"
  have wf: "wf_db ?db" and wf1: "wf_db (idb w1)"
    using wf_admitted [OF assms(1)] wf_ingest [OF assms(1), of now x cid p] assms(2) by simp_all
  obtain job where job: "find_job ?db ?k = Some job" using find_admitted [OF assms(1)] by simp
  then have got: "get_job (idb ?w) (job_id job) = Some job" "job_dedup_key job = ?k" "wf_db (idb ?w)"
    using wf by (simp_all add: find_job_get)
  have run: "claim_and_publish now x cid (job_id job) ?w = (w1, Raise e)"
    using assms(2) job by (auto simp: ingest_unfold [OF assms(1)] Let_def split: prod.splits sum.splits if_splits)
  then have pend: "job_status job = JOB_PENDING" using claim_refused [OF got(3,1)] by force
  obtain j where j: "get_job (idb w1) (job_id job) = Some j" "job_status j = JOB_PENDING" "job_dedup_key j = ?k"
    using claim_result [OF got(3,1) pend run] got(2) pend assms(3) by (auto split: sum.splits)
  then have "job_id j = job_id job" by (simp add: get_job_id)
  with j show ?thesis by (intro exI [of _ j]) (simp add: find_job_get [OF wf1])
qed

text \<open>
  C28. No event is lost to a Redis failure: if a delivery was refused because XADD raised, the job's
  row exists and is pending, and the next delivery that Redis accepts publishes that same job.
\<close>

theorem ingest_repairs:
  assumes "wf_db (idb w)" and "ingest now x cid p w = (w1, Raise e)" and "exc_class e = RedisError"
    and "payload_dedup_key p' = payload_dedup_key p" and "\<And>fs. x' fs = (True, Ret (RText m))"
  shows "\<exists>job w2. find_job (idb w1) (payload_dedup_key p) = Some job \<and> job_status job = JOB_PENDING \<and>
    ingest later x' cid' p' w1 = (w2, Ret \<lparr>ing_job_id = job_id job, ing_created = False\<rparr>) \<and>
    stream w2 = stream w1 @ [stringify (job_fields cid' job)]"
proof -
  have wf1: "wf_db (idb w1)" using wf_ingest [OF assms(1), of now x cid p] assms(2) by simp
  obtain j where f: "find_job (idb w1) (payload_dedup_key p) = Some j" and j: "job_status j = JOB_PENDING"
    using ingest_error_state [OF assms(1,2,3)] by blast
  then have got: "get_job (idb w1) (job_id j) = Some j" by (simp add: find_job_get [OF wf1])
  have pub: "publish x' fs = (True, Ret m)" for fs
    using assms(5) by (simp add: publish_def as_str_def raw_text_def)
  obtain w2 r2 where run2: "claim_and_publish later x' cid' (job_id j) w1 = (w2, r2)"
    by (cases "claim_and_publish later x' cid' (job_id j) w1")
  have "stream w2 = stream w1 @ [stringify (job_fields cid' j)]" "r2 = Ret True"
    using claim_result [OF wf1 got j run2] by (simp_all add: pub)
  with run2 f j show ?thesis
    using assms(4) by (intro exI [of _ j] exI [of _ w2]) (simp add: ingest_unfold [OF wf1] admitted_def Let_def)
qed

text \<open>
  A CI event becomes a job only when the run has completed, its conclusion is one of the failures
  AutoPR acts on, and it names a head commit and a pull request; the log text kept with the job is
  bounded.
\<close>

theorem parse_ci_event_sound:
  assumes "parse_ci_event event payload = Ret (Some p)"
  shows "event \<in> {''check_run'', ''workflow_run''} \<and> jget payload ''action'' = Ret (Some (JStr ''completed'')) \<and>
    truthy (pl_repo p) \<and> pl_event p = event \<and> length (pl_ci_logs p) \<le> CLIP_LIMIT + length clip_marker \<and>
    (\<exists>run c sha prs. jget_dict payload event = Ret run \<and>
       jget run ''conclusion'' = Ret (Some (JStr c)) \<and> c \<in> set FAILURE_CONCLUSIONS \<and>
       jget run ''head_sha'' = Ret (Some sha) \<and> truthy sha \<and> pl_commit_sha p = json_str sha \<and>
       jget run ''pull_requests'' = Ret prs \<and> first_pr_number prs = Ret (Some (pl_pr_number p)))"
proof -
  have clip: "length (join_parts xs) \<le> CLIP_LIMIT + length clip_marker" for xs
    by (simp add: join_parts_def clip_def)
  then have logs: "check_run_logs run = Ret l \<or> workflow_run_logs run = Ret l \<Longrightarrow>
      length l \<le> CLIP_LIMIT + length clip_marker" for run l
    by (auto simp: check_run_logs_def workflow_run_logs_def)
  have inn: "json_in v ks = Ret True \<Longrightarrow> \<exists>c. v = Some (JStr c) \<and> c \<in> set ks" for v ks
    by (auto simp: json_in_def split: option.splits json.splits)
  have body: "\<exists>c sha prs. jget run ''conclusion'' = Ret (Some (JStr c)) \<and> c \<in> set FAILURE_CONCLUSIONS \<and>
      jget run ''head_sha'' = Ret (Some sha) \<and> truthy sha \<and> pl_commit_sha p = json_str sha \<and>
      jget run ''pull_requests'' = Ret prs \<and> first_pr_number prs = Ret (Some (pl_pr_number p)) \<and>
      pl_repo p = repo \<and> pl_event p = event \<and> lf run = Ret (pl_ci_logs p)"
    if "ci_run event payload repo run who login lf = Ret (Some p)" for repo run who login lf
    using that by (auto simp: ci_run_def falsy_def split: if_splits option.splits dest!: inn)
  have "jget payload ''action'' = Ret (Some (JStr ''completed'')) \<and> event \<in> {''check_run'', ''workflow_run''} \<and>
      (\<exists>repo run who login lf. truthy repo \<and> jget_dict payload event = Ret run \<and>
        (lf = check_run_logs \<or> lf = workflow_run_logs) \<and>
        ci_run event payload repo run who login lf = Ret (Some p))"
    using assms by (auto simp: parse_ci_event_def falsy_def split: if_splits option.splits) blast+
  then obtain repo run who login lf where run: "truthy repo" "jget_dict payload event = Ret run"
      "lf = check_run_logs \<or> lf = workflow_run_logs" "ci_run event payload repo run who login lf = Ret (Some p)"
    and top: "jget payload ''action'' = Ret (Some (JStr ''completed''))" "event \<in> {''check_run'', ''workflow_run''}"
    by blast
  from body [OF run(4)] run(1,2,3) top logs [of run "pl_ci_logs p"] show ?thesis by auto
qed

text \<open>Inputs for the witnesses.\<close>

definition demo_payload :: pr_payload where
  "demo_payload = \<lparr>pl_repo = JStr ''octo/demo'', pl_pr_number = 7, pl_commit_sha = ''abc'', pl_author = ''me'',
     pl_event = ''pull_request'', pl_installation_id = None, pl_ci_logs = []\<rparr>"

definition demo_ingest_world :: ingest_world where
  "demo_ingest_world = \<lparr>idb = empty_db, stream = []\<rparr>"

definition redis_up :: xadd where "redis_up fs = (True, Ret (RText ''1-0''))"

definition redis_down :: xadd where "redis_down fs = (False, Raise (Exc RedisError ''ConnectionError()''))"

definition demo_job :: pr_job where
  "demo_job = with_job_id (new_job 1 demo_payload) 1"

definition demo_job_world :: ingest_world where
  "demo_job_world = demo_ingest_world\<lparr>idb := admitted 1 demo_payload empty_db\<rparr>"

lemma demo_admitted: "find_job empty_db k = None" "wf_db (idb demo_job_world)" "wf_db (idb demo_ingest_world)"
  "get_job (idb demo_job_world) 1 = Some demo_job" "job_status demo_job = JOB_PENDING"
proof -
  show none: "find_job empty_db k = None" for k by (simp add: find_job_def empty_db_def empty_table_def)
  show "wf_db (idb demo_job_world)" "wf_db (idb demo_ingest_world)"
    by (simp_all add: demo_job_world_def demo_ingest_world_def wf_admitted)
  show "get_job (idb demo_job_world) 1 = Some demo_job" "job_status demo_job = JOB_PENDING"
    by (simp_all add: demo_job_world_def admitted_def none demo_job_def get_job_def select_one_def)
      (simp add: empty_db_def empty_table_def)
qed

theorem claim_and_publish_contract_witness:
  "\<exists>w' r. claim_and_publish 2 redis_down [] 1 demo_job_world = (w', r) \<and> (\<exists>e. r = Raise e) \<and>
     stream w' = [] \<and> (\<exists>j. get_job (idb w') 1 = Some j \<and> job_status j = JOB_PENDING)"
proof -
  obtain w' r where run: "claim_and_publish 2 redis_down [] 1 demo_job_world = (w', r)"
    by (cases "claim_and_publish 2 redis_down [] 1 demo_job_world")
  from claim_and_publish_contract [OF demo_admitted(2,4) this] show ?thesis
    using run by (auto simp: demo_admitted publish_def redis_down_def demo_job_world_def demo_ingest_world_def)
qed

lemma demo_ingest_runs:
  "\<exists>w r. ingest 1 redis_up [] demo_payload demo_ingest_world = (w, Ret r)"
  "\<exists>w e. ingest 1 redis_down [] demo_payload demo_ingest_world = (w, Raise e) \<and> exc_class e = RedisError"
proof -
  have run: "ingest 1 x [] demo_payload demo_ingest_world =
      (case claim_and_publish 1 x [] 1 demo_job_world of (w', Inl e) \<Rightarrow> (w', Raise e)
       | (w', Inr _) \<Rightarrow> (w', Ret \<lparr>ing_job_id = 1, ing_created = True\<rparr>))" for x
  proof -
    have "find_job (admitted 1 demo_payload empty_db) (payload_dedup_key demo_payload) = Some demo_job"
    proof -
      have "seq (pr_jobs empty_db) = 1" by (simp add: empty_db_def empty_table_def)
      then show ?thesis using find_admitted [OF wf_empty_db, of 1 demo_payload]
        by (simp add: demo_admitted(1) demo_job_def)
    qed
    moreover have "job_id demo_job = 1" by (simp add: demo_job_def)
    moreover have "demo_ingest_world\<lparr>idb := admitted 1 demo_payload empty_db\<rparr> = demo_job_world"
      "idb demo_ingest_world = empty_db"
      by (simp_all add: demo_job_world_def demo_ingest_world_def)
    ultimately show ?thesis
      by (simp add: ingest_unfold [OF demo_admitted(3)] demo_admitted(1) Let_def)
  qed
  show "\<exists>w r. ingest 1 redis_up [] demo_payload demo_ingest_world = (w, Ret r)"
    by (simp add: run claim_granted [OF demo_admitted(2,4,5)] publish_def redis_up_def as_str_def raw_text_def Let_def)
  show "\<exists>w e. ingest 1 redis_down [] demo_payload demo_ingest_world = (w, Raise e) \<and> exc_class e = RedisError"
    by (simp add: run claim_granted [OF demo_admitted(2,4,5)] publish_def redis_down_def Let_def)
qed


theorem ingest_repairs_witness:
  "\<exists>w w2 r. ingest 2 redis_up [] demo_payload w = (w2, Ret r) \<and> length (stream w2) = length (stream w) + 1"
proof -
  obtain w e where run: "ingest 1 redis_down [] demo_payload demo_ingest_world = (w, Raise e)"
    "exc_class e = RedisError" using demo_ingest_runs by blast
  have "redis_up fs = (True, Ret (RText ''1-0''))" for fs by (simp add: redis_up_def)
  from ingest_repairs [OF demo_admitted(3) run refl this, where later = 2 and cid' = "[]"] show ?thesis by force
qed

definition demo_check_run :: json where
  "demo_check_run = JDict [(''action'', JStr ''completed''),
     (''repository'', JDict [(''full_name'', JStr ''octo/demo'')]),
     (''check_run'', JDict [(''name'', JStr ''tests''), (''conclusion'', JStr ''failure''), (''head_sha'', JStr ''abc''),
       (''pull_requests'', JList [JDict [(''number'', JInt 7)]]),
       (''output'', JDict [(''text'', JStr ''1 failed'')])])]"

theorem parse_ci_event_sound_witness:
  "\<exists>p. parse_ci_event ''check_run'' demo_check_run = Ret (Some p) \<and> pl_event p = ''check_run'' \<and>
     length (pl_ci_logs p) \<le> 12021"
proof -
  have "case parse_ci_event ''check_run'' demo_check_run of Inr (Some p) \<Rightarrow> True | _ \<Rightarrow> False" by code_simp
  then obtain p where p: "parse_ci_event ''check_run'' demo_check_run = Ret (Some p)"
    by (auto split: sum.splits option.splits)
  from parse_ci_event_sound [OF this] p show ?thesis
    by (auto simp: CLIP_LIMIT_def clip_marker_def newline_def)
qed

end
