(* ===== verification/Throttling.thy ===== *)
theory Throttling
  imports Ingest Complex_Main
begin

text \<open>
  The two ways an instance bounds its load: cost quotas on jobs, \<^verbatim>\<open>src/app/quota.py\<close>, and the rate
  limiter with its client address, \<^verbatim>\<open>src/app/ratelimit.py\<close>.

  Time stamps of rows are microseconds, as elsewhere. The limiter's monotonic clock is a rational
  number of seconds; rounding of floats is not modelled. The parts of Python's \<open>ipaddress\<close> that the
  resolver uses, the reading of IPv4 and IPv6 addresses and networks, are defined here.
\<close>

section \<open>Quotas\<close>

definition count_since :: "database \<Rightarrow> int \<Rightarrow> string option \<Rightarrow> int option \<Rightarrow> nat" where
  "count_since db cutoff rp inst = rowcount (\<lambda>j. job_created_at j \<ge> cutoff \<and>
     (case rp of None \<Rightarrow> True | Some r \<Rightarrow> job_repo j = r) \<and>
     (case inst of None \<Rightarrow> True | Some i \<Rightarrow> job_installation_id j = Some i)) (pr_jobs db)"

definition one_hour :: int where "one_hour = 3600 * 1000000"
definition one_day :: int where "one_day = 24 * one_hour"

definition quota_reason :: "settings \<Rightarrow> int \<Rightarrow> database \<Rightarrow> string \<Rightarrow> int option \<Rightarrow> string option" where
  "quota_reason s now db rp inst =
     (let per_repo = quota_jobs_per_repo_per_hour s in
      if per_repo > 0 \<and> int (count_since db (now - one_hour) (Some rp) None) \<ge> per_repo
      then Some ''quota_repo_hourly''
      else if (case inst of None \<Rightarrow> False | Some i \<Rightarrow>
          (let per_tenant = quota_jobs_per_installation_per_day s in
           per_tenant > 0 \<and> int (count_since db (now - one_day) None (Some i)) \<ge> per_tenant))
      then Some ''quota_installation_daily''
      else
        (let per_day = quota_jobs_total_per_day s in
         if per_day > 0 \<and> int (count_since db (now - one_day) None None) \<ge> per_day
         then Some ''quota_instance_daily'' else None))"

definition dedup_exists :: "database \<Rightarrow> string \<Rightarrow> bool" where
  "dedup_exists db key \<longleftrightarrow> find_job db key \<noteq> None"


section \<open>The rate limiter\<close>

record win =
  win_start :: rat
  win_count :: int

record limiter =
  lim_limit :: int
  window_s :: rat
  buckets :: "string \<rightharpoonup> win"

definition new_limiter :: "int \<Rightarrow> rat \<Rightarrow> limiter" where
  "new_limiter n w = \<lparr>lim_limit = n, window_s = w, buckets = Map.empty\<rparr>"

definition reset_limiter :: "limiter \<Rightarrow> limiter" where
  "reset_limiter l = l\<lparr>buckets := Map.empty\<rparr>"

definition allow :: "limiter \<Rightarrow> string \<Rightarrow> rat \<Rightarrow> limiter \<times> bool \<times> int" where
  "allow l key t =
     (let fresh = (l\<lparr>buckets := (buckets l)(key \<mapsto> \<lparr>win_start = t, win_count = 1\<rparr>)\<rparr>, True, 0) in
      case buckets l key of
        None \<Rightarrow> fresh
      | Some w \<Rightarrow>
          if t - win_start w \<ge> window_s l then fresh
          else if win_count w < lim_limit l
          then (l\<lparr>buckets := (buckets l)(key \<mapsto> w\<lparr>win_count := win_count w + 1\<rparr>)\<rparr>, True, 0)
          else (l, False, \<lfloor>window_s l - (t - win_start w)\<rfloor> + 1))"


section \<open>Addresses\<close>

datatype ip = V4 nat | V6 nat "string option"

definition parse_octet :: "string \<Rightarrow> nat option" where
  "parse_octet s =
     (if s = [] \<or> \<not> list_all is_digit s \<or> length s > 3 \<or> (hd s = CHR ''0'' \<and> length s > 1) then None
      else (case parse_nat s of None \<Rightarrow> None | Some n \<Rightarrow> if n > 255 then None else Some n))"

definition parse_v4 :: "string \<Rightarrow> nat option" where
  "parse_v4 s = (case map parse_octet (split_on CHR ''.'' s) of
       [Some a, Some b, Some c, Some d] \<Rightarrow> Some (((a * 256 + b) * 256 + c) * 256 + d)
     | _ \<Rightarrow> None)"

definition hex_value :: "char \<Rightarrow> nat option" where
  "hex_value c = (let n = (of_char c :: nat) in
     if 48 \<le> n \<and> n \<le> 57 then Some (n - 48)
     else if 65 \<le> n \<and> n \<le> 70 then Some (n - 55)
     else if 97 \<le> n \<and> n \<le> 102 then Some (n - 87) else None)"

fun hex_number :: "nat \<Rightarrow> string \<Rightarrow> nat option" where
  "hex_number acc [] = Some acc"
| "hex_number acc (c # cs) = (case hex_value c of None \<Rightarrow> None | Some d \<Rightarrow> hex_number (16 * acc + d) cs)"

definition parse_hextet :: "string \<Rightarrow> nat option" where
  "parse_hextet s = (if s = [] \<or> length s > 4 then None else hex_number 0 s)"

fun hextets :: "nat \<Rightarrow> string list \<Rightarrow> nat option" where
  "hextets acc [] = Some acc"
| "hextets acc (p # ps) = (case parse_hextet p of None \<Rightarrow> None | Some n \<Rightarrow> hextets (acc * 65536 + n) ps)"

fun hex_text :: "nat \<Rightarrow> string" where
  "hex_text n = (if n < 16 then [hex_digit n] else hex_text (n div 16) @ [hex_digit (n mod 16)])"

declare hex_text.simps [simp del]

text \<open>The parts between colons, with a dotted tail rewritten as two groups.\<close>

definition v6_parts :: "string \<Rightarrow> string list option" where
  "v6_parts s = (let parts = split_on CHR '':'' s in
     if length parts < 3 then None
     else if CHR ''.'' \<in> set (last parts) then
       (case parse_v4 (last parts) of None \<Rightarrow> None
        | Some n \<Rightarrow> Some (butlast parts @ [hex_text (n div 65536 mod 65536), hex_text (n mod 65536)]))
     else Some parts)"

text \<open>The positions of empty parts strictly inside the list: where a double colon may stand.\<close>

definition inner_gaps :: "string list \<Rightarrow> nat list" where
  "inner_gaps parts = filter (\<lambda>i. parts ! i = []) [1..<length parts - 1]"

definition v6_compressed :: "string list \<Rightarrow> nat \<Rightarrow> nat option" where
  "v6_compressed parts k =
     (let hi = (if hd parts = [] then k - 1 else k);
          lo = (if last parts = [] then length parts - k - 2 else length parts - k - 1) in
      if (hd parts = [] \<and> hi \<noteq> 0) \<or> (last parts = [] \<and> lo \<noteq> 0) \<or> hi + lo > 7 then None
      else (case hextets 0 (take hi parts) of None \<Rightarrow> None
        | Some a \<Rightarrow> hextets (a * 65536 ^ (8 - (hi + lo))) (drop (length parts - lo) parts)))"

definition parse_v6_int :: "string \<Rightarrow> nat option" where
  "parse_v6_int s = (case v6_parts s of None \<Rightarrow> None
     | Some parts \<Rightarrow>
         if length parts > 9 then None
         else (case inner_gaps parts of
             [] \<Rightarrow> if length parts = 8 \<and> hd parts \<noteq> [] \<and> last parts \<noteq> [] then hextets 0 parts else None
           | [k] \<Rightarrow> v6_compressed parts k
           | _ \<Rightarrow> None))"

definition parse_v6 :: "string \<Rightarrow> (nat \<times> string option) option" where
  "parse_v6 s =
     (if CHR ''%'' \<in> set s then
        (let addr = takeWhile (\<lambda>c. c \<noteq> CHR ''%'') s; scope = drop 1 (dropWhile (\<lambda>c. c \<noteq> CHR ''%'') s) in
         if scope = [] \<or> CHR ''%'' \<in> set scope then None
         else map_option (\<lambda>n. (n, Some scope)) (parse_v6_int addr))
      else map_option (\<lambda>n. (n, None)) (parse_v6_int s))"

definition ip_address :: "string \<Rightarrow> ip option" where
  "ip_address s = (if CHR ''/'' \<in> set s then None
     else (case parse_v4 s of
         Some n \<Rightarrow> Some (V4 n)
       | None \<Rightarrow> map_option (\<lambda>(n, sc). V6 n sc) (parse_v6 s)))"

text \<open>
  Networks: the prefix length is decimal; for IPv4 it may also be a dotted netmask or hostmask.
\<close>

definition prefix_string :: "nat \<Rightarrow> string \<Rightarrow> nat option" where
  "prefix_string maxp s = (if s = [] \<or> \<not> list_all is_digit s then None
     else (case parse_nat s of None \<Rightarrow> None | Some n \<Rightarrow> if n > maxp then None else Some n))"

definition mask_value :: "nat \<Rightarrow> nat \<Rightarrow> nat" where
  "mask_value bits p = 2 ^ bits - 2 ^ (bits - p)"

definition prefix_of_mask :: "nat \<Rightarrow> nat option" where
  "prefix_of_mask m = find (\<lambda>p. mask_value 32 p = m) [0..<33]"

definition v4_prefix :: "string \<Rightarrow> nat option" where
  "v4_prefix s = (case prefix_string 32 s of
       Some p \<Rightarrow> Some p
     | None \<Rightarrow> (case parse_v4 s of None \<Rightarrow> None
         | Some m \<Rightarrow> (case prefix_of_mask m of Some p \<Rightarrow> Some p
             | None \<Rightarrow> prefix_of_mask (2 ^ 32 - 1 - m))))"

text \<open>A network is its version, its prefix, and its address with the host bits dropped.\<close>

datatype ip_net = Net4 nat nat | Net6 nat nat

definition ip_network :: "string \<Rightarrow> ip_net option" where
  "ip_network s = (case split_on CHR ''/'' s of
       [a, m] \<Rightarrow> (case (parse_v4 a, v4_prefix m) of
           (Some n, Some p) \<Rightarrow> Some (Net4 p (n div 2 ^ (32 - p)))
         | _ \<Rightarrow> (case (parse_v6 a, prefix_string 128 m) of
               (Some (n, _), Some p) \<Rightarrow> Some (Net6 p (n div 2 ^ (128 - p)))
             | _ \<Rightarrow> None))
     | [a] \<Rightarrow> (case parse_v4 a of
           Some n \<Rightarrow> Some (Net4 32 n)
         | None \<Rightarrow> map_option (\<lambda>(n, _). Net6 128 n) (parse_v6 a))
     | _ \<Rightarrow> None)"

definition in_network :: "ip \<Rightarrow> ip_net \<Rightarrow> bool" where
  "in_network a net = (case (a, net) of
       (V4 n, Net4 p k) \<Rightarrow> n div 2 ^ (32 - p) = k
     | (V6 n _, Net6 p k) \<Rightarrow> n div 2 ^ (128 - p) = k
     | _ \<Rightarrow> False)"

definition matches_entry :: "ip \<Rightarrow> string \<Rightarrow> bool" where
  "matches_entry a entry =
     (if CHR ''/'' \<in> set entry
      then (case ip_network entry of None \<Rightarrow> False | Some net \<Rightarrow> in_network a net)
      else ip_address entry = Some a)"

definition is_trusted_proxy :: "string \<Rightarrow> string list \<Rightarrow> bool" where
  "is_trusted_proxy addr trusted =
     (trusted \<noteq> [] \<and> (case ip_address addr of None \<Rightarrow> False
        | Some a \<Rightarrow> list_ex (matches_entry a) trusted))"

fun walk_hops :: "string \<Rightarrow> string list \<Rightarrow> string list \<Rightarrow> string option" where
  "walk_hops peer trusted [] = None"
| "walk_hops peer trusted (hop # hops) =
     (if is_trusted_proxy hop trusted then walk_hops peer trusted hops
      else if ip_address hop = None then Some peer else Some hop)"

definition header_hops :: "string \<Rightarrow> string list" where
  "header_hops h = filter (\<lambda>x. x \<noteq> []) (map strip (split_on CHR '','' h))"

definition resolve_client_ip :: "string \<Rightarrow> string option \<Rightarrow> string list \<Rightarrow> string" where
  "resolve_client_ip peer forwarded_for trusted =
     (if peer = [] then ''unknown''
      else (case forwarded_for of
          None \<Rightarrow> peer
        | Some f \<Rightarrow>
            if f = [] \<or> \<not> is_trusted_proxy peer trusted then peer
            else (let hops = header_hops f in
              case walk_hops peer trusted (rev hops) of
                Some r \<Rightarrow> r
              | None \<Rightarrow> if hops = [] then peer else hd hops)))"


section \<open>Quotas: facts\<close>

lemma count_since_mono: "c \<le> c' \<Longrightarrow> count_since db c' rp inst \<le> count_since db c rp inst"
proof -
  assume le: "c \<le> c'"
  have "length (filter (\<lambda>j. job_created_at j \<ge> c' \<and> P j) js) \<le> length (filter (\<lambda>j. job_created_at j \<ge> c \<and> P j) js)"
    for P and js :: "pr_job list"
    using le by (induction js) auto
  then show ?thesis by (simp add: count_since_def rowcount_def)
qed

lemma count_since_insert:
  "count_since (db\<lparr>pr_jobs := insert_row (with_job_id (new_job now p)) (pr_jobs db)\<rparr>) c rp inst =
     count_since db c rp inst + (if c \<le> now \<and> (case rp of None \<Rightarrow> True | Some r \<Rightarrow> r = json_str (pl_repo p)) \<and>
       (case inst of None \<Rightarrow> True | Some i \<Rightarrow> pl_installation_id p = Some i) then 1 else 0)"
  by (auto simp: count_since_def rowcount_def with_job_id_def new_job_def split: option.splits)

text \<open>
  The part of the webhook that admits work: a delivery that is already there is not counted, a new
  one is refused by a quota or inserted.
\<close>

definition admit :: "settings \<Rightarrow> int \<Rightarrow> pr_payload \<Rightarrow> database \<Rightarrow> database" where
  "admit s now p db =
     (if dedup_exists db (payload_dedup_key p) then db
      else if quota_reason s now db (json_str (pl_repo p)) (pl_installation_id p) \<noteq> None then db
      else admitted now p db)"

fun admit_all :: "settings \<Rightarrow> database \<Rightarrow> (int \<times> pr_payload) list \<Rightarrow> database" where
  "admit_all s db [] = db"
| "admit_all s db ((now, p) # ds) = admit_all s (admit s now p db) ds"

definition within_quota :: "settings \<Rightarrow> int \<Rightarrow> database \<Rightarrow> bool" where
  "within_quota s now db \<longleftrightarrow>
     (quota_jobs_per_repo_per_hour s > 0 \<longrightarrow>
       (\<forall>rp. int (count_since db (now - one_hour) (Some rp) None) \<le> quota_jobs_per_repo_per_hour s)) \<and>
     (quota_jobs_per_installation_per_day s > 0 \<longrightarrow>
       (\<forall>i. int (count_since db (now - one_day) None (Some i)) \<le> quota_jobs_per_installation_per_day s)) \<and>
     (quota_jobs_total_per_day s > 0 \<longrightarrow>
       int (count_since db (now - one_day) None None) \<le> quota_jobs_total_per_day s)"

lemma within_later:
  assumes "within_quota s now db" and "now \<le> later" shows "within_quota s later db"
proof -
  have "count_since db (later - d) a b \<le> count_since db (now - d) a b" for d a b
    using assms(2) by (simp add: count_since_mono)
  then show ?thesis using assms(1) unfolding within_quota_def by (meson of_nat_mono order.trans)
qed

lemma admit_within:
  assumes "within_quota s now db" shows "within_quota s now (admit s now p db)"
proof (cases "dedup_exists db (payload_dedup_key p) \<or>
    quota_reason s now db (json_str (pl_repo p)) (pl_installation_id p) \<noteq> None")
  case True
  then show ?thesis using assms by (auto simp: admit_def)
next
  case False
  then have q: "quota_reason s now db (json_str (pl_repo p)) (pl_installation_id p) = None"
    and new: "admit s now p db = db\<lparr>pr_jobs := insert_row (with_job_id (new_job now p)) (pr_jobs db)\<rparr>"
    by (auto simp: admit_def dedup_exists_def admitted_def)
  let ?hour = "quota_jobs_per_repo_per_hour s" and ?tenant = "quota_jobs_per_installation_per_day s"
    and ?day = "quota_jobs_total_per_day s"
  have hour: "int (count_since (admit s now p db) (now - one_hour) (Some rp) None) \<le> ?hour" if "?hour > 0" for rp
  proof -
    have "int (count_since db (now - one_hour) (Some rp) None) \<le> ?hour" using assms that by (simp add: within_quota_def)
    moreover have "int (count_since db (now - one_hour) (Some (json_str (pl_repo p))) None) < ?hour"
      using q that by (simp add: quota_reason_def Let_def split: if_splits)
    ultimately show ?thesis by (auto simp: new count_since_insert)
  qed
  have tenant: "int (count_since (admit s now p db) (now - one_day) None (Some i)) \<le> ?tenant" if "?tenant > 0" for i
  proof -
    have "int (count_since db (now - one_day) None (Some i)) \<le> ?tenant" using assms that by (simp add: within_quota_def)
    moreover have "pl_installation_id p = Some i \<Longrightarrow> int (count_since db (now - one_day) None (Some i)) < ?tenant"
      using q that by (simp add: quota_reason_def Let_def split: if_splits)
    ultimately show ?thesis by (auto simp: new count_since_insert)
  qed
  have "int (count_since (admit s now p db) (now - one_day) None None) \<le> ?day" if "?day > 0"
  proof -
    have "int (count_since db (now - one_day) None None) < ?day"
      using q that by (simp add: quota_reason_def Let_def split: if_splits)
    then show ?thesis by (simp add: new count_since_insert)
  qed
  with hour tenant show ?thesis by (simp add: within_quota_def)
qed

lemma admit_all_within:
  assumes "within_quota s now db" and "sorted (now # map fst ds)"
  shows "within_quota s (last (now # map fst ds)) (admit_all s db ds)"
  using assms
proof (induction ds arbitrary: now db)
  case (Cons d ds)
  obtain u p where d: "d = (u, p)" by (cases d)
  have "within_quota s u (admit s u p db)"
    using within_later [OF Cons.prems(1), of u] Cons.prems(2) by (simp add: d admit_within)
  from Cons.IH [OF this] Cons.prems show ?case by (simp add: d)
qed simp




section \<open>The limiter: facts\<close>

lemma allow_limit [simp]:
  "lim_limit (fst (allow l k t)) = lim_limit l" "window_s (fst (allow l k t)) = window_s l"
  by (auto simp: allow_def Let_def split: option.split)

lemma allow_other [simp]: "k' \<noteq> k \<Longrightarrow> buckets (fst (allow l k t)) k' = buckets l k'"
  by (auto simp: allow_def Let_def split: option.split)

text \<open>The times at which a key was admitted in a sequence of attempts.\<close>

fun admissions :: "limiter \<Rightarrow> string \<Rightarrow> (string \<times> rat) list \<Rightarrow> rat list" where
  "admissions l k [] = []"
| "admissions l k ((k', t) # as) =
     (if k' = k \<and> fst (snd (allow l k' t)) then [t] else []) @ admissions (fst (allow l k' t)) k as"

text \<open>
  The admissions fall into windows: groups no longer than the limit, each inside one window length of
  its start, the starts at least one window length apart.
\<close>

fun grouped :: "rat \<Rightarrow> nat \<Rightarrow> rat \<Rightarrow> (rat \<times> rat list) list \<Rightarrow> bool" where
  "grouped w n from [] = True"
| "grouped w n from ((s, ts) # gs) \<longleftrightarrow> from \<le> s \<and> length ts \<le> n \<and>
     (\<forall>t\<in>set ts. s \<le> t \<and> t < s + w) \<and> grouped w n (s + w) gs"

definition in_interval :: "rat \<Rightarrow> rat \<Rightarrow> rat list \<Rightarrow> nat" where
  "in_interval a w ts = length (filter (\<lambda>t. a \<le> t \<and> t < a + w) ts)"

lemma in_interval_append [simp]: "in_interval a w (xs @ ys) = in_interval a w xs + in_interval a w ys"
  by (simp add: in_interval_def)

lemma in_interval_le: "in_interval a w ts \<le> length ts"
  by (simp add: in_interval_def)

lemma grouped_late:
  "grouped w n from gs \<Longrightarrow> a + w \<le> from \<Longrightarrow> 0 \<le> w \<Longrightarrow> in_interval a w (concat (map snd gs)) = 0"
proof (induction w n "from" gs rule: grouped.induct)
  case (2 w n "from" s ts gs)
  then have "filter (\<lambda>t. a \<le> t \<and> t < a + w) ts = []" by (force simp: filter_empty_conv)
  with 2 show ?case by (simp add: in_interval_def)
qed (simp add: in_interval_def)

lemma grouped_interval:
  assumes "grouped w n from gs" and "0 < w"
  shows "in_interval a w (concat (map snd gs)) \<le> 2 * n"
  using assms
proof (induction w n "from" gs rule: grouped.induct)
  case (2 w n "from" s ts gs)
  show ?case
  proof (cases "in_interval a w ts = 0")
    case True
    with 2 show ?thesis by simp
  next
    case False
    then obtain t where "t \<in> set ts" "a \<le> t" by (auto simp: in_interval_def filter_empty_conv)
    then have late: "a < s + w" using 2 by force
    have ts: "in_interval a w ts \<le> n" using in_interval_le [of a w ts] 2 by simp
    show ?thesis
    proof (cases gs)
      case Nil
      then show ?thesis using ts by (simp add: in_interval_def)
    next
      case (Cons g rest)
      obtain s' ts' where g: "g = (s', ts')" by (cases g)
      have "grouped w n (s' + w) rest" "s + w \<le> s'" "length ts' \<le> n" using 2 by (simp_all add: Cons g)
      then have "in_interval a w (concat (map snd rest)) = 0"
        using late 2(3) by (intro grouped_late [of w n "s' + w"]) linarith+
      then show ?thesis using ts in_interval_le [of a w ts'] \<open>length ts' \<le> n\<close> by (simp add: Cons g)
    qed
  qed
qed (simp add: in_interval_def)

text \<open>
  What is still admitted in the current window of a key, and where the next window can start.
\<close>

definition current :: "limiter \<Rightarrow> string \<Rightarrow> rat list \<Rightarrow> bool" where
  "current l k ts \<longleftrightarrow> (case buckets l k of
       None \<Rightarrow> ts = []
     | Some b \<Rightarrow> (\<forall>t\<in>set ts. win_start b \<le> t \<and> t < win_start b + window_s l) \<and>
         win_count b + int (length ts) \<le> max (win_count b) (lim_limit l))"

definition next_window :: "limiter \<Rightarrow> string \<Rightarrow> rat \<Rightarrow> rat" where
  "next_window l k t0 = (case buckets l k of None \<Rightarrow> t0 | Some b \<Rightarrow> win_start b + window_s l)"

definition per_window :: "limiter \<Rightarrow> nat" where
  "per_window l = nat (max 1 (lim_limit l))"

lemma per_window_allow [simp]: "per_window (fst (allow l k t)) = per_window l"
  by (simp add: per_window_def)

lemma grouped_from: "grouped w n f gs \<Longrightarrow> f' \<le> f \<Longrightarrow> grouped w n f' gs"
  by (cases gs) auto

definition clock_ok :: "limiter \<Rightarrow> string \<Rightarrow> rat \<Rightarrow> bool" where
  "clock_ok l k t0 \<longleftrightarrow> (case buckets l k of None \<Rightarrow> True | Some b \<Rightarrow> win_start b \<le> t0)"

text \<open>The three things an attempt on the key itself can do.\<close>

lemma allow_cases:
  obtains (fresh) "fst (snd (allow l k t))"
      "buckets (fst (allow l k t)) k = Some \<lparr>win_start = t, win_count = 1\<rparr>"
      "buckets l k = None \<or> (\<exists>b. buckets l k = Some b \<and> win_start b + window_s l \<le> t)"
    | (more) b where "fst (snd (allow l k t))" "buckets l k = Some b" "t < win_start b + window_s l"
      "win_count b < lim_limit l" "buckets (fst (allow l k t)) k = Some (b\<lparr>win_count := win_count b + 1\<rparr>)"
    | (denied) b where "\<not> fst (snd (allow l k t))" "fst (allow l k t) = l" "buckets l k = Some b"
      "t < win_start b + window_s l" "snd (snd (allow l k t)) = \<lfloor>window_s l - (t - win_start b)\<rfloor> + 1"
proof (cases "buckets l k")
  case None
  then show ?thesis by (intro fresh) (simp_all add: allow_def Let_def)
next
  case (Some b)
  show ?thesis
  proof (cases "t - win_start b \<ge> window_s l")
    case True
    with Some show ?thesis by (intro fresh) (simp_all add: allow_def Let_def algebra_simps)
  next
    case False
    then show ?thesis
      using Some more [of b] denied [of b]
      by (cases "win_count b < lim_limit l") (simp_all add: allow_def Let_def algebra_simps)
  qed
qed

lemma admissions_grouped:
  assumes "0 < window_s l" and "sorted (t0 # map snd as)" and "clock_ok l k t0"
  shows "\<exists>ts gs. admissions l k as = ts @ concat (map snd gs) \<and> current l k ts \<and>
    grouped (window_s l) (per_window l) (next_window l k t0) gs"
  using assms
proof (induction as arbitrary: l t0)
  case Nil
  show ?case
    by (intro exI [of _ "[]"]) (auto simp: current_def split: option.split)
next
  case (Cons a as)
  obtain k' t where a: "a = (k', t)" by (cases a)
  let ?l = "fst (allow l k' t)"
  have t0: "t0 \<le> t" and srt: "sorted (t # map snd as)" using Cons.prems(2) by (simp_all add: a)
  have IH: "clock_ok ?l k t \<Longrightarrow> \<exists>ts gs. admissions ?l k as = ts @ concat (map snd gs) \<and> current ?l k ts \<and>
      grouped (window_s l) (per_window l) (next_window ?l k t) gs"
    using Cons.IH [of ?l t] Cons.prems(1) srt by simp
  show ?case
  proof (cases "k' = k")
    case False
    then have b: "buckets ?l k = buckets l k" by simp
    then have "clock_ok ?l k t" using Cons.prems(3) t0 by (auto simp: clock_ok_def split: option.splits)
    from IH [OF this] obtain ts gs where r: "admissions ?l k as = ts @ concat (map snd gs)" "current ?l k ts"
      "grouped (window_s l) (per_window l) (next_window ?l k t) gs" by blast
    have "next_window l k t0 \<le> next_window ?l k t" using t0 b by (simp add: next_window_def split: option.split)
    with r(3) have "grouped (window_s l) (per_window l) (next_window l k t0) gs" by (rule grouped_from)
    moreover have "current l k ts" using r(2) b by (auto simp: current_def split: option.splits)
    ultimately show ?thesis using r(1) False by (intro exI [of _ ts] exI [of _ gs]) (simp add: a)
  next
    case True
    show ?thesis
    proof (cases rule: allow_cases [of l k t])
      case fresh
      then have "clock_ok ?l k t" by (simp add: clock_ok_def True)
      from IH [OF this] obtain ts gs where r: "admissions ?l k as = ts @ concat (map snd gs)" "current ?l k ts"
        "grouped (window_s l) (per_window l) (next_window ?l k t) gs" by blast
      have "next_window l k t0 \<le> t" using fresh(3) t0 by (auto simp: next_window_def)
      moreover have "length (t # ts) \<le> per_window l" "\<forall>x\<in>set (t # ts). t \<le> x \<and> x < t + window_s l"
        using r(2) fresh(2) True Cons.prems(1) by (auto simp: current_def per_window_def)
      ultimately have "grouped (window_s l) (per_window l) (next_window l k t0) ((t, t # ts) # gs)"
        using r(3) fresh(2) True by (simp add: next_window_def)
      moreover have "current l k []" by (auto simp: current_def split: option.split)
      ultimately show ?thesis
        using r(1) fresh(1) True by (intro exI [of _ "[]"] exI [of _ "(t, t # ts) # gs"]) (simp add: a)
    next
      case (more b)
      have start: "win_start b \<le> t" using Cons.prems(3) more(2) t0 by (simp add: clock_ok_def)
      then have "clock_ok ?l k t" using more(5) by (simp add: clock_ok_def True)
      from IH [OF this] obtain ts gs where r: "admissions ?l k as = ts @ concat (map snd gs)" "current ?l k ts"
        "grouped (window_s l) (per_window l) (next_window ?l k t) gs" by blast
      have "current l k (t # ts)" using r(2) more start True by (auto simp: current_def)
      moreover have "next_window l k t0 = next_window ?l k t" using more(2,5) True by (simp add: next_window_def)
      ultimately show ?thesis
        using r(1,3) more(1) True by (intro exI [of _ "t # ts"] exI [of _ gs]) (simp add: a)
    next
      case (denied b)
      have "clock_ok ?l k t" using Cons.prems(3) denied(2,3) t0 by (simp add: clock_ok_def True)
      from IH [OF this] obtain ts gs where r: "admissions ?l k as = ts @ concat (map snd gs)" "current ?l k ts"
        "grouped (window_s l) (per_window l) (next_window ?l k t) gs" by blast
      have "next_window l k t0 = next_window ?l k t" using denied(2,3) True by (simp add: next_window_def)
      then show ?thesis
        using r denied(1,2) True by (intro exI [of _ ts] exI [of _ gs]) (simp add: a)
    qed
  qed
qed



text \<open>
  \<open>Retry-After\<close> is honest: a refused caller that waits the number of whole seconds it was told,
  with no other attempt in between, is admitted, and it is told at least one second.
\<close>

theorem retry_after_sufficient:
  assumes "allow l k t = (l', False, retry)" and "t + of_int retry \<le> t'"
  shows "fst (snd (allow l' k t')) \<and> 1 \<le> retry"
proof (cases rule: allow_cases [of l k t])
  case (denied b)
  have r: "retry = \<lfloor>window_s l - (t - win_start b)\<rfloor> + 1" and l': "l' = l"
    using denied assms(1) by simp_all
  have "window_s l - (t - win_start b) < of_int retry" unfolding r by linarith
  then have "window_s l \<le> t' - win_start b" using assms(2) by linarith
  then have "fst (snd (allow l' k t'))" using denied(3) by (simp add: l' allow_def Let_def)
  moreover have "1 \<le> retry" unfolding r using denied(4) by simp
  ultimately show ?thesis by simp
qed (use assms in simp_all)

theorem retry_after_sufficient_witness:
  "\<exists>l retry. fst (snd (allow l ''a'' 70)) \<and> 1 \<le> (retry :: int)"
proof -
  let ?l = "fst (allow (new_limiter 1 60) ''a'' 5)"
  have "allow ?l ''a'' 10 = (?l, False, 56)"
    by (simp add: allow_def new_limiter_def Let_def)
  from retry_after_sufficient [OF this, of 70] show ?thesis by auto
qed


section \<open>The client address: facts\<close>

lemma split_on_append_gen: "split_on c (a @ c # b) = split_on c a @ split_on c b"
proof (induction a)
  case (Cons x xs)
  then show ?case by (cases "split_on c xs") (auto split: list.splits)
qed simp

lemma walk_skip:
  "(\<And>h. h \<in> set hs \<Longrightarrow> is_trusted_proxy h trusted) \<Longrightarrow>
     walk_hops peer trusted (hs @ rest) = walk_hops peer trusted rest"
  by (induction hs) auto

lemma walk_address: "walk_hops peer trusted hs = Some r \<Longrightarrow> r = peer \<or> r \<in> set hs \<and> ip_address r \<noteq> None"
  by (induction hs) (auto split: if_splits)

lemma walk_none: "walk_hops peer trusted hs = None \<Longrightarrow> h \<in> set hs \<Longrightarrow> is_trusted_proxy h trusted"
  by (induction hs) (auto split: if_splits)



end
