(* ===== verification/Json.thy ===== *)
theory Json
  imports Prelude
begin

text \<open>
  \<open>json.loads\<close> and \<open>json.dumps\<close>, the two functions of the standard library through which webhook bodies
  and model answers enter the service. The decoder is a lexer and a machine with an explicit stack
  that reads one token at a time, so that it needs no bound to terminate; the nesting that the
  interpreter allows is a parameter, and so is the float that a numeral denotes.

  The behaviours that matter to the callers: NaN and the infinities are accepted, unescaped control
  characters are not, of two entries for a key the last one counts, and three kinds of failure are
  told apart, because only \<open>JSONDecodeError\<close> is caught: nesting beyond the limit raises
  \<open>RecursionError\<close>, an integer of more than 4300 digits \<open>ValueError\<close>.
\<close>

record json_env =
  to_float :: "string \<Rightarrow> json"
  wide_codec :: "string \<Rightarrow> string res"
  max_depth :: nat


section \<open>Tokens\<close>

definition hex_digit_value :: "char \<Rightarrow> nat option" where
  "hex_digit_value c = (let n = (of_char c :: nat) in
     if 48 \<le> n \<and> n \<le> 57 then Some (n - 48)
     else if 65 \<le> n \<and> n \<le> 70 then Some (n - 55)
     else if 97 \<le> n \<and> n \<le> 102 then Some (n - 87) else None)"

definition hex4 :: "char \<Rightarrow> char \<Rightarrow> char \<Rightarrow> char \<Rightarrow> nat option" where
  "hex4 a b c d = (case (hex_digit_value a, hex_digit_value b, hex_digit_value c, hex_digit_value d) of
       (Some w, Some x, Some y, Some z) \<Rightarrow> Some (((w * 16 + x) * 16 + y) * 16 + z)
     | _ \<Rightarrow> None)"

text \<open>The text of a code point: itself in the modelled range, its encoding beyond.\<close>

definition code_text :: "nat \<Rightarrow> string" where
  "code_text n =
     (if n < 256 then [char_of n]
      else if n < 2048 then [char_of (192 + n div 64), char_of (128 + n mod 64)]
      else if n < 65536
        then [char_of (224 + n div 4096), char_of (128 + n div 64 mod 64), char_of (128 + n mod 64)]
      else [char_of (240 + n div 262144), char_of (128 + n div 4096 mod 64),
            char_of (128 + n div 64 mod 64), char_of (128 + n mod 64)])"

definition simple_escape :: "char \<Rightarrow> char option" where
  "simple_escape c = (let n = (of_char c :: nat) in
     if n = 34 \<or> n = 92 \<or> n = 47 then Some c
     else if n = 98 then Some (char_of (8::nat)) else if n = 102 then Some (char_of (12::nat))
     else if n = 110 then Some (char_of (10::nat)) else if n = 114 then Some (char_of (13::nat))
     else if n = 116 then Some (char_of (9::nat)) else None)"

abbreviation backslash :: char where "backslash \<equiv> CHR 0x5C"
abbreviation dquote :: char where "dquote \<equiv> CHR 0x22"

text \<open>The four hexadecimal digits of an escape.\<close>

fun hex_escape :: "string \<Rightarrow> (nat \<times> string) option" where
  "hex_escape (a # b # c # d # r) = map_option (\<lambda>n. (n, r)) (hex4 a b c d)"
| "hex_escape _ = None"

text \<open>A high surrogate directly followed by an escaped low one is one character.\<close>

definition join_surrogates :: "nat \<Rightarrow> string \<Rightarrow> string \<times> string" where
  "join_surrogates n r =
     (if 55296 \<le> n \<and> n < 56320 \<and> take 2 r = [backslash, CHR ''u'']
      then (case hex_escape (drop 2 r) of
          Some (m, r') \<Rightarrow>
            if 56320 \<le> m \<and> m < 57344
            then (code_text (65536 + (n - 55296) * 1024 + (m - 56320)), r')
            else (code_text n, r)
        | None \<Rightarrow> (code_text n, r))
      else (code_text n, r))"

text \<open>What follows a backslash: the character it stands for, and the rest.\<close>

definition read_escape :: "string \<Rightarrow> (string \<times> string) option" where
  "read_escape s = (case s of
       [] \<Rightarrow> None
     | e # r \<Rightarrow>
         if e = CHR ''u'' then map_option (\<lambda>(n, r'). join_surrogates n r') (hex_escape r)
         else map_option (\<lambda>c. ([c], r)) (simple_escape e))"

lemma hex_escape_length: "hex_escape s = Some (n, r) \<Longrightarrow> length r < length s"
  by (induction s rule: hex_escape.induct) auto

lemma join_surrogates_length: "join_surrogates n s = (t, r) \<Longrightarrow> length r \<le> length s"
proof -
  assume j: "join_surrogates n s = (t, r)"
  have "length r' \<le> length s" if "hex_escape (drop 2 s) = Some (m, r')" for m r'
    using hex_escape_length [OF that] by simp
  with j show ?thesis by (auto simp: join_surrogates_def split: if_splits option.splits)
qed

lemma read_escape_length [termination_simp]: "read_escape s = Some (t, r) \<Longrightarrow> length r < length s"
  by (auto simp: read_escape_def split: list.splits if_splits)
    (metis hex_escape_length join_surrogates_length le_imp_less_Suc less_SucI order_le_less_trans)

text \<open>
  The rest of a text literal after its opening quote: the value and what follows the closing quote.
\<close>

fun scan_string :: "string \<Rightarrow> (string \<times> string) option" where
  "scan_string [] = None"
| "scan_string (x # xs) =
     (if x = dquote then Some ([], xs)
      else if x = backslash then
        (case read_escape xs of
           None \<Rightarrow> None
         | Some (t, ys) \<Rightarrow> map_option (\<lambda>(v, r). (t @ v, r)) (scan_string ys))
      else if (of_char x :: nat) < 32 then None
      else map_option (\<lambda>(v, r). (x # v, r)) (scan_string xs))"

datatype token =
    TPunct char | TStr string | TConst json | TNum string bool | TBad

definition is_json_space :: "char \<Rightarrow> bool" where
  "is_json_space c \<longleftrightarrow> c \<in> {CHR 0x20, CHR 0x09, CHR 0x0A, CHR 0x0D}"

definition digits_of :: "string \<Rightarrow> string \<times> string" where
  "digits_of s = (takeWhile is_digit s, dropWhile is_digit s)"

text \<open>
  A numeral: sign, integer part without leading zeros, and the fraction and exponent where they
  are complete; the flag says whether it is a float.
\<close>

definition scan_int :: "string \<Rightarrow> (string \<times> string) option" where
  "scan_int s = (case s of
       [] \<Rightarrow> None
     | c # cs \<Rightarrow> if c = CHR ''0'' then Some ([c], cs)
         else if is_digit c then Some (digits_of s) else None)"

definition scan_frac :: "string \<Rightarrow> string \<times> string" where
  "scan_frac s = (case s of
       c # d # cs \<Rightarrow> if c = CHR ''.'' \<and> is_digit d
         then (c # fst (digits_of (d # cs)), snd (digits_of (d # cs))) else ([], s)
     | _ \<Rightarrow> ([], s))"

definition scan_exp :: "string \<Rightarrow> string \<times> string" where
  "scan_exp s = (case s of
       c # cs \<Rightarrow>
         if c = CHR ''e'' \<or> c = CHR ''E'' then
           (let sg = takeWhile (\<lambda>x. x = CHR ''+'' \<or> x = CHR ''-'') (take 1 cs); ds = drop (length sg) cs in
            if ds \<noteq> [] \<and> is_digit (hd ds)
            then (c # sg @ fst (digits_of ds), snd (digits_of ds)) else ([], s))
         else ([], s)
     | [] \<Rightarrow> ([], s))"

definition scan_number :: "string \<Rightarrow> (token \<times> string) option" where
  "scan_number s =
     (let neg = takeWhile (\<lambda>x. x = CHR ''-'') (take 1 s) in
      case scan_int (drop (length neg) s) of
        None \<Rightarrow> None
      | Some (i, r) \<Rightarrow>
          (let (f, r1) = scan_frac r; (e, r2) = scan_exp r1 in
           Some (TNum (neg @ i @ f @ e) (f \<noteq> [] \<or> e \<noteq> []), r2)))"

definition constants :: "(string \<times> json) list" where
  "constants = [(''null'', JNull), (''true'', JBool True), (''false'', JBool False),
     (''NaN'', JFloat ''nan'' None), (''Infinity'', JFloat ''inf'' None), (''-Infinity'', JFloat ''-inf'' None)]"

definition scan_constant :: "string \<Rightarrow> (token \<times> string) option" where
  "scan_constant s = (case find (\<lambda>(w, v). startswith s w) constants of
       None \<Rightarrow> None
     | Some (w, v) \<Rightarrow> Some (TConst v, drop (length w) s))"

text \<open>One token at a character that is no white space.\<close>

definition scan_token :: "string \<Rightarrow> (token \<times> string) option" where
  "scan_token s = (case s of
       [] \<Rightarrow> None
     | c # cs \<Rightarrow>
         if c = dquote then map_option (map_prod TStr id) (scan_string cs)
         else if c \<in> set ''{}[],:'' then Some (TPunct c, cs)
         else (case scan_constant s of Some r \<Rightarrow> Some r | None \<Rightarrow> scan_number s))"

lemma scan_string_length: "scan_string s = Some (v, r) \<Longrightarrow> length r < length s"
proof (induction s arbitrary: v r rule: scan_string.induct)
  case (2 x xs)
  consider "x = dquote" | "x \<noteq> dquote" "x = backslash" | "x \<noteq> dquote" "x \<noteq> backslash" by blast
  then show ?case
  proof cases
    case 2
    with "2.prems" obtain t ys v' where e: "read_escape xs = Some (t, ys)" "scan_string ys = Some (v', r)"
      by (auto split: option.splits)
    then have "length r < length ys" using "2.IH"(1) 2 by blast
    with read_escape_length [OF e(1)] show ?thesis by simp
  next
    case 3
    with "2.prems" "2.IH"(2) show ?thesis by (fastforce split: if_splits)
  qed (use "2.prems" in auto)
qed simp

lemma digits_of_length: "length (snd (digits_of s)) \<le> length s"
  by (simp add: digits_of_def length_dropWhile_le)

lemma scan_frac_length: "scan_frac s = (f, r) \<Longrightarrow> length r \<le> length s"
  by (auto simp: scan_frac_def split: list.splits if_splits) (metis digits_of_length length_Cons le_SucI)

lemma scan_exp_length: "scan_exp s = (e, r) \<Longrightarrow> length r \<le> length s"
proof (cases s)
  case (Cons c cs)
  have "length (snd (digits_of (drop n cs))) \<le> length cs" for n
    using digits_of_length [of "drop n cs"] by simp
  with Cons show "scan_exp s = (e, r) \<Longrightarrow> length r \<le> length s"
    by (auto simp: scan_exp_def Let_def split: if_splits intro: le_SucI)
qed (simp add: scan_exp_def)

lemma scan_int_length: "scan_int s = Some (i, r) \<Longrightarrow> length r < length s"
proof -
  have "length (snd (digits_of (c # cs))) < length (c # cs)" if "is_digit c" for c cs
    using that length_dropWhile_le [of is_digit cs] by (simp add: digits_of_def)
  then show "scan_int s = Some (i, r) \<Longrightarrow> length r < length s"
    by (auto simp: scan_int_def split: list.splits if_splits) (metis length_Cons snd_conv)
qed

lemma scan_number_length: "scan_number s = Some (t, r) \<Longrightarrow> length r < length s"
proof -
  assume n: "scan_number s = Some (t, r)"
  define neg where "neg = takeWhile (\<lambda>x. x = CHR ''-'') (take 1 s)"
  obtain i r0 where i: "scan_int (drop (length neg) s) = Some (i, r0)"
    using n unfolding scan_number_def neg_def [symmetric] Let_def by (auto split: option.splits)
  obtain f r1 where f: "scan_frac r0 = (f, r1)" by fastforce
  obtain e r2 where e: "scan_exp r1 = (e, r2)" by fastforce
  have "r = r2" using n i f e unfolding scan_number_def neg_def [symmetric] Let_def by simp
  with scan_int_length [OF i] scan_frac_length [OF f] scan_exp_length [OF e] show ?thesis by simp
qed

lemma scan_constant_length: "scan_constant s = Some (t, r) \<Longrightarrow> length r < length s"
proof -
  assume a: "scan_constant s = Some (t, r)"
  then obtain w v where w: "find (\<lambda>(w, v). startswith s w) constants = Some (w, v)" "r = drop (length w) s"
    by (auto simp: scan_constant_def split: option.splits)
  then have "(w, v) \<in> set constants" "startswith s w"
    by (auto simp: find_Some_iff) (metis nth_mem)
  then have "w \<noteq> []" "s \<noteq> []" by (auto simp: constants_def startswith_def)
  with w(2) show ?thesis by (cases s; cases w) auto
qed

lemma scan_token_length: "scan_token s = Some (t, r) \<Longrightarrow> length r < length s"
  by (auto simp: scan_token_def split: list.splits if_splits option.splits
      dest!: scan_string_length dest: scan_number_length scan_constant_length)

text \<open>The tokens of a text, the last of them \<open>TBad\<close> when it has a part that is no token.\<close>

function lex :: "string \<Rightarrow> token list" where
  "lex [] = []"
| "lex (c # cs) =
     (if is_json_space c then lex cs
      else (case scan_token (c # cs) of
          None \<Rightarrow> [TBad]
        | Some (t, r) \<Rightarrow> t # lex r))"
  by pat_completeness auto
termination
  by (relation "measure length") (auto dest: scan_token_length)


section \<open>The decoder\<close>

text \<open>
  A frame is an open list with the elements read so far, in reverse, or an open dictionary with its
  entries and the key whose value is being read. The mode says what may come next.
\<close>

datatype frame = InList "json list" | InDict "(string \<times> json) list" string

datatype mode =
    Value | ElementOrClose | KeyOrClose | Key "(string \<times> json) list"
  | Colon "(string \<times> json) list" string | Complete json

definition decode_error :: exc where
  "decode_error = Exc JSONDecodeError ''JSONDecodeError''"

definition INT_MAX_DIGITS :: nat where "INT_MAX_DIGITS = 4300"

definition number_value :: "json_env \<Rightarrow> string \<Rightarrow> bool \<Rightarrow> json res" where
  "number_value env s isfloat =
     (if isfloat then Ret (to_float env s)
      else if length (filter is_digit s) > INT_MAX_DIGITS
        then Raise (Exc ValueError ''Exceeds the limit (4300 digits) for integer string conversion'')
      else (case py_int s of Some n \<Rightarrow> Ret (JInt n) | None \<Rightarrow> Raise decode_error))"

text \<open>A dictionary keeps the place of a key that is set again.\<close>

fun dict_set :: "string \<Rightarrow> json \<Rightarrow> (string \<times> json) list \<Rightarrow> (string \<times> json) list" where
  "dict_set k v [] = [(k, v)]"
| "dict_set k v ((k', v') # d) = (if k = k' then (k, v) # d else (k', v') # dict_set k v d)"

definition open_frame :: "json_env \<Rightarrow> token \<Rightarrow> frame list \<Rightarrow> (mode \<times> frame list) res" where
  "open_frame env t st = (case t of
       TConst v \<Rightarrow> Ret (Complete v, st)
     | TStr s \<Rightarrow> Ret (Complete (JStr s), st)
     | TNum s fl \<Rightarrow> rbind (number_value env s fl) (\<lambda>v. Ret (Complete v, st))
     | TPunct c \<Rightarrow>
         if c = CHR ''['' then
           (if length st \<ge> max_depth env then Raise (Exc RecursionError ''maximum recursion depth exceeded'')
            else Ret (ElementOrClose, st))
         else if c = CHR ''{'' then
           (if length st \<ge> max_depth env then Raise (Exc RecursionError ''maximum recursion depth exceeded'')
            else Ret (KeyOrClose, st))
         else Raise decode_error
     | TBad \<Rightarrow> Raise decode_error)"

text \<open>One token, and a whole text.\<close>

definition close_or_next :: "json \<Rightarrow> token \<Rightarrow> frame list \<Rightarrow> (mode \<times> frame list) res" where
  "close_or_next v t st = (case st of
       InList acc # st' \<Rightarrow>
         if t = TPunct (CHR '','') then Ret (Value, InList (v # acc) # st')
         else if t = TPunct (CHR '']'') then Ret (Complete (JList (rev (v # acc))), st')
         else Raise decode_error
     | InDict d k # st' \<Rightarrow>
         if t = TPunct (CHR '','') then Ret (Key (dict_set k v d), st')
         else if t = TPunct (CHR ''}'') then Ret (Complete (JDict (dict_set k v d)), st')
         else Raise decode_error
     | [] \<Rightarrow> Raise decode_error)"

definition decode_step :: "json_env \<Rightarrow> token \<Rightarrow> mode \<times> frame list \<Rightarrow> (mode \<times> frame list) res" where
  "decode_step env t c = (case c of (m, st) \<Rightarrow>
     (case m of
        Value \<Rightarrow> open_frame env t st
      | ElementOrClose \<Rightarrow>
          if t = TPunct (CHR '']'') then Ret (Complete (JList []), st)
          else open_frame env t (InList [] # st)
      | KeyOrClose \<Rightarrow>
          (case t of
             TStr k \<Rightarrow> Ret (Colon [] k, st)
           | _ \<Rightarrow> if t = TPunct (CHR ''}'') then Ret (Complete (JDict []), st) else Raise decode_error)
      | Key d \<Rightarrow> (case t of TStr k \<Rightarrow> Ret (Colon d k, st) | _ \<Rightarrow> Raise decode_error)
      | Colon d k \<Rightarrow>
          if t = TPunct (CHR '':'') then Ret (Value, InDict d k # st) else Raise decode_error
      | Complete v \<Rightarrow> close_or_next v t st))"

fun decode_tokens :: "json_env \<Rightarrow> token list \<Rightarrow> mode \<times> frame list \<Rightarrow> (mode \<times> frame list) res" where
  "decode_tokens env [] c = Ret c"
| "decode_tokens env (t # ts) c = rbind (decode_step env t c) (decode_tokens env ts)"

text \<open>\<open>json.loads\<close> on a text and on bytes.\<close>

definition byte_order_mark :: string where
  "byte_order_mark = map char_of [239::nat, 187, 191]"

definition loads :: "json_env \<Rightarrow> string \<Rightarrow> json res" where
  "loads env s =
     (if startswith s byte_order_mark then Raise decode_error
      else rbind (decode_tokens env (lex s) (Value, [])) (\<lambda>c. case c of
          (Complete v, []) \<Rightarrow> Ret v
        | _ \<Rightarrow> Raise decode_error))"

text \<open>
  Bytes are UTF-8, with or without a mark, unless zero bytes or a mark show one of the wider
  encodings, whose codec is a parameter.
\<close>

definition is_wide :: "string \<Rightarrow> bool" where
  "is_wide b \<longleftrightarrow>
     take 2 b \<in> {map char_of [254::nat, 255], map char_of [255::nat, 254]} \<or>
     take 4 b = map char_of [0::nat, 0, 254, 255] \<or>
     (length b \<ge> 2 \<and> length b \<noteq> 3 \<and> (b ! 0 = CHR 0x00 \<or> b ! 1 = CHR 0x00))"

definition loads_bytes :: "json_env \<Rightarrow> string \<Rightarrow> json res" where
  "loads_bytes env b =
     (if is_wide b then rbind (wide_codec env b) (loads env)
      else (let b = (if startswith b byte_order_mark then drop 3 b else b) in
        case utf8_text True b of
          None \<Rightarrow> Raise (Exc UnicodeDecodeError ''codec can't decode bytes'')
        | Some s \<Rightarrow> loads env s))"


section \<open>The encoder\<close>

text \<open>\<open>json.dumps\<close> with its default separators and ASCII output, on the values it is applied to.\<close>

definition escape_char :: "char \<Rightarrow> string" where
  "escape_char c = (let n = (of_char c :: nat) in
     if c = dquote \<or> c = backslash then [backslash, c]
     else if n = 8 then [backslash, CHR ''b''] else if n = 9 then [backslash, CHR ''t'']
     else if n = 10 then [backslash, CHR ''n''] else if n = 12 then [backslash, CHR ''f'']
     else if n = 13 then [backslash, CHR ''r'']
     else if 32 \<le> n \<and> n < 127 then [c]
     else [backslash, CHR ''u'', CHR ''0'', CHR ''0'', hex_digit (n div 16), hex_digit (n mod 16)])"

definition quoted :: "string \<Rightarrow> string" where
  "quoted s = [dquote] @ concat (map escape_char s) @ [dquote]"

fun dumps :: "json \<Rightarrow> string" where
  "dumps JNull = ''null''"
| "dumps (JBool b) = (if b then ''true'' else ''false'')"
| "dumps (JInt i) = int_str i"
| "dumps (JFloat r n) = (if r = ''nan'' then ''NaN'' else if r = ''inf'' then ''Infinity''
     else if r = ''-inf'' then ''-Infinity'' else r)"
| "dumps (JStr s) = quoted s"
| "dumps (JList xs) = ''['' @ join '', '' (map dumps xs) @ '']''"
| "dumps (JDict d) = ''{'' @ join '', '' (map (\<lambda>(k, v). quoted k @ '': '' @ dumps v) d) @ ''}''"


section \<open>The round trip\<close>

text \<open>The values that survive: no floats, integers within the digit limit, keys distinct, nesting allowed.\<close>

fun encodable :: "json_env \<Rightarrow> nat \<Rightarrow> json \<Rightarrow> bool" where
  "encodable env n (JFloat r i) = False"
| "encodable env n (JInt i) = (length (int_str i) \<le> INT_MAX_DIGITS)"
| "encodable env n (JList xs) = (n < max_depth env \<and> list_all (encodable env (Suc n)) xs)"
| "encodable env n (JDict d) =
     (n < max_depth env \<and> distinct (map fst d) \<and> list_all (\<lambda>(k, v). encodable env (Suc n) v) d)"
| "encodable env n _ = True"

fun separated :: "token \<Rightarrow> token list list \<Rightarrow> token list" where
  "separated t [] = []"
| "separated t [x] = x"
| "separated t (x # y # xs) = x @ t # separated t (y # xs)"

fun tokens_of :: "json \<Rightarrow> token list" where
  "tokens_of (JInt i) = [TNum (int_str i) False]"
| "tokens_of (JFloat r n) = [TNum r True]"
| "tokens_of (JStr s) = [TStr s]"
| "tokens_of (JList xs) =
     TPunct (CHR ''['') # separated (TPunct (CHR '','')) (map tokens_of xs) @ [TPunct (CHR '']'')]"
| "tokens_of (JDict d) = TPunct (CHR ''{'') #
     separated (TPunct (CHR '','')) (map (\<lambda>(k, v). TStr k # TPunct (CHR '':'') # tokens_of v) d) @
     [TPunct (CHR ''}'')]"
| "tokens_of v = [TConst v]"

lemma hex_digit_value [simp]: "n < 16 \<Longrightarrow> hex_digit_value (hex_digit n) = Some n"
  by (simp add: hex_digit_value_def hex_digit_def Let_def)

lemma hex4_escape: "hex4 (CHR ''0'') (CHR ''0'') (hex_digit (of_char c div 16)) (hex_digit (of_char c mod 16)) =
    Some (of_char c)"
proof -
  have "(of_char c :: nat) div 16 < 16" by (simp add: div_less_iff_less_mult)
  moreover have "hex_digit_value (CHR ''0'') = Some 0" by (simp add: hex_digit_value_def)
  ultimately show ?thesis by (simp add: hex4_def)
qed

lemma read_escape_char:
  assumes "escape_char c = backslash # e" shows "read_escape (e @ r) = Some ([c], r)"
proof -
  have "(of_char c :: nat) < 256" by simp
  then have small: "\<not> 55296 \<le> (of_char c :: nat)" by linarith
  have code: "char_of k = c" if "(of_char c :: nat) = k" for k :: nat
    using that by auto
  show ?thesis using assms small
    by (auto simp: escape_char_def Let_def read_escape_def simple_escape_def hex4_escape join_surrogates_def
        code_text_def intro: code split: if_splits)
qed

lemma escape_char_cases:
  obtains (raw) "escape_char c = [c]" "c \<noteq> dquote" "c \<noteq> backslash" "\<not> (of_char c :: nat) < 32"
    | (escaped) e where "escape_char c = backslash # e"
proof (cases "escape_char c = [c] \<and> c \<noteq> dquote \<and> c \<noteq> backslash \<and> \<not> (of_char c :: nat) < 32")
  case False
  then have "\<exists>e. escape_char c = backslash # e"
    by (auto simp: escape_char_def Let_def split: if_splits)
  with escaped show ?thesis by blast
qed (use raw in blast)

lemma scan_escaped: "scan_string (concat (map escape_char s) @ dquote # r) = Some (s, r)"
proof (induction s)
  case (Cons c s)
  show ?case
  proof (cases c rule: escape_char_cases)
    case raw
    with Cons show ?thesis by simp
  next
    case (escaped e)
    with Cons read_escape_char [OF escaped] show ?thesis by simp
  qed
qed simp

lemma scan_quoted: "scan_token (quoted s @ r) = Some (TStr s, r)"
  by (simp add: scan_token_def quoted_def scan_escaped)

lemma nat_str_leading: "n > 0 \<Longrightarrow> hd (nat_str n) \<noteq> CHR ''0''"
proof (induction n rule: nat_str.induct)
  case (1 n)
  show ?case
  proof (cases "n < 10")
    case True
    then have "(of_char (digit n) :: nat) = 48 + n" by (simp add: digit_def)
    then have "digit n \<noteq> CHR ''0''" using 1(2) by auto
    with True show ?thesis by (simp add: nat_str.simps [of n])
  next
    case False
    with 1 show ?thesis by (simp add: nat_str.simps [of n])
  qed
qed

text \<open>What may follow a numeral.\<close>

definition ends_number :: "string \<Rightarrow> bool" where
  "ends_number r \<longleftrightarrow> (case r of [] \<Rightarrow> True | c # _ \<Rightarrow> \<not> is_digit c \<and> c \<notin> {CHR ''.'', CHR ''e'', CHR ''E''})"

lemma digits_of_nat_str: "ends_number r \<Longrightarrow> digits_of (nat_str n @ r) = (nat_str n, r)"
proof -
  assume "ends_number r"
  then have "takeWhile is_digit r = []" "dropWhile is_digit r = r"
    by (auto simp: ends_number_def split: list.splits)
  then show ?thesis
    using nat_str_digits [of _ n] by (simp add: digits_of_def takeWhile_append2 dropWhile_append2)
qed

lemma scan_int_nat_str: "ends_number r \<Longrightarrow> scan_int (nat_str n @ r) = Some (nat_str n, r)"
proof (cases "n = 0")
  case True
  have "char_of (48 :: nat) = CHR ''0''" by code_simp
  with True show ?thesis by (simp add: scan_int_def nat_str.simps digit_def del: char_of_def)
next
  case False
  assume e: "ends_number r"
  obtain c cs where n: "nat_str n = c # cs" by (cases "nat_str n") auto
  then have "is_digit c" "c \<noteq> CHR ''0''"
    using nat_str_ends(1) [of n] nat_str_leading [of n] False by auto
  then show ?thesis using digits_of_nat_str [OF e, of n] n by (simp add: scan_int_def)
qed

lemma ends_number_scans: "ends_number r \<Longrightarrow> scan_frac r = ([], r) \<and> scan_exp r = ([], r)"
  by (auto simp: ends_number_def scan_frac_def scan_exp_def split: list.splits)

lemma digit_char: "is_digit c \<Longrightarrow> c \<notin> set ''{}[],:nNtfI-'' \<and> c \<noteq> dquote \<and> \<not> is_json_space c"
  by (auto simp: is_digit_def is_json_space_def)

lemma scan_int_str:
  assumes "ends_number r" shows "scan_token (int_str i @ r) = Some (TNum (int_str i) False, r)"
proof -
  define n where "n = nat (if i < 0 then - i else i)"
  obtain c cs where n: "nat_str n = c # cs" by (cases "nat_str n") auto
  then have d: "is_digit c" using nat_str_ends(1) [of n] by simp
  have parts: "scan_int (c # cs @ r) = Some (nat_str n, r)" "scan_frac r = ([], r)" "scan_exp r = ([], r)"
    using scan_int_nat_str [OF assms, of n] ends_number_scans [OF assms] n by simp_all
  show ?thesis
  proof (cases "i < 0")
    case True
    then have "int_str i = CHR ''-'' # c # cs" using n by (simp add: int_str_def n_def)
    then show ?thesis using parts n digit_char [OF d]
      by (auto simp: scan_token_def scan_constant_def constants_def startswith_def scan_number_def Let_def)
  next
    case False
    then have "int_str i = c # cs" using n by (simp add: int_str_def n_def)
    then show ?thesis using parts n digit_char [OF d]
      by (auto simp: scan_token_def scan_constant_def constants_def startswith_def scan_number_def Let_def)
  qed
qed

lemma lex_token: "scan_token s = Some (t, r) \<Longrightarrow> \<not> is_json_space (hd s) \<Longrightarrow> lex s = t # lex r"
  by (cases s) (auto simp: scan_token_def)

lemma lex_punct: "c \<in> set ''{}[],:'' \<Longrightarrow> lex (c # r) = TPunct c # lex r"
  by (rule lex_token) (auto simp: scan_token_def is_json_space_def)

lemma lex_space: "is_json_space c \<Longrightarrow> lex (c # r) = lex r"
  by simp

lemma lex_quoted: "lex (quoted s @ r) = TStr s # lex r"
  by (rule lex_token [OF scan_quoted]) (simp add: quoted_def is_json_space_def)

lemma lex_int: "ends_number r \<Longrightarrow> lex (int_str i @ r) = TNum (int_str i) False # lex r"
proof (rule lex_token [OF scan_int_str])
  obtain c cs where "nat_str (nat i) = c # cs" by (cases "nat_str (nat i)") auto
  moreover from this have "is_digit c" using nat_str_ends(1) [of "nat i"] by simp
  ultimately show "\<not> is_json_space (hd (int_str i @ r))"
    using digit_char [of c] by (auto simp: int_str_def is_json_space_def)
qed

lemma lex_const:
  "lex (''null'' @ r) = TConst JNull # lex r" "lex (''true'' @ r) = TConst (JBool True) # lex r"
  "lex (''false'' @ r) = TConst (JBool False) # lex r"
  by (rule lex_token; simp add: scan_token_def scan_constant_def constants_def startswith_def is_json_space_def)+

declare lex.simps [simp del]

text \<open>A comma separated sequence, in the text and in the tokens.\<close>

lemma lex_joined:
  assumes items: "\<And>x r. x \<in> set xs \<Longrightarrow> ends_number r \<Longrightarrow> lex (f x @ r) = g x @ lex r"
    and r: "ends_number r"
  shows "lex (join '', '' (map f xs) @ r) = separated (TPunct (CHR '','')) (map g xs) @ lex r"
  using items
proof (induction xs rule: induct_list012)
  case (3 x y xs)
  let ?rest = "join '', '' (map f (y # xs)) @ r"
  have "ends_number ('', '' @ ?rest)" by (simp add: ends_number_def is_digit_def)
  then have "lex (f x @ '', '' @ ?rest) = g x @ lex ('', '' @ ?rest)" using "3.prems" by simp
  also have "lex ('', '' @ ?rest) = TPunct (CHR '','') # lex ?rest"
    by (simp add: lex_punct lex_space is_json_space_def)
  finally show ?case using "3.IH"(2) "3.prems" by simp
qed (use r in auto)

lemma lex_dumps:
  assumes "encodable env n v" and "ends_number r"
  shows "lex (dumps v @ r) = tokens_of v @ lex r"
  using assms
proof (induction env n v arbitrary: r rule: encodable.induct)
  case (2 env n i)
  then show ?case by (simp add: lex_int)
next
  case (3 env n xs)
  have "ends_number ('']'' @ r)" by (simp add: ends_number_def is_digit_def)
  moreover have "lex (dumps x @ q) = tokens_of x @ lex q" if "x \<in> set xs" "ends_number q" for x q
    using 3 that by (auto simp: list_all_iff)
  ultimately have "lex (join '', '' (map dumps xs) @ '']'' @ r) =
      separated (TPunct (CHR '','')) (map tokens_of xs) @ lex ('']'' @ r)"
    by (intro lex_joined) auto
  then show ?case by (simp add: lex_punct)
next
  case (4 env n d)
  have "ends_number (''}'' @ r)" by (simp add: ends_number_def is_digit_def)
  moreover have "lex ((case p of (k, v) \<Rightarrow> quoted k @ '': '' @ dumps v) @ q) =
      (case p of (k, v) \<Rightarrow> TStr k # TPunct (CHR '':'') # tokens_of v) @ lex q"
    if p: "p \<in> set d" "ends_number q" for p q
  proof -
    obtain k v where kv: "p = (k, v)" by (cases p)
    then have "encodable env (Suc n) v" using "4.prems"(1) p(1) by (auto simp: list_all_iff)
    then have "lex (dumps v @ q) = tokens_of v @ lex q" using "4.IH" [OF p(1) kv [symmetric]] p(2) by blast
    then show ?thesis using kv by (simp add: lex_quoted lex_punct lex_space is_json_space_def)
  qed
  ultimately have "lex (join '', '' (map (\<lambda>(k, v). quoted k @ '': '' @ dumps v) d) @ ''}'' @ r) =
      separated (TPunct (CHR '','')) (map (\<lambda>(k, v). TStr k # TPunct (CHR '':'') # tokens_of v) d) @
        lex (''}'' @ r)"
    by (intro lex_joined) auto
  then show ?case by (simp add: lex_punct)
qed (use lex_const lex_quoted in auto)

lemma dict_set_new: "k \<notin> fst ` set d \<Longrightarrow> dict_set k v d = d @ [(k, v)]"
  by (induction d) auto

lemma tokens_of_hd: "\<exists>t ts. tokens_of v = t # ts \<and> t \<noteq> TPunct (CHR '']'')"
  by (cases v) auto

lemma element_first:
  "decode_tokens env (tokens_of v @ ts) (ElementOrClose, st) = decode_tokens env (tokens_of v @ ts) (Value, InList [] # st)"
  using tokens_of_hd [of v] by (auto simp: decode_step_def)

lemma decode_list:
  assumes "\<And>x ts acc. x \<in> set xs \<Longrightarrow> decode_tokens env (tokens_of x @ ts) (Value, InList acc # st) =
      decode_tokens env ts (Complete x, InList acc # st)" and "xs \<noteq> []"
  shows "decode_tokens env (separated (TPunct (CHR '','')) (map tokens_of xs) @ TPunct (CHR '']'') # ts)
      (Value, InList acc # st) = decode_tokens env ts (Complete (JList (rev acc @ xs)), st)"
  using assms
proof (induction xs arbitrary: acc rule: induct_list012)
  case (2 x)
  then show ?case by (simp add: decode_step_def close_or_next_def)
next
  case (3 x y xs)
  have "decode_tokens env (separated (TPunct (CHR '','')) (map tokens_of (y # xs)) @ TPunct (CHR '']'') # ts)
      (Value, InList (x # acc) # st) = decode_tokens env ts (Complete (JList (rev (x # acc) @ y # xs)), st)"
    by (rule "3.IH"(2)) (use "3.prems" in auto)
  then show ?case using "3.prems"(1) [of x] by (simp add: decode_step_def close_or_next_def)
qed simp

lemma decode_dict:
  assumes "\<And>k v ts d'. (k, v) \<in> set d \<Longrightarrow> decode_tokens env (tokens_of v @ ts) (Value, InDict d' k # st) =
      decode_tokens env ts (Complete v, InDict d' k # st)"
    and "d \<noteq> []" and "distinct (map fst (d0 @ d))"
  shows "decode_tokens env (separated (TPunct (CHR '',''))
        (map (\<lambda>(k, v). TStr k # TPunct (CHR '':'') # tokens_of v) d) @ TPunct (CHR ''}'') # ts) (Key d0, st) =
      decode_tokens env ts (Complete (JDict (d0 @ d)), st)"
  using assms
proof (induction d arbitrary: d0 rule: induct_list012)
  case (2 p)
  then show ?case by (cases p) (auto simp: decode_step_def close_or_next_def dict_set_new)
next
  case (3 p q d)
  obtain k v where p: "p = (k, v)" by (cases p)
  have "decode_tokens env (separated (TPunct (CHR '',''))
        (map (\<lambda>(k, v). TStr k # TPunct (CHR '':'') # tokens_of v) (q # d)) @ TPunct (CHR ''}'') # ts) (Key (d0 @ [p]), st) =
      decode_tokens env ts (Complete (JDict ((d0 @ [p]) @ q # d)), st)"
    by (rule "3.IH"(2)) (use "3.prems" in auto)
  moreover have "dict_set k v d0 = d0 @ [(k, v)]" using "3.prems"(3) p by (intro dict_set_new) auto
  ultimately show ?case using "3.prems"(1) p by (simp add: decode_step_def close_or_next_def)
qed simp

lemma decode_tokens_of:
  assumes "encodable env (length st) v"
  shows "decode_tokens env (tokens_of v @ ts) (Value, st) = decode_tokens env ts (Complete v, st)"
  using assms
proof (induction env "length st" v arbitrary: st ts rule: encodable.induct)
  case (2 env i)
  have "length (filter is_digit (int_str i)) \<le> INT_MAX_DIGITS"
    using length_filter_le [of is_digit "int_str i"] 2 by (metis encodable.simps(2) order.trans)
  then show ?case by (simp add: decode_step_def open_frame_def number_value_def)
next
  case (3 env xs)
  have inner: "decode_tokens env (tokens_of x @ q) (Value, InList acc # st) = decode_tokens env q (Complete x, InList acc # st)"
    if "x \<in> set xs" for x q acc
    using 3 that by (auto simp: list_all_iff)
  show ?case
  proof (cases xs)
    case Nil
    with 3 show ?thesis by (simp add: decode_step_def open_frame_def)
  next
    case (Cons x ys)
    let ?t = "separated (TPunct (CHR '','')) (map tokens_of xs) @ TPunct (CHR '']'') # ts"
    have split: "?t = tokens_of x @ drop (length (tokens_of x)) ?t" using Cons by (cases ys) auto
    have "decode_tokens env (tokens_of (JList xs) @ ts) (Value, st) = decode_tokens env ?t (ElementOrClose, st)"
      using "3.prems" by (simp add: decode_step_def open_frame_def)
    also have "\<dots> = decode_tokens env ?t (Value, InList [] # st)"
      by (subst (1 2) split) (rule element_first)
    also have "\<dots> = decode_tokens env ts (Complete (JList xs), st)"
      using decode_list [OF inner, of xs ts "[]"] Cons by simp
    finally show ?thesis .
  qed
next
  case (4 env d)
  have inner: "decode_tokens env (tokens_of v @ q) (Value, InDict d' k # st) = decode_tokens env q (Complete v, InDict d' k # st)"
    if "(k, v) \<in> set d" for k v q d'
    using 4 that by (auto simp: list_all_iff)
  show ?case
  proof (cases d)
    case Nil
    with 4 show ?thesis by (simp add: decode_step_def open_frame_def)
  next
    case (Cons p ps)
    let ?t = "separated (TPunct (CHR '','')) (map (\<lambda>(k, v). TStr k # TPunct (CHR '':'') # tokens_of v) d) @
      TPunct (CHR ''}'') # ts"
    have "\<exists>k r. ?t = TStr k # r" using Cons by (cases p; cases ps) auto
    then have "decode_tokens env ?t (KeyOrClose, st) = decode_tokens env ?t (Key [], st)"
      by (auto simp: decode_step_def)
    moreover have "decode_tokens env (tokens_of (JDict d) @ ts) (Value, st) = decode_tokens env ?t (KeyOrClose, st)"
      using "4.prems" by (simp add: decode_step_def open_frame_def)
    ultimately show ?thesis
      using decode_dict [of d env st "[]" ts] inner Cons "4.prems" by simp
  qed
qed (simp_all add: decode_step_def open_frame_def)

text \<open>The encoder writes printable ASCII only.\<close>

definition printable :: "char \<Rightarrow> bool" where
  "printable c \<longleftrightarrow> (let n = (of_char c :: nat) in 32 \<le> n \<and> n < 127)"

lemma printable_hex: "n < 16 \<Longrightarrow> printable (hex_digit n)"
  by (simp add: printable_def hex_digit_def)

lemma printable_quoted: "c \<in> set (quoted s) \<Longrightarrow> printable c"
proof -
  have "printable x" if "x \<in> set (escape_char c)" for x c
  proof -
    have "printable (hex_digit (of_char c div 16))" "printable (hex_digit (of_char c mod 16))"
      by (auto intro!: printable_hex simp: div_less_iff_less_mult)
    then show ?thesis using that
      by (auto simp: escape_char_def Let_def split: if_splits) (simp_all add: printable_def)
  qed
  then show "c \<in> set (quoted s) \<Longrightarrow> printable c" by (auto simp: quoted_def) (simp_all add: printable_def)
qed

lemma set_join: "c \<in> set (join sep xs) \<Longrightarrow> c \<in> set sep \<or> (\<exists>x \<in> set xs. c \<in> set x)"
  by (induction sep xs rule: join.induct) auto

lemma printable_dumps: "encodable env n v \<Longrightarrow> c \<in> set (dumps v) \<Longrightarrow> printable c"
proof (induction env n v arbitrary: c rule: encodable.induct)
  case (2 env n i)
  have "printable x" if "x \<in> set (nat_str k)" for x k
    using nat_str_digits [OF that] by (simp add: is_digit_def printable_def Let_def)
  with 2 show ?case by (auto simp: int_str_def printable_def split: if_splits)
next
  case (3 env n xs)
  then show ?case by (auto simp: list_all_iff dest!: set_join) (auto simp: printable_def)
next
  case (4 env n d)
  then have "c \<in> set ''{}, :'' \<or> (\<exists>k v. (k, v) \<in> set d \<and> (c \<in> set (quoted k) \<or> c \<in> set (dumps v)))"
    by (auto dest!: set_join)
  moreover have "printable c" if "c \<in> set ''{}, :''" using that by (auto simp: printable_def)
  moreover have "printable c" if "(k, v) \<in> set d" "c \<in> set (dumps v)" for k v
    using that 4 by (auto simp: list_all_iff)
  ultimately show ?case using printable_quoted by blast
qed (auto dest: printable_quoted split: if_splits, auto simp: printable_def)

lemma dumps_nonempty: "encodable env n v \<Longrightarrow> dumps v \<noteq> []"
  by (induction env n v rule: encodable.induct) (auto simp: int_str_def quoted_def)

lemma utf8_text_printable: "list_all printable s \<Longrightarrow> utf8_text pass s = Some s"
  by (induction s) (auto simp: printable_def Let_def)

lemma not_wide: "list_all printable s \<Longrightarrow> \<not> is_wide s \<and> \<not> startswith s byte_order_mark"
proof -
  assume p: "list_all printable s"
  have n: "c \<notin> {char_of (239::nat), char_of (254::nat), char_of (255::nat), char_of (0::nat), CHR 0x00}"
    if "printable c" for c
    using that by (auto simp: printable_def)
  show ?thesis
  proof (cases s)
    case (Cons a as)
    with p have "printable a" by simp
    from n [OF this] Cons have "\<not> startswith s byte_order_mark"
      "take 2 s \<notin> {map char_of [254::nat, 255], map char_of [255::nat, 254]}"
      "take 4 s \<noteq> map char_of [0::nat, 0, 254, 255]" "s ! 0 \<noteq> CHR 0x00"
      by (auto simp: startswith_def byte_order_mark_def simp del: char_of_def)
    moreover have "s ! 1 \<noteq> CHR 0x00" if "length s \<ge> 2"
      using n [of "s ! 1"] p that by (auto simp: list_all_length)
    ultimately show ?thesis by (auto simp: is_wide_def)
  qed (auto simp: is_wide_def startswith_def byte_order_mark_def)
qed

text \<open>
  Decoding what was encoded gives the value back, from text and from bytes: nothing that the encoder
  escapes is lost, and no limit of the decoder is met before the nesting the value has.
\<close>

theorem json_roundtrip:
  assumes "encodable env 0 v"
  shows "loads env (dumps v) = Ret v \<and> loads_bytes env (dumps v) = Ret v"
proof -
  have p: "list_all printable (dumps v)"
    using printable_dumps [OF assms] by (simp add: list_all_iff)
  have "lex (dumps v) = tokens_of v"
    using lex_dumps [OF assms, of "[]"] by (simp add: ends_number_def lex.simps)
  moreover have "decode_tokens env (tokens_of v) (Value, []) = Ret (Complete v, [])"
    using decode_tokens_of [of env "[]" v "[]"] assms by simp
  ultimately have "loads env (dumps v) = Ret v" using not_wide [OF p] by (simp add: loads_def)
  then show ?thesis using not_wide [OF p] utf8_text_printable [OF p, of True] by (simp add: loads_bytes_def)
qed

end
