(* ===== verification/Webhook.thy ===== *)
theory Webhook
  imports Security Tenancy Commands Throttling Json
begin

text \<open>
  The webhook route of \<^verbatim>\<open>src/app/main.py\<close>: everything that happens to a delivery, from the rate limiter
  to the acknowledgement, composed of the components it calls.

  A request is what the route reads of it, and a reply is status, headers and JSON body. An exception
  that leaves the route is a value too; the server answers it with a 500. The state of the service is
  the database, the job stream, the comments posted and the two limiters.
\<close>

section \<open>Requests, replies and the state of the service\<close>

record http_request =
  peer :: "string option"
  forwarded_for :: "string option"
  content_length :: "string option"
  body_chunks :: "string list"
  signature_header :: "string option"
  event_header :: "string option"
  authorization :: "string option"

record http_reply =
  reply_status :: int
  reply_headers :: "(string \<times> string) list"
  reply_body :: json

record service =
  sv_db :: database
  sv_stream :: "(string \<times> string) list list"
  sv_calls :: "gh_call list"
  webhook_limiter :: limiter
  mutation_limiter :: limiter

definition reply_with :: "int \<Rightarrow> (string \<times> json) list \<Rightarrow> http_reply" where
  "reply_with n fs = \<lparr>reply_status = n, reply_headers = [], reply_body = JDict fs\<rparr>"

definition detail_reply :: "int \<Rightarrow> string \<Rightarrow> http_reply" where
  "detail_reply n d = reply_with n [(''detail'', JStr d)]"

definition ignored_reply :: "string \<Rightarrow> http_reply" where
  "ignored_reply reason = reply_with 200 [(''status'', JStr ''ignored''), (''reason'', JStr reason)]"


section \<open>Dependencies: address, rate limit, body\<close>

definition client_ip :: "settings \<Rightarrow> http_request \<Rightarrow> string option" where
  "client_ip s r = map_option (\<lambda>p. resolve_client_ip p (forwarded_for r) (trusted_proxy_list s)) (peer r)"

definition limiter_key :: "settings \<Rightarrow> http_request \<Rightarrow> string" where
  "limiter_key s r = (case client_ip s r of
       Some a \<Rightarrow> if a = [] then ''unknown'' else a
     | None \<Rightarrow> ''unknown'')"

text \<open>The dependency that enforces a limiter: \<open>Some\<close> reply ends the request.\<close>

definition rate_limit :: "settings \<Rightarrow> rat \<Rightarrow> http_request \<Rightarrow> limiter \<Rightarrow> limiter \<times> http_reply option" where
  "rate_limit s t r l =
     (if \<not> rate_limit_enabled s then (l, None)
      else (case allow l (limiter_key s r) t of
          (l', allowed, retry_after) \<Rightarrow>
            (l', if allowed then None
                 else Some ((detail_reply 429 ''rate limit exceeded'')
                   \<lparr>reply_headers := [(''Retry-After'', int_str retry_after)]\<rparr>))))"

text \<open>
  \<open>str.isdigit\<close> also holds of superscript digits, which \<open>int\<close> refuses: a declared length made of them
  raises.
\<close>

definition py_isdigit :: "string \<Rightarrow> bool" where
  "py_isdigit s \<longleftrightarrow> s \<noteq> [] \<and> list_all (\<lambda>c. is_digit c \<or> (of_char c :: nat) \<in> {178, 179, 185}) s"

fun read_chunks :: "int \<Rightarrow> int \<Rightarrow> string list \<Rightarrow> string list \<Rightarrow> http_reply + string" where
  "read_chunks limit got [] chunks = Inr (concat chunks)"
| "read_chunks limit got (c # cs) chunks =
     (let got = got + int (length c) in
      if got > limit then Inl (detail_reply 413 ''payload too large'')
      else read_chunks limit got cs (chunks @ [c]))"

definition read_body_with_limit :: "int \<Rightarrow> http_request \<Rightarrow> (http_reply + string) res" where
  "read_body_with_limit limit r =
     rbind (case content_length r of
         Some d \<Rightarrow> if py_isdigit d then rbind (json_int (JStr d)) (\<lambda>n. Ret (n > limit)) else Ret False
       | None \<Rightarrow> Ret False)
       (\<lambda>declared. Ret (if declared then Inl (detail_reply 413 ''payload too large'')
                        else read_chunks limit 0 (body_chunks r) []))"


section \<open>The route\<close>

text \<open>The verified and parsed body, or the reply that refuses it.\<close>

definition webhook_payload :: "settings \<Rightarrow> json_env \<Rightarrow> http_request \<Rightarrow> (http_reply + json) res" where
  "webhook_payload s env r = rbind (read_body_with_limit (max_webhook_bytes s) r) (\<lambda>b. case b of
       Inl rep \<Rightarrow> Ret (Inl rep)
     | Inr raw \<Rightarrow>
         rbind (verify_signature (webhook_secret s) raw (signature_header r)) (\<lambda>valid.
           if \<not> valid then Ret (Inl (detail_reply 401 ''invalid signature''))
           else (case loads_bytes env (if raw = [] then ''{}'' else raw) of
               Inr v \<Rightarrow> Ret (Inr v)
             | Inl e \<Rightarrow> if exc_class e = JSONDecodeError then Ret (Inl (detail_reply 400 ''invalid json''))
                        else Raise e)))"

definition handled_fields :: "handled \<Rightarrow> (string \<times> json) list" where
  "handled_fields h = (case h of
       Ignored reason \<Rightarrow> [(''status'', JStr ''ignored''), (''reason'', JStr reason)]
     | Errored reason \<Rightarrow> [(''status'', JStr ''error''), (''reason'', JStr reason)]
     | Replied u \<Rightarrow> [(''status'', JStr ''replied''), (''url'', JStr u)]
     | ExecutedBy i u actor \<Rightarrow> [(''status'', JStr ''executed''), (''decision_id'', JInt i), (''url'', JStr u),
         (''actor'', JStr actor)]
     | ActionFailed i d \<Rightarrow> [(''status'', JStr ''action_failed''), (''decision_id'', JInt i), (''detail'', JStr d)]
     | RejectedBy i actor \<Rightarrow> [(''status'', JStr ''rejected''), (''decision_id'', JInt i), (''actor'', JStr actor)])"

definition webhook_tenancy :: "int \<Rightarrow> string \<Rightarrow> json \<Rightarrow> service \<Rightarrow> service \<times> http_reply res" where
  "webhook_tenancy now event payload sv =
     (let done = (\<lambda>st. reply_with 200 [(''status'', JStr ''ok''), (''tenancy'', JStr st)]) in
      case jget_or payload ''action'' (JStr []) of
        Inl e \<Rightarrow> (sv, Raise e)
      | Inr act \<Rightarrow>
          if event = ''installation'' then
            (case apply_event now (sv_db sv) (json_str act) payload of
               Inl e \<Rightarrow> (sv, Raise e)
             | Inr (db, st) \<Rightarrow> (sv\<lparr>sv_db := db\<rparr>, Ret (done st)))
          else
            (case apply_repositories_event now (sv_db sv) payload of
               (db, Inl e) \<Rightarrow> (sv\<lparr>sv_db := db\<rparr>, Raise e)
             | (db, Inr st) \<Rightarrow> (sv\<lparr>sv_db := db\<rparr>, Ret (done st))))"

text \<open>The name for the log line is read after the command has run.\<close>

definition webhook_comment ::
    "settings \<Rightarrow> int \<Rightarrow> app_auth option \<Rightarrow> json \<Rightarrow> service \<Rightarrow> service \<times> http_reply res" where
  "webhook_comment s now auth payload sv =
     (case handle_issue_comment s now auth payload \<lparr>wdb = sv_db sv, calls = sv_calls sv\<rparr> of
        (w, r) \<Rightarrow> (sv\<lparr>sv_db := wdb w, sv_calls := calls w\<rparr>,
          rbind r (\<lambda>h. rbind (jget_dict payload ''repository'') (\<lambda>rp. rbind (jget rp ''full_name'') (\<lambda>_.
            Ret (reply_with 200 (handled_fields h)))))))"

text \<open>Enrolment of the tenant that delivers work: the database, and whether it may go on.\<close>

definition enrol :: "settings \<Rightarrow> int \<Rightarrow> json \<Rightarrow> pr_payload \<Rightarrow> database \<Rightarrow> (database \<times> bool) res" where
  "enrol s now payload p db = (case pl_installation_id p of
       None \<Rightarrow> Ret (db, True)
     | Some i \<Rightarrow>
         if multi_tenant_enabled s then
           rbind (jget_dict payload ''installation'') (\<lambda>inst. rbind (upsert now db inst) (\<lambda>(db', _).
             Ret (db', get_active db' i \<noteq> None)))
         else Ret (db, True))"

definition quota_reply :: "string \<Rightarrow> http_reply" where
  "quota_reply reason = (reply_with 429 [(''detail'', JStr ''quota exceeded''), (''reason'', JStr reason)])
     \<lparr>reply_headers := [(''Retry-After'', ''60'')]\<rparr>"

definition accept_job ::
    "settings \<Rightarrow> int \<Rightarrow> xadd \<Rightarrow> string \<Rightarrow> pr_payload \<Rightarrow> service \<Rightarrow> service \<times> http_reply res" where
  "accept_job s now xadd cid p sv =
     (case ingest now xadd cid p \<lparr>idb = sv_db sv, stream = sv_stream sv\<rparr> of
        (w, r) \<Rightarrow> (sv\<lparr>sv_db := idb w, sv_stream := stream w\<rparr>,
          (case r of
             Inr res \<Rightarrow> Ret (reply_with 200
               [(''status'', JStr (if ing_created res then ''queued'' else ''duplicate'')),
                (''job_id'', JInt (ing_job_id res))])
           | Inl e \<Rightarrow> if exc_class e = RedisError then Ret (detail_reply 503 ''queue temporarily unavailable'')
                      else Raise e)))"

definition webhook_job ::
    "settings \<Rightarrow> int \<Rightarrow> xadd \<Rightarrow> string \<Rightarrow> json \<Rightarrow> pr_payload \<Rightarrow> service \<Rightarrow> service \<times> http_reply res" where
  "webhook_job s now xadd cid payload p sv =
     (case enrol s now payload p (sv_db sv) of
        Inl e \<Rightarrow> (sv, Raise e)
      | Inr (db, active) \<Rightarrow>
          (let sv = sv\<lparr>sv_db := db\<rparr> in
           if \<not> active then (sv, Ret (ignored_reply ''installation_inactive''))
           else (case repo_is_allowed s (pl_repo p) of
               Inl e \<Rightarrow> (sv, Raise e)
             | Inr allowed \<Rightarrow>
                 if \<not> allowed then (sv, Ret (ignored_reply ''repo_not_allowed''))
                 else
                   (case (if dedup_exists db (payload_dedup_key p) then None
                          else quota_reason s now db (json_str (pl_repo p)) (pl_installation_id p)) of
                      Some reason \<Rightarrow> (sv, Ret (quota_reply reason))
                    | None \<Rightarrow> accept_job s now xadd cid p sv))))"

definition webhook_event ::
    "settings \<Rightarrow> int \<Rightarrow> app_auth option \<Rightarrow> xadd \<Rightarrow> string \<Rightarrow> string option \<Rightarrow> json \<Rightarrow> service \<Rightarrow>
     service \<times> http_reply res" where
  "webhook_event s now auth xadd cid event payload sv =
     (if event = Some ''installation'' \<or> event = Some ''installation_repositories''
      then webhook_tenancy now (the event) payload sv
      else if event = Some ''issue_comment'' then webhook_comment s now auth payload sv
      else (case parse_event (case event of None \<Rightarrow> ''pull_request''
                    | Some ev \<Rightarrow> if ev = [] then ''pull_request'' else ev) payload of
          Inl e \<Rightarrow> (sv, Raise e)
        | Inr None \<Rightarrow> (sv, Ret (reply_with 200 [(''status'', JStr ''ignored''),
            (''event'', case event of None \<Rightarrow> JNull | Some ev \<Rightarrow> JStr ev)]))
        | Inr (Some p) \<Rightarrow> webhook_job s now xadd cid payload p sv))"

text \<open>
  The whole request. \<open>queue_up\<close> says whether the queue was reachable when the process started.
\<close>

definition webhook ::
    "settings \<Rightarrow> json_env \<Rightarrow> int \<Rightarrow> rat \<Rightarrow> bool \<Rightarrow> app_auth option \<Rightarrow> xadd \<Rightarrow> string \<Rightarrow> http_request \<Rightarrow> service \<Rightarrow>
     service \<times> http_reply res" where
  "webhook s env now t queue_up auth xadd cid r sv =
     (case rate_limit s t r (webhook_limiter sv) of
        (l, refused) \<Rightarrow>
          (let sv = sv\<lparr>webhook_limiter := l\<rparr> in
           case refused of
             Some rep \<Rightarrow> (sv, Ret rep)
           | None \<Rightarrow>
               if \<not> queue_up then (sv, Ret (detail_reply 503 ''job queue unavailable''))
               else (case webhook_payload s env r of
                   Inl e \<Rightarrow> (sv, Raise e)
                 | Inr (Inl rep) \<Rightarrow> (sv, Ret rep)
                 | Inr (Inr payload) \<Rightarrow> webhook_event s now auth xadd cid (event_header r) payload sv)))"


section \<open>The tables stay well formed\<close>

lemma wf_approve_command [wf_intros]:
  assumes "wf_db (wdb w)" shows "wf_db (wdb (fst (approve_command now client row rp pr actor w)))"
proof -
  have c: "wf_db (fst (claim_approval now (wdb w) (dec_id row)))" using assms by (rule wf_claim)
  obtain db o1 oc where claim: "claim_approval now (wdb w) (dec_id row) = (db, o1, oc)"
    by (cases "claim_approval now (wdb w) (dec_id row)")
  have wf: "wf_db db" using c claim by simp
  have ex: "wdb w' = db" if "execute_decision (Some client) p x y (w\<lparr>wdb := db\<rparr>) = (w', r)" for p x y w' r
    using execute_decision_db [of "Some client" p x y "w\<lparr>wdb := db\<rparr>"] that by simp
  have rep: "wdb w' = wdb v" if "reply client rp pr b v = (w', r)" for b v w' r
    using reply_db [of client rp pr b v] that by simp
  show ?thesis using wf
    by (auto simp: approve_command_def claim Let_def wf_marks dest!: ex rep split: option.split sum.split prod.split)
qed

lemma wf_reject_command [wf_intros]:
  assumes "wf_db (wdb w)" shows "wf_db (wdb (fst (reject_command now client row rp pr actor w)))"
  using wf_reject [OF assms, of now "dec_id row"]
  by (auto simp: reject_command_def Let_def split: option.split prod.split)

lemma wf_run_command [wf_intros]:
  assumes "wf_db (wdb w)" shows "wf_db (wdb (fst (run_command now client cmd rp pr inst actor w)))"
  using assms by (auto simp: run_command_def wf_approve_command wf_reject_command split: option.split)

lemma wf_authorised [wf_intros]:
  assumes "wf_db (wdb w)" shows "wf_db (wdb (fst (authorised now au cmd rp pr inst actor w)))"
  using assms by (auto simp: authorised_def wf_run_command split: sum.split)

lemma wf_issue_comment [wf_intros]:
  assumes "wf_db (wdb w)" shows "wf_db (wdb (fst (handle_issue_comment s now auth payload w)))"
  using assms by (auto simp: handle_issue_comment_def wf_authorised split: sum.split option.split)

lemma wf_upsert: "wf_db db \<Longrightarrow> upsert now db inst = Ret (db', row) \<Longrightarrow> wf_db db'"
  unfolding upsert_def by (rule wf_upsert_at)

lemma wf_apply_event: "wf_db db \<Longrightarrow> apply_event now db act payload = Ret (db', st) \<Longrightarrow> wf_db db'"
proof -
  have act: "wf_db d \<Longrightarrow> apply_action now act r d = (db', st) \<Longrightarrow> wf_db db'" for d r
    using wf_apply_action [of d now act r] by simp
  show "wf_db db \<Longrightarrow> apply_event now db act payload = Ret (db', st) \<Longrightarrow> wf_db db'"
    by (auto simp: apply_event_def dest: wf_upsert act split: option.splits)
qed

lemma wf_apply_repositories_event [wf_intros]:
  "wf_db db \<Longrightarrow> wf_db (fst (apply_repositories_event now db payload))"
  by (auto simp: apply_repositories_event_def dest: wf_upsert split: sum.split option.split)

lemma wf_enrol: "wf_db db \<Longrightarrow> enrol s now payload p db = Ret (db', a) \<Longrightarrow> wf_db db'"
  by (auto simp: enrol_def dest: wf_upsert split: option.splits if_splits)

lemma wf_accept_job [wf_intros]:
  assumes "wf_db (sv_db sv)" shows "wf_db (sv_db (fst (accept_job s now x cid p sv)))"
  using wf_ingest [of "\<lparr>idb = sv_db sv, stream = sv_stream sv\<rparr>" now x cid p] assms
  by (auto simp: accept_job_def split: prod.split)

lemma wf_webhook_job [wf_intros]:
  assumes "wf_db (sv_db sv)" shows "wf_db (sv_db (fst (webhook_job s now x cid payload p sv)))"
  using assms by (auto simp: webhook_job_def Let_def wf_accept_job dest: wf_enrol
      split: sum.split option.split prod.split)

lemma wf_webhook_event [wf_intros]:
  assumes "wf_db (sv_db sv)" shows "wf_db (sv_db (fst (webhook_event s now auth x cid ev payload sv)))"
proof -
  have "wf_db (sv_db (fst (webhook_tenancy now e payload sv)))" for e
    using assms wf_apply_repositories_event [OF assms, of now payload]
    by (auto simp: webhook_tenancy_def Let_def dest: wf_apply_event split: sum.split prod.split)
  moreover have "wf_db (sv_db (fst (webhook_comment s now auth payload sv)))"
    using wf_issue_comment [of "\<lparr>wdb = sv_db sv, calls = sv_calls sv\<rparr>" s now auth payload] assms
    by (auto simp: webhook_comment_def split: prod.split)
  ultimately show ?thesis using assms
    by (auto simp: webhook_event_def wf_webhook_job split: sum.split option.split)
qed

lemma wf_webhook [wf_intros]:
  assumes "wf_db (sv_db sv)" shows "wf_db (sv_db (fst (webhook s env now t up auth x cid r sv)))"
  using assms by (auto simp: webhook_def Let_def wf_webhook_event split: sum.split option.split prod.split)

section \<open>What a delivery can do\<close>

lemma read_chunks_iff:
  "read_chunks limit got cs acc = Inr raw \<longleftrightarrow>
     raw = concat acc @ concat cs \<and> (cs = [] \<or> got + int (length (concat cs)) \<le> limit)"
proof (induction cs arbitrary: got acc)
  case (Cons c cs)
  have "got + int (length c) \<le> limit" if "got + int (length (concat (c # cs))) \<le> limit"
    using that by simp
  with Cons show ?case by (auto simp: Let_def)
qed auto

lemma compare_digest_True: "compare_digest a b = Ret True \<Longrightarrow> a = b"
  by (auto simp: compare_digest_def split: if_splits)

lemma verified: "verify_signature secret raw h = Ret True \<Longrightarrow> h = Some (compute_signature secret raw)"
  by (auto simp: verify_signature_def dest: compare_digest_True split: option.splits if_splits)

lemma read_body_whole:
  "read_body_with_limit limit r = Ret (Inr raw) \<longleftrightarrow>
    raw = concat (body_chunks r) \<and> (body_chunks r = [] \<or> int (length raw) \<le> limit) \<and>
    (case content_length r of None \<Rightarrow> True | Some d \<Rightarrow>
       if py_isdigit d then (case py_int d of None \<Rightarrow> False | Some n \<Rightarrow> n \<le> limit) else True)"
proof (cases "content_length r")
  case (Some d)
  then show ?thesis
    by (cases "py_isdigit d"; cases "py_int d")
      (auto simp: read_body_with_limit_def read_chunks_iff json_int_def)
qed (auto simp: read_body_with_limit_def read_chunks_iff)

lemma payload_verified:
  assumes "webhook_payload s env r = Ret (Inr v)"
  shows "signature_header r = Some (compute_signature (webhook_secret s) (concat (body_chunks r))) \<and>
    (body_chunks r = [] \<or> int (length (concat (body_chunks r))) \<le> max_webhook_bytes s) \<and>
    loads_bytes env (if concat (body_chunks r) = [] then ''{}'' else concat (body_chunks r)) = Ret v"
proof -
  obtain b where b: "read_body_with_limit (max_webhook_bytes s) r = Ret b"
    using assms unfolding webhook_payload_def by auto
  obtain raw where raw: "b = Inr raw"
    using assms b by (cases b) (auto simp: webhook_payload_def)
  obtain ok where ok: "verify_signature (webhook_secret s) raw (signature_header r) = Ret ok" "ok"
    using assms b raw by (auto simp: webhook_payload_def split: if_splits)
  have "loads_bytes env (if raw = [] then ''{}'' else raw) = Ret v"
    using assms b raw ok by (simp add: webhook_payload_def split: sum.splits if_splits)
  moreover have "signature_header r = Some (compute_signature (webhook_secret s) raw)"
    using ok by (simp add: verified)
  moreover have "raw = concat (body_chunks r)" "body_chunks r = [] \<or> int (length raw) \<le> max_webhook_bytes s"
    using b raw read_body_whole by auto
  ultimately show ?thesis by metis
qed

text \<open>
  C5. Only an authentic delivery has an effect: if handling a request changed the database, the job
  stream or GitHub, then its signature header is the HMAC of exactly the bytes that were read under
  the webhook secret, those bytes are within the size limit, the rate limiter admitted the caller and
  the queue was up.
\<close>

theorem webhook_authentic:
  assumes "webhook s env now t up auth x cid r sv = (sv', res)"
    and "sv_db sv' \<noteq> sv_db sv \<or> sv_stream sv' \<noteq> sv_stream sv \<or> sv_calls sv' \<noteq> sv_calls sv"
  shows "signature_header r = Some (compute_signature (webhook_secret s) (concat (body_chunks r))) \<and>
    (body_chunks r = [] \<or> int (length (concat (body_chunks r))) \<le> max_webhook_bytes s) \<and>
    snd (rate_limit s t r (webhook_limiter sv)) = None \<and> up"
proof -
  have "\<exists>v. webhook_payload s env r = Ret (Inr v)" "snd (rate_limit s t r (webhook_limiter sv)) = None" "up"
    using assms by (auto simp: webhook_def Let_def split: prod.splits option.splits if_splits sum.splits)
  then show ?thesis using payload_verified by blast
qed

text \<open>
  The body is buffered only up to the limit: it is read exactly when its chunks together stay
  within it and no larger length was declared, and then it is the whole body. The one length header
  that raises is one of superscript digits, which pass \<open>isdigit\<close> and not \<open>int\<close>.
\<close>

theorem read_body_bounded:
  assumes "0 \<le> limit"
  shows "read_body_with_limit limit r = Ret (Inr raw) \<longleftrightarrow>
    raw = concat (body_chunks r) \<and> int (length raw) \<le> limit \<and>
    (case content_length r of None \<Rightarrow> True | Some d \<Rightarrow>
       if py_isdigit d then (case py_int d of None \<Rightarrow> False | Some n \<Rightarrow> n \<le> limit) else True)"
  using assms by (auto simp: read_body_whole)


lemma accept_job_reply:
  assumes "wf_db (sv_db sv)" and "accept_job s now x cid p sv = (sv', Ret rep)"
  shows "(\<exists>i st j. rep = reply_with 200 [(''status'', JStr st), (''job_id'', JInt i)] \<and>
      find_job (sv_db sv') (payload_dedup_key p) = Some j \<and> job_id j = i \<and> job_status j \<noteq> JOB_PENDING) \<or>
    (\<exists>j. rep = detail_reply 503 ''queue temporarily unavailable'' \<and>
      find_job (sv_db sv') (payload_dedup_key p) = Some j \<and> job_status j = JOB_PENDING)"
proof -
  let ?w = "\<lparr>idb = sv_db sv, stream = sv_stream sv\<rparr>"
  obtain w r where run: "ingest now x cid p ?w = (w, r)" by (cases "ingest now x cid p ?w")
  then have db: "sv_db sv' = idb w" using assms(2) by (auto simp: accept_job_def)
  have wf: "wf_db (idb ?w)" using assms(1) by simp
  show ?thesis
  proof (cases r)
    case (Inl e)
    with assms(2) run have "exc_class e = RedisError" "rep = detail_reply 503 ''queue temporarily unavailable''"
      by (auto simp: accept_job_def split: if_splits)
    with ingest_error_state [OF wf] run Inl db show ?thesis by auto
  next
    case (Inr res)
    with assms(2) run have "\<exists>st. rep = reply_with 200 [(''status'', JStr st), (''job_id'', JInt (ing_job_id res))]"
      by (auto simp: accept_job_def)
    moreover obtain j where "find_job (idb w) (payload_dedup_key p) = Some j" "job_id j = ing_job_id res"
      "job_status j \<noteq> JOB_PENDING"
      using ingest_ok_state [OF wf, of now x cid p w res] run Inr by auto
    ultimately show ?thesis using db by metis
  qed
qed

text \<open>The reply that names a job, and the one that asks for a retry, both come from accepting a job.\<close>

definition is_job_reply :: "http_reply \<Rightarrow> bool" where
  "is_job_reply rep \<longleftrightarrow> (case reply_body rep of JDict d \<Rightarrow> map_of d ''job_id'' \<noteq> None | _ \<Rightarrow> False)"

definition is_retry_reply :: "http_reply \<Rightarrow> bool" where
  "is_retry_reply rep \<longleftrightarrow> rep = detail_reply 503 ''queue temporarily unavailable''"

lemma other_replies [simp]:
  "\<not> is_job_reply (detail_reply n d)" "\<not> is_job_reply (ignored_reply d)" "\<not> is_job_reply (quota_reply d)"
  "\<not> is_retry_reply (ignored_reply d)" "\<not> is_retry_reply (quota_reply d)"
  "\<not> is_retry_reply (reply_with 200 fs)"
  by (simp_all add: is_job_reply_def is_retry_reply_def detail_reply_def ignored_reply_def quota_reply_def reply_with_def)


lemma webhook_job_reply:
  assumes "wf_db (sv_db sv)" and "webhook_job s now x cid payload p sv = (sv', Ret rep)"
  shows "(is_job_reply rep \<longrightarrow> (\<exists>j st. reply_body rep = JDict [(''status'', JStr st), (''job_id'', JInt (job_id j))] \<and>
      find_job (sv_db sv') (payload_dedup_key p) = Some j \<and> job_status j \<noteq> JOB_PENDING)) \<and>
    (is_retry_reply rep \<longrightarrow>
      (\<exists>j. find_job (sv_db sv') (payload_dedup_key p) = Some j \<and> job_status j = JOB_PENDING))"
proof -
  have acc: "?thesis" if "accept_job s now x cid p (sv\<lparr>sv_db := db\<rparr>) = (sv', Ret rep)" "wf_db db" for db
    using accept_job_reply [OF _ that(1)] that(2)
    by (auto simp: reply_with_def is_retry_reply_def detail_reply_def is_job_reply_def)
  show ?thesis using assms acc
    by (auto simp: webhook_job_def Let_def dest: wf_enrol split: sum.splits prod.splits if_splits option.splits)
qed

lemma comment_not_job: "\<not> is_job_reply (reply_with 200 (handled_fields h))"
  by (cases h) (simp_all add: is_job_reply_def reply_with_def handled_fields_def)

lemma read_chunks_refuses: "read_chunks limit got cs acc = Inl rep \<Longrightarrow> rep = detail_reply 413 ''payload too large''"
  by (induction cs arbitrary: got acc) (auto simp: Let_def split: if_splits)

lemma payload_refused:
  assumes "webhook_payload s env r = Ret (Inl rep)"
  shows "\<exists>n d. rep = detail_reply n d \<and> n < 500"
proof -
  obtain b where b: "read_body_with_limit (max_webhook_bytes s) r = Ret b"
    using assms unfolding webhook_payload_def by auto
  show ?thesis
  proof (cases b)
    case (Inl rep')
    then have "rep' = detail_reply 413 ''payload too large''"
      using b by (auto simp: read_body_with_limit_def dest: read_chunks_refuses split: if_splits)
    moreover have "rep = rep'" using assms b Inl by (simp add: webhook_payload_def)
    ultimately show ?thesis by force
  next
    case (Inr raw)
    obtain ok where ok: "verify_signature (webhook_secret s) raw (signature_header r) = Ret ok"
      using assms b Inr by (auto simp: webhook_payload_def)
    show ?thesis
    proof (cases ok)
      case False
      with assms b Inr ok have "rep = detail_reply 401 ''invalid signature''" by (simp add: webhook_payload_def)
      then show ?thesis by force
    next
      case True
      with assms b Inr ok have "rep = detail_reply 400 ''invalid json''"
        by (simp add: webhook_payload_def split: sum.splits if_splits)
      then show ?thesis by force
    qed
  qed
qed

lemma tenancy_reply:
  "webhook_tenancy now ev payload sv = (sv', Ret rep) \<Longrightarrow>
     \<exists>st. rep = reply_with 200 [(''status'', JStr ''ok''), (''tenancy'', JStr st)]"
  by (auto simp: webhook_tenancy_def Let_def split: sum.splits if_splits prod.splits)

lemma comment_reply:
  "webhook_comment s now auth payload sv = (sv', Ret rep) \<Longrightarrow> \<exists>h. rep = reply_with 200 (handled_fields h)"
  by (auto simp: webhook_comment_def split: prod.splits)

lemma reply_200_not_retry: "\<not> is_retry_reply (reply_with 200 fs)"
  by simp

text \<open>A reply to an event that is no job is neither.\<close>

lemma event_reply:
  assumes "webhook_event s now auth x cid ev payload sv = (sv', Ret rep)"
  shows "(\<not> is_job_reply rep \<and> \<not> is_retry_reply rep) \<or>
    (\<exists>p. webhook_job s now x cid payload p sv = (sv', Ret rep))"
proof (cases "ev = Some ''installation'' \<or> ev = Some ''installation_repositories''")
  case True
  then obtain st where "rep = reply_with 200 [(''status'', JStr ''ok''), (''tenancy'', JStr st)]"
    using assms by (auto simp: webhook_event_def dest!: tenancy_reply)
  then show ?thesis by (simp add: is_job_reply_def is_retry_reply_def reply_with_def detail_reply_def)
next
  case tenancy: False
  show ?thesis
  proof (cases "ev = Some ''issue_comment''")
    case True
    then have "webhook_comment s now auth payload sv = (sv', Ret rep)"
      using assms by (simp add: webhook_event_def)
    then show ?thesis using comment_reply comment_not_job reply_200_not_retry by metis
  next
    case False
    let ?e = "case ev of None \<Rightarrow> ''pull_request'' | Some e \<Rightarrow> if e = [] then ''pull_request'' else e"
    have run: "(case parse_event ?e payload of Inl e \<Rightarrow> (sv, Raise e)
        | Inr None \<Rightarrow> (sv, Ret (reply_with 200 [(''status'', JStr ''ignored''),
            (''event'', case ev of None \<Rightarrow> JNull | Some e \<Rightarrow> JStr e)]))
        | Inr (Some p) \<Rightarrow> webhook_job s now x cid payload p sv) = (sv', Ret rep)"
      using assms tenancy False unfolding webhook_event_def by simp
    show ?thesis
    proof (cases "parse_event ?e payload")
      case (Inr q)
      with run show ?thesis
        by (cases q) (auto simp: is_job_reply_def is_retry_reply_def reply_with_def detail_reply_def)
    qed (use run in simp)
  qed
qed

lemma webhook_reply:
  assumes "webhook s env now t up auth x cid r sv = (sv', Ret rep)" and "is_job_reply rep \<or> is_retry_reply rep"
  shows "\<exists>payload p. webhook_job s now x cid payload p
    (sv\<lparr>webhook_limiter := fst (rate_limit s t r (webhook_limiter sv))\<rparr>) = (sv', Ret rep)"
proof -
  obtain l refused where rl: "rate_limit s t r (webhook_limiter sv) = (l, refused)" by fastforce
  let ?sv = "sv\<lparr>webhook_limiter := l\<rparr>"
  have small: "\<not> is_retry_reply (detail_reply n d)" if "n < 500" for n d
    using that by (auto simp: is_retry_reply_def detail_reply_def reply_with_def)
  have "refused = None"
    using assms rl by (auto simp: webhook_def rate_limit_def is_job_reply_def is_retry_reply_def detail_reply_def
        reply_with_def split: if_splits prod.splits)
  moreover have "up"
    using assms rl calculation by (auto simp: webhook_def Let_def is_retry_reply_def detail_reply_def reply_with_def
        is_job_reply_def split: if_splits)
  ultimately have run: "(case webhook_payload s env r of Inl e \<Rightarrow> (?sv, Raise e) | Inr (Inl rep) \<Rightarrow> (?sv, Ret rep)
      | Inr (Inr payload) \<Rightarrow> webhook_event s now auth x cid (event_header r) payload ?sv) = (sv', Ret rep)"
    using assms(1) rl by (simp add: webhook_def Let_def)
  show ?thesis
  proof (cases "webhook_payload s env r")
    case (Inr q)
    show ?thesis
    proof (cases q)
      case (Inl rep')
      then have "\<exists>n d. rep = detail_reply n d \<and> n < 500" using payload_refused [of s env r rep] run Inr by simp
      then show ?thesis using assms(2) small by auto
    next
      case (Inr payload)
      with run \<open>webhook_payload s env r = Inr q\<close>
      have "webhook_event s now auth x cid (event_header r) payload ?sv = (sv', Ret rep)" by simp
      from event_reply [OF this] assms(2) rl show ?thesis by auto
    qed
  qed (use run in simp)
qed

lemma acknowledgement_durable:
  assumes "wf_db (sv_db sv)" and "webhook s env now t up auth x cid r sv = (sv', Ret rep)"
  shows "(is_job_reply rep \<longrightarrow> (\<exists>j st. reply_body rep = JDict [(''status'', JStr st), (''job_id'', JInt (job_id j))] \<and>
      get_job (sv_db sv') (job_id j) = Some j \<and> job_status j \<noteq> JOB_PENDING)) \<and>
    (is_retry_reply rep \<longrightarrow> (\<exists>j. get_job (sv_db sv') (job_id j) = Some j \<and> job_status j = JOB_PENDING))"
proof (cases "is_job_reply rep \<or> is_retry_reply rep")
  case True
  let ?sv = "sv\<lparr>webhook_limiter := fst (rate_limit s t r (webhook_limiter sv))\<rparr>"
  obtain payload p where run: "webhook_job s now x cid payload p ?sv = (sv', Ret rep)"
    using webhook_reply [OF assms(2) True] by blast
  have wf: "wf_db (sv_db ?sv)" using assms(1) by simp
  have "wf_db (sv_db sv')" using wf_webhook_job [OF wf, of s now x cid payload p] run by simp
  then have g: "find_job (sv_db sv') k = Some j \<Longrightarrow> get_job (sv_db sv') (job_id j) = Some j" for k j
    by (simp add: find_job_get)
  note job = webhook_job_reply [OF wf run]
  show ?thesis
  proof (intro conjI impI)
    assume "is_job_reply rep"
    with job obtain j st where "reply_body rep = JDict [(''status'', JStr st), (''job_id'', JInt (job_id j))]"
      "find_job (sv_db sv') (payload_dedup_key p) = Some j" "job_status j \<noteq> JOB_PENDING" by blast
    then show "\<exists>j st. reply_body rep = JDict [(''status'', JStr st), (''job_id'', JInt (job_id j))] \<and>
      get_job (sv_db sv') (job_id j) = Some j \<and> job_status j \<noteq> JOB_PENDING" using g by blast
  next
    assume "is_retry_reply rep"
    with job obtain j where "find_job (sv_db sv') (payload_dedup_key p) = Some j" "job_status j = JOB_PENDING" by blast
    then show "\<exists>j. get_job (sv_db sv') (job_id j) = Some j \<and> job_status j = JOB_PENDING" using g by blast
  qed
qed blast


text \<open>A body of two chunks below the limit, and its declared length.\<close>

theorem read_body_bounded_witness:
  "read_body_with_limit 5 \<lparr>peer = None, forwarded_for = None, content_length = Some ''4'',
     body_chunks = [''ab'', ''cd''], signature_header = None, event_header = None, authorization = None\<rparr> =
   Ret (Inr ''abcd'')"
  by (subst read_body_bounded) (simp_all, code_simp)

end
