(* ===== verification/Api.thy ===== *)
theory Api
  imports Webhook "HOL-Library.Multiset"
begin

text \<open>
  The operator's API, the other half of \<^verbatim>\<open>src/app/main.py\<close>: approval and rejection of queued decisions,
  the read endpoints of the dashboard, readiness, metrics and start-up.

  \<open>stamp\<close> is the text the API shows for a time stamp, which depends on whether the database driver keeps
  the zone. The write client is the one \<open>get_github_client\<close> chose at start-up.
\<close>

section \<open>Authentication\<close>

definition require_api_token :: "settings \<Rightarrow> string option \<Rightarrow> http_reply option res" where
  "require_api_token s auth =
     (if api_token s = [] then Ret None
      else rbind (verify_bearer_token (api_token s) auth) (\<lambda>valid.
        Ret (if valid then None else Some (detail_reply 401 ''missing or invalid bearer token''))))"

definition require_api_token_for_reads :: "settings \<Rightarrow> string option \<Rightarrow> http_reply option res" where
  "require_api_token_for_reads s auth =
     (if \<not> require_auth_for_reads s then Ret None else require_api_token s auth)"

text \<open>The dependencies of the read and of the mutating endpoints, around the endpoint itself.\<close>

definition guarded_read :: "settings \<Rightarrow> http_request \<Rightarrow> http_reply \<Rightarrow> http_reply res" where
  "guarded_read s r endpoint = rbind (require_api_token_for_reads s (authorization r)) (\<lambda>refused.
     Ret (case refused of None \<Rightarrow> endpoint | Some rep \<Rightarrow> rep))"

definition guarded_mutation ::
    "settings \<Rightarrow> rat \<Rightarrow> http_request \<Rightarrow> (service \<Rightarrow> service \<times> http_reply res) \<Rightarrow> service \<Rightarrow>
     service \<times> http_reply res" where
  "guarded_mutation s t r endpoint sv =
     (case require_api_token s (authorization r) of
        Inl e \<Rightarrow> (sv, Raise e)
      | Inr (Some rep) \<Rightarrow> (sv, Ret rep)
      | Inr None \<Rightarrow>
          (case rate_limit s t r (mutation_limiter sv) of
             (l, Some rep) \<Rightarrow> (sv\<lparr>mutation_limiter := l\<rparr>, Ret rep)
           | (l, None) \<Rightarrow> endpoint (sv\<lparr>mutation_limiter := l\<rparr>)))"


section \<open>Approving and rejecting\<close>

definition pr_review_url :: "settings \<Rightarrow> string \<Rightarrow> int \<Rightarrow> string" where
  "pr_review_url s rp pr = github_web_url s @ ''/'' @ rp @ ''/pull/'' @ int_str pr @ ''/files''"

definition text_or_null :: "string option \<Rightarrow> json" where
  "text_or_null v = (case v of None \<Rightarrow> JNull | Some x \<Rightarrow> JStr x)"

definition decision_view :: "settings \<Rightarrow> (int \<Rightarrow> string) \<Rightarrow> review_decision \<Rightarrow> json" where
  "decision_view s stamp r = JDict
     [(''id'', JInt (dec_id r)), (''repo'', JStr (dec_repo r)), (''pr_number'', JInt (dec_pr_number r)),
      (''commit_sha'', JStr (dec_commit_sha r)), (''action'', JStr (dec_action r)), (''risk'', JStr (dec_risk r)),
      (''reason'', JStr (dec_reason r)), (''title'', JStr (dec_title r)), (''body'', JStr (dec_body r)),
      (''status'', JStr (decision_status_value (dec_status r))), (''result_url'', text_or_null (result_url r)),
      (''review_url'', JStr (pr_review_url s (dec_repo r) (dec_pr_number r))),
      (''last_error'', text_or_null (dec_last_error r)), (''created_at'', JStr (stamp (dec_created_at r))),
      (''updated_at'', JStr (stamp (dec_updated_at r)))]"

text \<open>The view of the row as it stands after the writes of the request.\<close>

definition view_of :: "settings \<Rightarrow> (int \<Rightarrow> string) \<Rightarrow> database \<Rightarrow> int \<Rightarrow> json" where
  "view_of s stamp db i = (case get_decision db i of None \<Rightarrow> JNull | Some r \<Rightarrow> decision_view s stamp r)"

definition list_pending_reviews :: "settings \<Rightarrow> (int \<Rightarrow> string) \<Rightarrow> database \<Rightarrow> http_reply" where
  "list_pending_reviews s stamp db = (let rs = list_pending db in
     reply_with 200 [(''count'', JInt (int (length rs))), (''pending'', JList (map (decision_view s stamp) rs))])"

definition read_only_reply :: http_reply where
  "read_only_reply = detail_reply 403 ''read-only public demo: approvals are disabled''"

text \<open>The action of a claimed row: hand-off, or the post and its record.\<close>

definition carry_out ::
    "settings \<Rightarrow> int \<Rightarrow> (int \<Rightarrow> string) \<Rightarrow> gh_client \<Rightarrow> review_decision \<Rightarrow> world \<Rightarrow> world \<times> http_reply res" where
  "carry_out s now stamp client row w =
     (if handoff_mode s then
        (let u = pr_review_url s (dec_repo row) (dec_pr_number row); db = mark_executed now (wdb w) (dec_id row) u in
         (w\<lparr>wdb := db\<rparr>, Ret (reply_with 200 [(''status'', JStr ''handed_off''), (''url'', JStr u),
            (''decision'', view_of s stamp db (dec_id row))])))
      else
        (case execute_decision (Some client) (FromRow (dec_action row) (dec_body row))
                (Some (dec_repo row)) (Some (dec_pr_number row)) w of
           (w', Inl e) \<Rightarrow> (w', Raise e)
         | (w', Inr result) \<Rightarrow>
             if ok result then
               (let db = mark_executed now (wdb w') (dec_id row) (url result) in
                (w'\<lparr>wdb := db\<rparr>, Ret (reply_with 200 [(''status'', JStr ''executed''), (''url'', JStr (url result)),
                   (''decision'', view_of s stamp db (dec_id row))])))
             else
               (let db = mark_failed now (wdb w') (dec_id row) (detail result) in
                (w'\<lparr>wdb := db\<rparr>, Ret (reply_with 502 [(''status'', JStr ''action_failed''),
                   (''detail'', JStr (detail result)), (''decision'', view_of s stamp db (dec_id row))])))))"

definition approve_review ::
    "settings \<Rightarrow> int \<Rightarrow> (int \<Rightarrow> string) \<Rightarrow> gh_client \<Rightarrow> int \<Rightarrow> world \<Rightarrow> world \<times> http_reply res" where
  "approve_review s now stamp client i w =
     (if public_mode s then (w, Ret read_only_reply)
      else (case claim_approval now (wdb w) i of
          (db, None, _) \<Rightarrow> (w\<lparr>wdb := db\<rparr>, Ret (detail_reply 404 ''not found''))
        | (db, Some row, oc) \<Rightarrow>
            (let w = w\<lparr>wdb := db\<rparr> in
             if oc = AlreadyExecuted then
               (w, Ret (reply_with 200 [(''status'', JStr ''already_executed''), (''decision'', decision_view s stamp row)]))
             else if oc = Rejected then (w, Ret (detail_reply 409 ''decision was rejected''))
             else if oc = InProgress then
               (w, Ret (reply_with 409 [(''detail'', JStr ''approval already in progress''),
                  (''decision'', decision_view s stamp row)]))
             else carry_out s now stamp client row w)))"

definition reject_review ::
    "settings \<Rightarrow> int \<Rightarrow> (int \<Rightarrow> string) \<Rightarrow> int \<Rightarrow> world \<Rightarrow> world \<times> http_reply res" where
  "reject_review s now stamp i w =
     (if public_mode s then (w, Ret read_only_reply)
      else (case reject_pending now (wdb w) i of
          (db, None, _) \<Rightarrow> (w\<lparr>wdb := db\<rparr>, Ret (detail_reply 404 ''not found''))
        | (db, Some row, oc) \<Rightarrow>
            (let w = w\<lparr>wdb := db\<rparr> in
             if oc = AlreadyExecuted then (w, Ret (detail_reply 409 ''already executed; cannot reject''))
             else if oc = InProgress then (w, Ret (detail_reply 409 ''approval already in progress; cannot reject''))
             else (w, Ret (reply_with 200 [(''status'', JStr ''rejected''), (''decision'', decision_view s stamp row)])))))"

text \<open>The two endpoints with their dependencies, on the state of the service.\<close>

definition on_world :: "(world \<Rightarrow> world \<times> http_reply res) \<Rightarrow> service \<Rightarrow> service \<times> http_reply res" where
  "on_world f sv = (case f \<lparr>wdb = sv_db sv, calls = sv_calls sv\<rparr> of
     (w, r) \<Rightarrow> (sv\<lparr>sv_db := wdb w, sv_calls := calls w\<rparr>, r))"

definition approve_endpoint where
  "approve_endpoint s now t stamp client i r = guarded_mutation s t r (on_world (approve_review s now stamp client i))"

definition reject_endpoint where
  "reject_endpoint s now t stamp i r = guarded_mutation s t r (on_world (reject_review s now stamp i))"


section \<open>The dashboard\<close>

definition job_view :: "(int \<Rightarrow> string) \<Rightarrow> database \<Rightarrow> pr_job \<Rightarrow> json" where
  "job_view stamp db j = JDict
     [(''id'', JInt (job_id j)), (''repo'', JStr (job_repo j)), (''pr_number'', JInt (job_pr_number j)),
      (''commit_sha'', JStr (job_commit_sha j)), (''author'', JStr (job_author j)), (''event'', JStr (job_event j)),
      (''status'', JStr (job_status_value (job_status j))), (''attempts'', JInt (attempts j)),
      (''last_error'', text_or_null (job_last_error j)),
      (''summary'', text_or_null (map_option result_summary (find (\<lambda>x. result_job_id x = job_id j) (job_results db)))),
      (''created_at'', JStr (stamp (job_created_at j))), (''updated_at'', JStr (stamp (job_updated_at j)))]"

text \<open>\<open>GROUP BY\<close> lists the statuses that occur.\<close>

definition count_by_status :: "('r \<Rightarrow> 's) \<Rightarrow> ('s \<Rightarrow> string) \<Rightarrow> 's list \<Rightarrow> 'r table \<Rightarrow> (string \<times> int) list" where
  "count_by_status col value statuses t =
     map (\<lambda>st. (value st, int (rowcount (\<lambda>r. col r = st) t)))
       (filter (\<lambda>st. 0 < rowcount (\<lambda>r. col r = st) t) statuses)"

definition count_jobs :: "database \<Rightarrow> (string \<times> int) list" where
  "count_jobs db = count_by_status job_status job_status_value all_job_statuses (pr_jobs db)"

definition count_decisions :: "database \<Rightarrow> (string \<times> int) list" where
  "count_decisions db = count_by_status dec_status decision_status_value all_decision_statuses (review_decisions db)"

definition count_of :: "(string \<times> int) list \<Rightarrow> string \<Rightarrow> json" where
  "count_of counts k = JInt (get_default 0 (map_of counts k))"

definition stats :: "settings \<Rightarrow> database \<Rightarrow> http_reply" where
  "stats s db = (let jobs = count_jobs db; decisions = count_decisions db in reply_with 200
     [(''jobs'', JDict ((''total'', JInt (sum_list (map snd jobs))) #
        map (\<lambda>k. (k, count_of jobs k)) [''pending'', ''queued'', ''processing'', ''done'', ''dead''])),
      (''reviews'', JDict ((''total'', JInt (sum_list (map snd decisions))) #
        map (\<lambda>k. (k, count_of decisions k)) [''pending'', ''approved'', ''executed'', ''rejected'', ''failed''])),
      (''config'', JDict
        [(''github_dry_run'', JBool (github_dry_run s)), (''live_github'', JBool (github_token s \<noteq> [])),
         (''auto_comment_max_risk'', JStr (auto_comment_max_risk s)), (''github_web_url'', JStr (github_web_url s)),
         (''handoff_mode'', JBool (handoff_mode s)), (''public_mode'', JBool (public_mode s)),
         (''multi_tenant'', JBool (multi_tenant_enabled s)), (''install_url'', JStr (install_url s)),
         (''comment_commands'', JBool (github_comment_commands s))])])"

definition installation_view :: "(int \<Rightarrow> string) \<Rightarrow> database \<Rightarrow> installation \<Rightarrow> json" where
  "installation_view stamp db r = JDict
     [(''installation_id'', JInt (installation_id r)), (''account'', JStr (account_login r)),
      (''account_type'', JStr (account_type r)), (''active'', JBool (is_active r)),
      (''suspended'', JBool (suspended_at r \<noteq> None)), (''deleted'', JBool (deleted_at r \<noteq> None)),
      (''jobs'', JInt (int (rowcount (\<lambda>j. job_installation_id j = Some (installation_id r)) (pr_jobs db)))),
      (''pending_reviews'', JInt (int (rowcount (\<lambda>d. dec_installation_id d = Some (installation_id r) \<and>
         dec_status d = PENDING) (review_decisions db)))),
      (''created_at'', JStr (stamp (inst_created_at r)))]"

definition list_installations :: "settings \<Rightarrow> (int \<Rightarrow> string) \<Rightarrow> database \<Rightarrow> http_reply" where
  "list_installations s stamp db =
     (let tenants = map (installation_view stamp db) (sort_key inst_created_at (rows (installations db))) in
      reply_with 200 [(''count'', JInt (int (length tenants))), (''multi_tenant'', JBool (multi_tenant_enabled s)),
        (''install_url'', JStr (install_url s)), (''installations'', JList tenants)])"

definition clamp_limit :: "int \<Rightarrow> int" where "clamp_limit limit = max 1 (min limit 200)"

definition paged :: "int \<Rightarrow> int \<Rightarrow> 'a list \<Rightarrow> 'a list" where
  "paged offset limit xs = take (nat (clamp_limit limit)) (drop (nat (max 0 offset)) xs)"

definition like_pattern :: "string \<Rightarrow> string" where
  "like_pattern term =
     ''%'' @ replace ''_'' [CHR 0x5C, CHR ''_''] (replace ''%'' [CHR 0x5C, CHR ''%'']
       (replace [CHR 0x5C] [CHR 0x5C, CHR 0x5C] term)) @ ''%''"

text \<open>
  The database's \<open>LIKE\<close> with a backslash as its escape character, and \<open>ILIKE\<close>, which ignores case.
\<close>

fun sql_like :: "string \<Rightarrow> string \<Rightarrow> bool" where
  "sql_like [] s = (s = [])"
| "sql_like (c # p) s =
     (if c = CHR 0x5C then
        (case (p, s) of (d # p', x # s') \<Rightarrow> x = d \<and> sql_like p' s' | _ \<Rightarrow> False)
      else if c = CHR ''%'' then
        sql_like p s \<or> (case s of [] \<Rightarrow> False | x # s' \<Rightarrow> sql_like (c # p) s')
      else (case s of [] \<Rightarrow> False | x # s' \<Rightarrow> (c = CHR ''_'' \<or> x = c) \<and> sql_like p s'))"

definition ilike :: "string \<Rightarrow> string \<Rightarrow> bool" where
  "ilike field pattern = sql_like (lower pattern) (lower field)"

definition newest_first :: "('r \<Rightarrow> int) \<Rightarrow> ('r \<Rightarrow> int) \<Rightarrow> 'r list \<Rightarrow> 'r list" where
  "newest_first created key rs = sort_key (\<lambda>r. - created r) (sort_key (\<lambda>r. - key r) rs)"

text \<open>Filter, count, order, page: the body both history endpoints share.\<close>

definition history ::
    "('r \<Rightarrow> string list) \<Rightarrow> ('r \<Rightarrow> string) \<Rightarrow> string list \<Rightarrow> ('r list \<Rightarrow> 'r list) \<Rightarrow> string \<Rightarrow> ('r \<Rightarrow> json) \<Rightarrow>
     'r list \<Rightarrow> int \<Rightarrow> int \<Rightarrow> string option \<Rightarrow> string option \<Rightarrow> http_reply" where
  "history columns status_name known order name view rs limit offset q status =
     (let searched = (case q of None \<Rightarrow> rs
            | Some term \<Rightarrow> if term = [] then rs
                else filter (\<lambda>r. \<exists>f \<in> set (columns r). ilike f (like_pattern (strip term))) rs);
          answer = (\<lambda>found. reply_with 200
            [(''count'', JInt (int (length (paged offset limit (order found))))), (''total'', JInt (int (length found))),
             (''limit'', JInt (clamp_limit limit)), (''offset'', JInt (max 0 offset)),
             (name, JList (map view (paged offset limit (order found))))]) in
      case status of
        None \<Rightarrow> answer searched
      | Some st \<Rightarrow>
          if st = [] then answer searched
          else if st \<notin> set known then reply_with 200
            [(''count'', JInt 0), (''total'', JInt 0), (''limit'', JInt limit), (''offset'', JInt offset),
             (name, JList [])]
          else answer (filter (\<lambda>r. status_name r = st) searched))"

definition list_jobs ::
    "(int \<Rightarrow> string) \<Rightarrow> database \<Rightarrow> int \<Rightarrow> int \<Rightarrow> string option \<Rightarrow> string option \<Rightarrow> http_reply" where
  "list_jobs stamp db limit offset q status =
     history (\<lambda>j. [job_repo j, job_commit_sha j, job_event j]) (\<lambda>j. job_status_value (job_status j))
       (map job_status_value all_job_statuses) (newest_first job_created_at job_id) ''jobs'' (job_view stamp db)
       (rows (pr_jobs db)) limit offset q status"

definition list_reviews ::
    "settings \<Rightarrow> (int \<Rightarrow> string) \<Rightarrow> database \<Rightarrow> string option \<Rightarrow> int \<Rightarrow> int \<Rightarrow> string option \<Rightarrow> http_reply" where
  "list_reviews s stamp db status limit offset q =
     history (\<lambda>r. [dec_repo r, dec_title r, dec_commit_sha r, dec_reason r]) (\<lambda>r. decision_status_value (dec_status r))
       (map decision_status_value all_decision_statuses) (newest_first dec_created_at dec_id) ''reviews''
       (decision_view s stamp) (rows (review_decisions db)) limit offset q status"


section \<open>Health, metrics, start-up\<close>

definition healthz :: http_reply where
  "healthz = reply_with 200 [(''status'', JStr ''ok'')]"

text \<open>A probe is \<open>None\<close> when it answered, else the text of its exception.\<close>

definition probe_text :: "string option \<Rightarrow> string" where
  "probe_text p = (case p of None \<Rightarrow> ''ok'' | Some e \<Rightarrow> ''error: '' @ e)"

definition readyz :: "string option \<Rightarrow> string option option \<Rightarrow> http_reply" where
  "readyz database redis =
     (let redis_text = (case redis of None \<Rightarrow> ''unavailable'' | Some p \<Rightarrow> probe_text p);
          ready = (database = None \<and> redis = Some None) in
      reply_with (if ready then 200 else 503)
        [(''status'', JStr (if ready then ''ready'' else ''not_ready'')),
         (''checks'', JDict [(''database'', JStr (probe_text database)), (''redis'', JStr redis_text)])])"

record gauges =
  jobs_gauge :: "(string \<times> int) list"
  reviews_gauge :: "(string \<times> int) list"
  queue_depth :: "int option"

text \<open>The gauges a scrape sets; the depth only if the queue is there and answers.\<close>

definition refresh_domain_gauges :: "database \<Rightarrow> int res option \<Rightarrow> gauges" where
  "refresh_domain_gauges db queue =
     \<lparr>jobs_gauge = map (\<lambda>st. (job_status_value st, get_default 0 (map_of (count_jobs db) (job_status_value st)))) all_job_statuses,
      reviews_gauge = map (\<lambda>st. (decision_status_value st,
        get_default 0 (map_of (count_decisions db) (decision_status_value st)))) all_decision_statuses,
      queue_depth = (case queue of Some (Inr n) \<Rightarrow> Some n | _ \<Rightarrow> None)\<rparr>"

definition metrics :: "settings \<Rightarrow> database \<Rightarrow> int res option \<Rightarrow> http_reply + gauges" where
  "metrics s db queue = (if \<not> metrics_enabled s then Inl (detail_reply 404 ''metrics disabled'')
     else Inr (refresh_domain_gauges db queue))"

text \<open>
  Start-up: the schema check, the sweep of abandoned claims, and the queue, whose absence is no error.
\<close>

definition lifespan :: "settings \<Rightarrow> string list \<Rightarrow> int \<Rightarrow> unit res \<Rightarrow> database \<Rightarrow> (database \<times> bool) res" where
  "lifespan s tables now queue db = rbind (assert_schema_ready s tables) (\<lambda>_.
     Ret (fst (sweep_interrupted now db), case queue of Inr _ \<Rightarrow> True | Inl _ \<Rightarrow> False))"

text \<open>The correlation id of a request, bound while it runs and echoed in its reply.\<close>

definition correlation_of :: "string option \<Rightarrow> string \<Rightarrow> string" where
  "correlation_of inbound fresh = (case inbound of None \<Rightarrow> fresh | Some c \<Rightarrow> if c = [] then fresh else c)"

definition observability_middleware ::
    "string option \<Rightarrow> string \<Rightarrow> (string \<Rightarrow> http_reply res) \<Rightarrow> int \<times> http_reply res" where
  "observability_middleware inbound fresh call_next =
     (let c = correlation_of inbound fresh in
      case call_next c of
        Inl e \<Rightarrow> (500, Raise e)
      | Inr rep \<Rightarrow> (reply_status rep, Ret (rep\<lparr>reply_headers := reply_headers rep @ [(''X-Request-ID'', c)]\<rparr>)))"

section \<open>Searching\<close>

lemma replace_char: "replace [c] new s = concat (map (\<lambda>x. if x = c then new else [x]) s)"
  by (induction s) (auto simp: startswith_def)

definition like_escape :: "char \<Rightarrow> string" where
  "like_escape x = (if x \<in> {CHR 0x5C, CHR ''%'', CHR ''_''} then [CHR 0x5C, x] else [x])"

lemma like_pattern_escape: "like_pattern term = ''%'' @ concat (map like_escape term) @ ''%''"
proof -
  have "replace ''_'' [CHR 0x5C, CHR ''_''] (replace ''%'' [CHR 0x5C, CHR ''%'']
       (replace [CHR 0x5C] [CHR 0x5C, CHR 0x5C] term)) = concat (map like_escape term)"
    unfolding replace_char by (induction "term") (auto simp: like_escape_def)
  then show ?thesis by (simp add: like_pattern_def)
qed

lemma sql_like_literal: "sql_like (concat (map like_escape t) @ p) s \<longleftrightarrow> (\<exists>r. s = t @ r \<and> sql_like p r)"
proof (induction t arbitrary: s)
  case (Cons c t)
  have "like_escape c = [CHR 0x5C, c] \<or> (like_escape c = [c] \<and> c \<notin> {CHR 0x5C, CHR ''%'', CHR ''_''})"
    by (simp add: like_escape_def)
  with Cons show ?case by (cases s) auto
qed simp

lemma sql_like_any: "sql_like (CHR ''%'' # p) s \<longleftrightarrow> (\<exists>a b. s = a @ b \<and> sql_like p b)"
proof (induction s)
  case (Cons x s)
  have "(\<exists>a b. x # s = a @ b \<and> sql_like p b) \<longleftrightarrow> sql_like p (x # s) \<or> (\<exists>a b. s = a @ b \<and> sql_like p b)"
    by (metis append_Cons append_Nil list.exhaust list.inject)
  with Cons show ?case by simp
qed auto

lemma sql_like_substring: "sql_like (like_pattern t) s \<longleftrightarrow> contains s t"
proof -
  have "sql_like ''%'' r" for r by (induction r) auto
  then show ?thesis
    unfolding like_pattern_escape append_Cons append_Nil sql_like_any sql_like_literal contains_iff by auto
qed

lemma lower_special: "lower_char c = x \<longleftrightarrow> c = x" if "x \<in> {CHR 0x5C, CHR ''%'', CHR ''_''}"
proof -
  have "lower_char c \<noteq> x" if "c \<noteq> x" for c
  proof -
    let ?n = "of_char c :: nat"
    have "?n < 256" by simp
    then have "(of_char (lower_char c) :: nat) = (if (65 \<le> ?n \<and> ?n \<le> 90) \<or> (192 \<le> ?n \<and> ?n \<le> 222 \<and> ?n \<noteq> 215) then ?n + 32 else ?n)"
      by (auto simp: lower_char_def Let_def)
    moreover have "(of_char x :: nat) \<in> {92, 37, 95}" using \<open>x \<in> _\<close> by auto
    moreover have "(of_char x :: nat) \<noteq> ?n" using \<open>c \<noteq> x\<close> by auto
    ultimately show ?thesis by (auto split: if_splits)
  qed
  moreover have "lower_char x = x" using that by (auto simp: lower_char_def)
  ultimately show ?thesis by auto
qed

lemma lower_like: "lower (like_pattern t) = like_pattern (lower t)"
proof -
  have "map lower_char (like_escape c) = like_escape (lower_char c)" for c
    by (auto simp: like_escape_def lower_special)
  then have "lower (concat (map like_escape t)) = concat (map like_escape (lower t))"
    by (induction t) (simp_all add: lower_def)
  then show ?thesis by (simp add: like_pattern_escape lower_def lower_special)
qed


section \<open>Pages and totals\<close>

lemma page_step: "take (k * n) xs @ take n (drop (k * n) xs) = take (k * n + n) xs"
  by (simp add: take_add)

lemma mset_newest_first: "mset (newest_first created key rs) = mset rs"
  by (simp add: newest_first_def)

text \<open>
  Paging loses and repeats nothing: walking the history page by page with any limit gives the rows
  newest first, each once; no page is larger than 200 rows, whatever limit is asked for.
\<close>

theorem pages_tile:
  "concat (map (\<lambda>k. paged (int (k * nat (clamp_limit limit))) limit (newest_first created key rs)) [0..<m]) =
      take (m * nat (clamp_limit limit)) (newest_first created key rs) \<and>
    mset (newest_first created key rs) = mset rs \<and>
    sorted (map (\<lambda>r. - created r) (newest_first created key rs)) \<and>
    length (paged offset limit rs) \<le> 200"
proof -
  let ?xs = "newest_first created key rs"
  define n where "n = nat (clamp_limit limit)"
  have page: "paged (int k * int n) limit ?xs = take n (drop (k * n) ?xs)" for k
  proof -
    have "nat (max 0 (int k * int n)) = k * n" by (simp add: nat_mult_distrib)
    then show ?thesis by (simp add: paged_def n_def)
  qed
  have "concat (map (\<lambda>k. paged (int (k * n)) limit ?xs) [0..<m]) = take (m * n) ?xs"
  proof (induction m)
    case (Suc m)
    then show ?case using page_step [of m n ?xs] by (simp add: page algebra_simps)
  qed simp
  moreover have "length (paged offset limit rs) \<le> 200"
    by (simp add: paged_def clamp_limit_def)
  ultimately show ?thesis by (simp add: mset_newest_first n_def) (simp add: newest_first_def)
qed

lemma sum_counts:
  assumes "\<And>r. r \<in> set (rows t) \<Longrightarrow> col r \<in> set statuses" and "distinct statuses"
  shows "sum_list (map snd (count_by_status col value statuses t)) = int (length (rows t))"
proof -
  have total: "(\<Sum>st\<leftarrow>statuses. int (length (filter (\<lambda>r. col r = st) rs))) = int (length rs)"
    if "\<forall>r \<in> set rs. col r \<in> set statuses" for rs
    using that
  proof (induction rs)
    case (Cons r rs)
    have none: "(\<Sum>st\<leftarrow>ss. (if col r = st then 1 else 0 :: int)) = 0" if "col r \<notin> set ss" for ss
      using that by (induction ss) auto
    have "(\<Sum>st\<leftarrow>statuses. (if col r = st then 1 else 0 :: int)) = 1" if "col r \<in> set statuses"
      using that assms(2) by (induction statuses) (auto simp: none)
    moreover have "int (length (filter (\<lambda>x. col x = st) (r # rs))) =
        (if col r = st then 1 else 0) + int (length (filter (\<lambda>x. col x = st) rs))" for st by simp
    ultimately show ?case using Cons by (simp add: sum_list_addf del: filter.simps)
  qed simp
  have drop0: "sum_list (map snd (map (\<lambda>st. (value st, f st)) (filter (\<lambda>st. 0 < f st) ss))) = sum_list (map f ss)"
    if "\<And>st. 0 \<le> f st" for f :: "'b \<Rightarrow> int" and ss
  proof (induction ss)
    case (Cons a ss)
    then show ?case using that [of a] by auto
  qed simp
  let ?f = "\<lambda>st. int (rowcount (\<lambda>r. col r = st) t)"
  have "count_by_status col value statuses t = map (\<lambda>st. (value st, ?f st)) (filter (\<lambda>st. 0 < ?f st) statuses)"
    by (simp add: count_by_status_def del: rowcount_pos)
  then have "sum_list (map snd (count_by_status col value statuses t)) = sum_list (map ?f statuses)"
    by (simp only:) (rule drop0, simp)
  also have "\<dots> = int (length (rows t))"
    using total [of "rows t"] assms(1) by (simp add: rowcount_def)
  finally show ?thesis .
qed

lemma count_of_status:
  fixes nm :: "'s \<Rightarrow> string"
  assumes "inj nm" and "st \<in> set statuses" and "distinct statuses"
  shows "count_of (count_by_status col nm statuses t) (nm st) = JInt (int (rowcount (\<lambda>r. col r = st) t))"
proof -
  have "map_of (map (\<lambda>x. (nm x, int (n x))) (filter (\<lambda>x. 0 < n x) ss)) (nm st) =
      (if st \<in> set ss \<and> 0 < n st then Some (int (n st)) else None)" for ss and n :: "'s \<Rightarrow> nat"
    by (induction ss) (auto simp: inj_eq [OF assms(1)])
  then show ?thesis using assms(2) by (simp add: count_of_def count_by_status_def del: rowcount_pos)
qed

lemma job_status_value_inj: "inj job_status_value"
  by (rule injI) (case_tac x; case_tac y; simp)

lemma decision_status_value_inj: "inj decision_status_value"
  by (rule injI) (case_tac x; case_tac y; simp)

lemma all_job_statuses: "st \<in> set all_job_statuses" "distinct all_job_statuses"
  by (cases st) (simp_all add: all_job_statuses_def)

lemma all_decision_statuses: "st \<in> set all_decision_statuses" "distinct all_decision_statuses"
  by (cases st) (simp_all add: all_decision_statuses_def)

lemma count_job:
  "count_of (count_jobs db) (job_status_value st) = JInt (int (rowcount (\<lambda>j. job_status j = st) (pr_jobs db)))"
  unfolding count_jobs_def by (rule count_of_status [OF job_status_value_inj all_job_statuses])

lemma count_decision:
  "count_of (count_decisions db) (decision_status_value st) =
     JInt (int (rowcount (\<lambda>r. dec_status r = st) (review_decisions db)))"
  unfolding count_decisions_def by (rule count_of_status [OF decision_status_value_inj all_decision_statuses])

text \<open>
  The dashboard's figures add up: the totals are the numbers of rows, and every status shows
  exactly the rows that have it, a status that no row has as zero.
\<close>

theorem stats_consistent:
  "\<exists>cfg. reply_body (stats s db) = JDict
     [(''jobs'', JDict ((''total'', JInt (int (length (rows (pr_jobs db))))) #
        map (\<lambda>st. (job_status_value st, JInt (int (rowcount (\<lambda>j. job_status j = st) (pr_jobs db)))))
          [JOB_PENDING, QUEUED, PROCESSING, DONE, DEAD])),
      (''reviews'', JDict ((''total'', JInt (int (length (rows (review_decisions db))))) #
        map (\<lambda>st. (decision_status_value st, JInt (int (rowcount (\<lambda>r. dec_status r = st) (review_decisions db)))))
          [PENDING, APPROVED, EXECUTED, REJECTED, FAILED])),
      (''config'', cfg)]"
proof -
  have t: "sum_list (map snd (count_jobs db)) = int (length (rows (pr_jobs db)))"
    "sum_list (map snd (count_decisions db)) = int (length (rows (review_decisions db)))"
    unfolding count_jobs_def count_decisions_def
    by (rule sum_counts; use all_job_statuses all_decision_statuses in blast)+
  have j: "map (\<lambda>k. (k, count_of (count_jobs db) k)) [''pending'', ''queued'', ''processing'', ''done'', ''dead''] =
      map (\<lambda>st. (job_status_value st, JInt (int (rowcount (\<lambda>j. job_status j = st) (pr_jobs db)))))
          [JOB_PENDING, QUEUED, PROCESSING, DONE, DEAD]"
    by (simp add: count_job [symmetric])
  have d: "map (\<lambda>k. (k, count_of (count_decisions db) k)) [''pending'', ''approved'', ''executed'', ''rejected'', ''failed''] =
      map (\<lambda>st. (decision_status_value st, JInt (int (rowcount (\<lambda>r. dec_status r = st) (review_decisions db)))))
          [PENDING, APPROVED, EXECUTED, REJECTED, FAILED]"
    by (simp add: count_decision [symmetric])
  show ?thesis unfolding stats_def Let_def reply_with_def t j d by (rule exI) simp
qed


section \<open>Who may change something\<close>

lemma approve_public: "public_mode s \<Longrightarrow> approve_review s now stamp client i w = (w, Ret read_only_reply)"
  by (simp add: approve_review_def)

lemma reject_public: "public_mode s \<Longrightarrow> reject_review s now stamp i w = (w, Ret read_only_reply)"
  by (simp add: reject_review_def)

lemma bearer_token_valid:
  "verify_bearer_token expected h = Ret True \<Longrightarrow> \<exists>rest. h = Some (''Bearer '' @ rest) \<and> strip rest = expected"
  by (auto simp: verify_bearer_token_def BEARER_PREFIX_def Let_def startswith_iff dest!: compare_digest_True
      split: option.splits if_splits)

lemma guarded_mutation_effect:
  assumes "guarded_mutation s t r f sv = (sv', res)"
    and "sv_db sv' \<noteq> sv_db sv \<or> sv_calls sv' \<noteq> sv_calls sv"
  shows "require_api_token s (authorization r) = Ret None \<and>
    (\<exists>l. rate_limit s t r (mutation_limiter sv) = (l, None) \<and> f (sv\<lparr>mutation_limiter := l\<rparr>) = (sv', res))"
  using assms by (auto simp: guarded_mutation_def split: sum.splits option.splits prod.splits)

text \<open>
  C17. The mutating endpoints are guarded: if an approval or a rejection changed the database or reached
  GitHub, the instance is not public, the caller is within the rate limit, and, where an operator
  token is configured, the request carried it.
\<close>

theorem mutation_guarded:
  assumes "f \<in> {approve_endpoint s now t stamp client i r, reject_endpoint s now t stamp i r}"
    and "f sv = (sv', res)" and "sv_db sv' \<noteq> sv_db sv \<or> sv_calls sv' \<noteq> sv_calls sv"
  shows "\<not> public_mode s \<and> snd (rate_limit s t r (mutation_limiter sv)) = None \<and>
    (if api_token s = [] then True
     else \<exists>rest. authorization r = Some (''Bearer '' @ rest) \<and> strip rest = api_token s)"
proof -
  obtain g where g: "g \<in> {approve_review s now stamp client i, reject_review s now stamp i}"
    and f: "guarded_mutation s t r (on_world g) sv = (sv', res)"
    using assms(1,2) by (auto simp: approve_endpoint_def reject_endpoint_def)
  note eff = guarded_mutation_effect [OF f assms(3)]
  have "\<not> public_mode s"
  proof
    assume "public_mode s"
    then have "on_world g sv1 = (sv1, Ret read_only_reply)" for sv1
      using g by (auto simp: on_world_def approve_public reject_public)
    with eff assms(3) show False by auto
  qed
  moreover have "api_token s \<noteq> [] \<Longrightarrow> verify_bearer_token (api_token s) (authorization r) = Ret True"
    using eff by (auto simp: require_api_token_def split: if_splits)
  ultimately show ?thesis using eff bearer_token_valid by (auto split: if_splits)
qed

section \<open>What an approval does\<close>

lemma claim_unclaimable:
  assumes "wf_db db" and "get_decision db i = Some row" and "dec_status row \<noteq> PENDING"
  shows "fst (claim_from PENDING now db i) = db"
proof -
  have "update_where (\<lambda>r. dec_id r = i \<and> dec_status r = PENDING) f (review_decisions db) = review_decisions db" for f
    using assms get_decision_iff [OF assms(1)] by (intro update_where_none) (metis option.inject)
  then show ?thesis by (simp add: claim_from_def exec_decision_def update_decision_def Let_def)
qed

definition posted_call :: "review_decision \<Rightarrow> gh_call" where
  "posted_call row = \<lparr>call_repo = dec_repo row, call_pr = dec_pr_number row, call_body = dec_body row\<rparr>"

lemma execute_row:
  assumes "dec_action row \<in> {''comment_review'', ''propose_fix'', ''escalate''}"
  shows "execute_decision (Some client) (FromRow (dec_action row) (dec_body row)) (Some (dec_repo row))
      (Some (dec_pr_number row)) w = (w\<lparr>calls := calls w @ [posted_call row]\<rparr>, client (calls w) (posted_call row))"
  using assms by (auto simp: execute_decision_def proposal_action_def action_of_def post_issue_comment_def
      posted_call_def proposal_body_def Let_def)

lemma approve_settled:
  assumes "wf_db (wdb w)" and "get_decision (wdb w) i = Some row" and "dec_status row \<notin> {PENDING, FAILED}"
    and "\<not> public_mode s"
  shows "\<exists>rep. approve_review s now stamp client i w = (w, Ret rep) \<and>
    reply_status rep = (if dec_status row = EXECUTED then 200 else 409)"
proof -
  have "fst (claim_from PENDING now (wdb w) i) = wdb w"
    using claim_unclaimable [OF assms(1,2)] assms(3) by auto
  then show ?thesis using assms(2,3,4) claim_approval_cases [OF assms(1), of now i]
    by (cases "dec_status row") (auto simp: approve_review_def reply_with_def detail_reply_def)
qed

lemma approve_claims:
  assumes "wf_db (wdb w)" and "get_decision (wdb w) i = Some row" and "dec_status row \<in> {PENDING, FAILED}"
    and "\<not> public_mode s"
  obtains db where "approve_review s now stamp client i w =
      carry_out s now stamp client (row\<lparr>dec_status := APPROVED, dec_updated_at := now\<rparr>) (w\<lparr>wdb := db\<rparr>)"
    "get_decision db i = Some (row\<lparr>dec_status := APPROVED, dec_updated_at := now\<rparr>)" "wf_db db"
proof -
  let ?row = "row\<lparr>dec_status := APPROVED, dec_updated_at := now\<rparr>"
  define db where "db = fst (claim_approval now (wdb w) i)"
  have claim: "claim_approval now (wdb w) i = (db, Some ?row, Claimed)"
    using claim_approval_cases [OF assms(1), of now i] assms(2,3) by (auto simp: db_def)
  have "get_decision db i = Some ?row"
    using claim_approval_get [OF assms(1), of now i i] assms(2,3) by (simp add: db_def)
  moreover have "wf_db db" using wf_claim [OF assms(1)] by (simp add: db_def)
  moreover have "approve_review s now stamp client i w = carry_out s now stamp client ?row (w\<lparr>wdb := db\<rparr>)"
    using assms(4) claim by (simp add: approve_review_def)
  ultimately show ?thesis using that by blast
qed

lemma carry_out_posts:
  assumes "dec_action row \<in> {''comment_review'', ''propose_fix'', ''escalate''}" and "\<not> handoff_mode s"
    and "carry_out s now stamp client (row\<lparr>dec_status := APPROVED, dec_updated_at := now\<rparr>) w = (w', res)"
  shows "calls w' = calls w @ [posted_call row] \<and>
    (case client (calls w) (posted_call row) of
       Inl e \<Rightarrow> res = Raise e \<and> wdb w' = wdb w
     | Inr a \<Rightarrow> (\<exists>rep. res = Ret rep \<and> reply_status rep = (if ok a then 200 else 502)) \<and>
         wdb w' = (if ok a then mark_executed now (wdb w) (dec_id row) (url a)
                   else mark_failed now (wdb w) (dec_id row) (detail a)))"
  using assms execute_row [OF assms(1), of client w]
  by (auto simp: carry_out_def Let_def reply_with_def split: sum.splits if_splits)

lemma reject_other:
  assumes "wf_db db" and "get_decision db i = Some row" and "dec_status row = APPROVED"
  shows "reject_pending now db i = (db, Some row, InProgress)"
proof -
  have "rowcount (\<lambda>r. dec_id r = i \<and> dec_status r = PENDING) (review_decisions db) = 0"
    using assms get_decision_iff [OF assms(1)] unfolding rowcount_zero by (metis decision_status.distinct(1) option.inject)
  moreover have "update_where (\<lambda>r. dec_id r = i \<and> dec_status r = PENDING) f (review_decisions db) = review_decisions db" for f
    using assms get_decision_iff [OF assms(1)] by (intro update_where_none) (metis decision_status.distinct(1) option.inject)
  ultimately show ?thesis using assms(2,3)
    by (simp add: reject_pending_def exec_decision_def update_decision_def Let_def del: rowcount_zero)
qed


text \<open>
  C39. An exception of the GitHub client strands the decision: the claim is not handed back, so the row
  stays \<open>APPROVED\<close>, and every later approval and rejection is answered 409 without an effect until the
  process restarts and its sweep runs.
\<close>

theorem approval_exception_strands:
  assumes "wf_db (wdb w)" and "get_decision (wdb w) i = Some row" and "dec_status row = PENDING"
    and "dec_action row \<in> {''comment_review'', ''propose_fix'', ''escalate''}" and "\<not> public_mode s"
    and "\<not> handoff_mode s" and "client (calls w) (posted_call row) = Raise e"
    and "approve_review s now stamp client i w = (w', res)"
  shows "res = Raise e \<and>
    (\<exists>rep. approve_review s later stamp client' i w' = (w', Ret rep) \<and> reply_status rep = 409) \<and>
    (\<exists>rep. reject_review s later stamp i w' = (w', Ret rep) \<and> reply_status rep = 409)"
proof -
  have st: "dec_status row \<in> {PENDING, FAILED}" using assms(3) by simp
  obtain db where run: "carry_out s now stamp client (row\<lparr>dec_status := APPROVED, dec_updated_at := now\<rparr>) (w\<lparr>wdb := db\<rparr>) =
      (w', res)" and got: "get_decision db i = Some (row\<lparr>dec_status := APPROVED, dec_updated_at := now\<rparr>)" and wf: "wf_db db"
    using approve_claims [OF assms(1,2) st assms(5)] assms(8) by metis
  from carry_out_posts [OF assms(4,6) run] assms(7) have res: "res = Raise e" and db: "wdb w' = db" by auto
  have "\<exists>rep. approve_review s later stamp client' i w' = (w', Ret rep) \<and> reply_status rep = 409"
    using approve_settled [of w' i "row\<lparr>dec_status := APPROVED, dec_updated_at := now\<rparr>" s later stamp client'] got wf db assms(5)
    by simp
  moreover have "reject_pending later (wdb w') i = (wdb w', Some (row\<lparr>dec_status := APPROVED, dec_updated_at := now\<rparr>), InProgress)"
    using reject_other got wf db by simp
  then have "\<exists>rep. reject_review s later stamp i w' = (w', Ret rep) \<and> reply_status rep = 409"
    using assms(5) by (simp add: reject_review_def detail_reply_def reply_with_def)
  ultimately show ?thesis using res by blast
qed
text \<open>Inputs for the witnesses.\<close>

definition demo_review_world :: "decision_status \<Rightarrow> world" where
  "demo_review_world st = \<lparr>wdb = demo_db st, calls = []\<rparr>"

lemma demo_review_facts:
  "wf_db (wdb (demo_review_world st))" "get_decision (wdb (demo_review_world st)) 1 = Some (demo_row st)"
  "dec_action (demo_row st) \<in> {''comment_review'', ''propose_fix'', ''escalate''}" "dec_status (demo_row st) = st"
  "\<not> public_mode default_settings" "\<not> handoff_mode (default_settings\<lparr>handoff_mode := False\<rparr>)"
  by (simp_all add: demo_review_world_def demo_db_def get_decision_def select_one_def default_settings_def)
    (simp_all add: demo_row_def wf_demo_db [unfolded demo_db_def demo_row_def])


theorem approval_exception_strands_witness:
  "\<exists>w' e rep. approve_review (default_settings\<lparr>handoff_mode := False\<rparr>) 9 (\<lambda>_. [])
      (\<lambda>_ _. Raise (Exc GitHubAppError ''no token'')) 1 (demo_review_world PENDING) = (w', Raise e) \<and>
    approve_review (default_settings\<lparr>handoff_mode := False\<rparr>) 10 (\<lambda>_. []) fake_client 1 w' = (w', Ret rep) \<and>
    reply_status rep = 409"
proof -
  let ?s = "default_settings\<lparr>handoff_mode := False\<rparr>" and ?c = "\<lambda>_ _. Raise (Exc GitHubAppError ''no token'')"
  obtain w' res where run: "approve_review ?s 9 (\<lambda>_. []) ?c 1 (demo_review_world PENDING) = (w', res)"
    by (cases "approve_review ?s 9 (\<lambda>_. []) ?c 1 (demo_review_world PENDING)")
  have "\<not> public_mode ?s" using demo_review_facts(5) by simp
  from approval_exception_strands [OF demo_review_facts(1,2,4,3) this demo_review_facts(6) _ run, of _ 10 fake_client] run
  show ?thesis by auto
qed

theorem mutation_guarded_witness:
  "\<exists>sv'. sv_db sv' \<noteq> demo_db PENDING \<and> fst (reject_endpoint (default_settings\<lparr>rate_limit_enabled := False\<rparr>) 9 0 (\<lambda>_. []) 1
      \<lparr>peer = None, forwarded_for = None, content_length = None, body_chunks = [], signature_header = None,
       event_header = None, authorization = None\<rparr>
      \<lparr>sv_db = demo_db PENDING, sv_stream = [], sv_calls = [], webhook_limiter = new_limiter 1 1,
       mutation_limiter = new_limiter 1 1\<rparr>) = sv' \<and> \<not> public_mode (default_settings\<lparr>rate_limit_enabled := False\<rparr>)"
proof -
  let ?s = "default_settings\<lparr>rate_limit_enabled := False\<rparr>"
  let ?r = "\<lparr>peer = None, forwarded_for = None, content_length = None, body_chunks = [], signature_header = None,
       event_header = None, authorization = None\<rparr>"
  let ?sv = "\<lparr>sv_db = demo_db PENDING, sv_stream = [], sv_calls = [], webhook_limiter = new_limiter 1 1,
       mutation_limiter = new_limiter 1 1\<rparr>"
  let ?f = "reject_endpoint ?s 9 0 (\<lambda>_. []) 1 ?r"
  have "rate_limit ?s 0 ?r (mutation_limiter ?sv) = (mutation_limiter ?sv, None)" "require_api_token ?s None = Ret None"
    by (simp_all add: rate_limit_def require_api_token_def default_settings_def)
  then have eq: "?f ?sv = on_world (reject_review ?s 9 (\<lambda>_. []) 1) ?sv"
    by (simp add: reject_endpoint_def guarded_mutation_def)
  have st: "map_option dec_status (get_decision (demo_db PENDING) 1) = Some PENDING"
    using demo_review_facts(2,4) [of PENDING] by (simp add: demo_review_world_def)
  have "wdb (fst (reject_review ?s 9 (\<lambda>_. []) 1 w)) = fst (reject_pending 9 (wdb w) 1)" for w
    using demo_review_facts(5) by (simp add: reject_review_def Let_def split: prod.split option.split)
  then have "sv_db (fst (?f ?sv)) = fst (reject_pending 9 (demo_db PENDING) 1)"
    unfolding eq by (simp add: on_world_def case_prod_beta)
  moreover have "map_option dec_status (get_decision (fst (reject_pending 9 (demo_db PENDING) 1)) 1) = Some REJECTED"
    using st by (cases "get_decision (demo_db PENDING) 1") (simp_all add: reject_pending_get)
  ultimately have ch: "sv_db (fst (?f ?sv)) \<noteq> sv_db ?sv" using st by auto
  obtain sv' res where run: "?f ?sv = (sv', res)" by (cases "?f ?sv")
  have "?f \<in> {approve_endpoint ?s 9 0 (\<lambda>_. []) fake_client 1 ?r, ?f}" by simp
  from mutation_guarded [OF this run] ch run show ?thesis by auto
qed


end
