(* ===== verification/Send_Pr.thy ===== *)
theory Send_Pr
  imports Webhook
begin

text \<open>
  The script that replays a pull request to a running instance, \<^verbatim>\<open>src/scripts/send_pr.py\<close>. It builds and
  signs a delivery the way GitHub does, so its acceptance exercises the whole path from the encoder
  and the signature to the job row.
\<close>

definition send_pr_payload :: "string \<Rightarrow> int \<Rightarrow> string \<Rightarrow> string \<Rightarrow> json" where
  "send_pr_payload rp pr sha author = JDict
     [(''action'', JStr ''opened''),
      (''repository'', JDict [(''full_name'', JStr rp)]),
      (''pull_request'', JDict
        [(''number'', JInt pr), (''head'', JDict [(''sha'', JStr sha)]), (''user'', JDict [(''login'', JStr author)])])]"

definition signed_request :: "settings \<Rightarrow> string \<Rightarrow> http_request" where
  "signed_request s body = \<lparr>peer = Some ''127.0.0.1'', forwarded_for = None, content_length = Some (nat_str (length body)),
     body_chunks = [body], signature_header = Some (''sha256='' @ hexdigest (hmac_sha256 (utf8 (webhook_secret s)) body)),
     event_header = Some ''pull_request'', authorization = None\<rparr>"

text \<open>
  The script: \<open>argv\<close> with its own name first; \<open>resolve_sha\<close> asks the GitHub API. \<open>None\<close> is the usage message.
\<close>

definition send_pr_main ::
    "settings \<Rightarrow> (string \<Rightarrow> int \<Rightarrow> (string \<times> string) res) \<Rightarrow> string list \<Rightarrow> http_request option res" where
  "send_pr_main s resolve_sha argv =
     (if length argv < 3 then Ret None
      else rbind (json_int (JStr (argv ! 2))) (\<lambda>pr.
        rbind (if length argv > 3 then Ret (argv ! 3, ''unknown'') else resolve_sha (argv ! 1) pr) (\<lambda>(sha, author).
          Ret (Some (signed_request s (dumps (send_pr_payload (argv ! 1) pr sha author)))))))"

lemma send_pr_parsed:
  assumes "rp \<noteq> []" and "sha \<noteq> []"
  shows "parse_event ''pull_request'' (send_pr_payload rp pr sha author) = Ret (Some
    \<lparr>pl_repo = JStr rp, pl_pr_number = pr, pl_commit_sha = sha, pl_author = author, pl_event = ''pull_request'',
     pl_installation_id = None, pl_ci_logs = []\<rparr>)"
  using assms
  by (simp add: parse_event_def parse_pull_request_event_def send_pr_payload_def jget_dict_def jget_or_def
      installation_id_from_def falsy_def absent_def)

lemma py_int_nat_str [simp]: "py_int (nat_str n) = Some (int n)"
  using py_int_int_str [of "int n"] by (simp add: int_str_def)

lemma py_isdigit_nat_str [simp]: "py_isdigit (nat_str n)"
  using nat_str_digits by (auto simp: py_isdigit_def list_all_iff)

lemma signed_payload:
  assumes "loads_bytes env body = Ret v" and "body \<noteq> []" and "int (length body) \<le> max_webhook_bytes s"
  shows "webhook_payload s env (signed_request s body) = Ret (Inr v)"
proof -
  have sig: "''sha256='' @ hexdigest (hmac_sha256 (utf8 (webhook_secret s)) body) = compute_signature (webhook_secret s) body"
    by (simp add: compute_signature_def SIGNATURE_PREFIX_def)
  have "verify_signature (webhook_secret s) body (Some (compute_signature (webhook_secret s) body)) = Ret True"
  proof -
    have "startswith (compute_signature (webhook_secret s) body) SIGNATURE_PREFIX"
      "compute_signature (webhook_secret s) body \<noteq> []"
      by (simp_all add: compute_signature_def SIGNATURE_PREFIX_def startswith_def)
    then show ?thesis by (simp add: verify_signature_def compare_digest_def compute_signature_ascii)
  qed
  then show ?thesis using assms sig
    by (simp add: webhook_payload_def read_body_with_limit_def signed_request_def json_int_def)
qed

lemma ingest_succeeds:
  assumes "wf_db (idb w)" and "\<And>fs. x fs = (True, Ret (RText m))"
  shows "\<exists>w' r. ingest now x cid p w = (w', Ret r)"
proof -
  let ?w = "w\<lparr>idb := admitted now p (idb w)\<rparr>"
  have wf: "wf_db (idb ?w)" using wf_admitted [OF assms(1)] by simp
  obtain job where job: "find_job (idb ?w) (payload_dedup_key p) = Some job"
    using find_admitted [OF assms(1)] by simp
  then have got: "get_job (idb ?w) (job_id job) = Some job" using wf by (simp add: find_job_get)
  obtain w' r where run: "claim_and_publish now x cid (job_id job) ?w = (w', r)"
    by (cases "claim_and_publish now x cid (job_id job) ?w")
  have pub: "publish x fs = (True, Ret m)" for fs using assms(2) by (simp add: publish_def as_str_def raw_text_def)
  have "r = Ret True \<or> r = Ret False"
  proof (cases "job_status job = JOB_PENDING")
    case True
    from claim_result [OF wf got True run] show ?thesis by (simp add: pub)
  next
    case False
    with claim_refused [OF wf got False, of now x cid] run show ?thesis by simp
  qed
  then show ?thesis using run job by (auto simp: ingest_unfold [OF assms(1)] Let_def)
qed

text \<open>The job the script asks for, and the run of the route up to its acceptance.\<close>

definition replayed :: "string \<Rightarrow> int \<Rightarrow> string \<Rightarrow> string \<Rightarrow> pr_payload" where
  "replayed rp pr sha author = \<lparr>pl_repo = JStr rp, pl_pr_number = pr, pl_commit_sha = sha, pl_author = author,
     pl_event = ''pull_request'', pl_installation_id = None, pl_ci_logs = []\<rparr>"

lemma replay_run:
  assumes "rp \<noteq> []" and "sha \<noteq> []"
    and "encodable env 0 (send_pr_payload rp pr sha author)"
    and "int (length (dumps (send_pr_payload rp pr sha author))) \<le> max_webhook_bytes s"
    and "rate_limit s t (signed_request s (dumps (send_pr_payload rp pr sha author))) (webhook_limiter sv) = (l, None)"
    and "repo_is_allowed s (JStr rp) = Ret True" and "quota_reason s now (sv_db sv) rp None = None"
  shows "webhook s env now t True auth x cid (signed_request s (dumps (send_pr_payload rp pr sha author))) sv =
    accept_job s now x cid (replayed rp pr sha author) (sv\<lparr>webhook_limiter := l\<rparr>)"
proof -
  let ?v = "send_pr_payload rp pr sha author" and ?sv = "sv\<lparr>webhook_limiter := l\<rparr>"
  let ?req = "signed_request s (dumps ?v)"
  have pay: "webhook_payload s env ?req = Ret (Inr ?v)"
    by (rule signed_payload) (use assms(3,4) json_roundtrip dumps_nonempty in auto)
  have "webhook_event s now auth x cid (event_header ?req) ?v ?sv = accept_job s now x cid (replayed rp pr sha author) ?sv"
    using send_pr_parsed [OF assms(1,2), of pr author] assms(6,7)
    by (simp add: webhook_event_def signed_request_def webhook_job_def enrol_def replayed_def)
  then show ?thesis using assms(5) pay by (simp add: webhook_def)
qed

text \<open>
  C18. The script and the route agree: a replayed pull request is authenticated, parsed back from its
  encoding and accepted. For a reachable queue, a request the limiter admits, a repository that the
  allowlist permits and free quota, the reply is a 200 that names a job, and the job of that pull
  request and head commit is in the database, published.
\<close>

theorem replayed_delivery_accepted:
  assumes "wf_db (sv_db sv)" and "rp \<noteq> []" and "sha \<noteq> []"
    and "encodable env 0 (send_pr_payload rp pr sha author)"
    and "req = signed_request s (dumps (send_pr_payload rp pr sha author))"
    and "int (length (dumps (send_pr_payload rp pr sha author))) \<le> max_webhook_bytes s"
    and "snd (rate_limit s t req (webhook_limiter sv)) = None"
    and "repo_is_allowed s (JStr rp) = Ret True" and "quota_reason s now (sv_db sv) rp None = None"
    and "\<And>fs. x fs = (True, Ret (RText m))"
  shows "\<exists>sv' rep j. webhook s env now t True auth x cid req sv = (sv', Ret rep) \<and> reply_status rep = 200 \<and>
    is_job_reply rep \<and> get_job (sv_db sv') (job_id j) = Some j \<and> job_status j \<noteq> JOB_PENDING \<and>
    job_dedup_key j = hexdigest (sha256 (utf8 (''pull_request|'' @ rp @ ''|'' @ int_str pr @ ''|'' @ sha)))"
proof -
  let ?p = "replayed rp pr sha author"
  obtain l where l: "rate_limit s t req (webhook_limiter sv) = (l, None)"
    using assms(7) by (cases "rate_limit s t req (webhook_limiter sv)") auto
  let ?sv = "sv\<lparr>webhook_limiter := l\<rparr>"
  obtain w r where ing: "ingest now x cid ?p \<lparr>idb = sv_db ?sv, stream = sv_stream ?sv\<rparr> = (w, Ret r)"
    using ingest_succeeds [of "\<lparr>idb = sv_db ?sv, stream = sv_stream ?sv\<rparr>" x m] assms(1,10) by fastforce
  then obtain sv' rep where acc: "accept_job s now x cid ?p ?sv = (sv', Ret rep)" "\<not> is_retry_reply rep"
    by (auto simp: accept_job_def)
  have wf: "wf_db (sv_db ?sv)" using assms(1) by simp
  have wf': "wf_db (sv_db sv')" using wf_accept_job [OF wf, of s now x cid ?p] acc(1) by simp
  from accept_job_reply [OF wf acc(1)] acc(2) obtain i st j where
    j: "rep = reply_with 200 [(''status'', JStr st), (''job_id'', JInt i)]" "find_job (sv_db sv') (payload_dedup_key ?p) = Some j"
      "job_status j \<noteq> JOB_PENDING"
    by (auto simp: is_retry_reply_def)
  have "webhook s env now t True auth x cid req sv = (sv', Ret rep)"
    using replay_run [OF assms(2,3,4,6) _ assms(8,9)] l acc(1) assms(5) by simp
  moreover have "get_job (sv_db sv') (job_id j) = Some j" "job_dedup_key j = payload_dedup_key ?p"
    using j(2) by (simp_all add: find_job_get [OF wf'])
  ultimately show ?thesis using j
    by (intro exI [of _ sv'] exI [of _ rep] exI [of _ j])
      (auto simp: is_job_reply_def reply_with_def payload_dedup_key_def replayed_def)
qed

text \<open>A replay to a fresh instance.\<close>

definition demo_env :: json_env where
  "demo_env = \<lparr>to_float = (\<lambda>s. JFloat s (Some 0)), wide_codec = (\<lambda>b. Ret b), max_depth = 9\<rparr>"

definition demo_service :: service where
  "demo_service = \<lparr>sv_db = empty_db, sv_stream = [], sv_calls = [], webhook_limiter = new_limiter 120 60,
     mutation_limiter = new_limiter 30 60\<rparr>"

definition demo_replay :: http_request where
  "demo_replay = signed_request default_settings (dumps (send_pr_payload ''octo/demo'' 7 ''abc'' ''me''))"

lemma demo_conditions:
  "encodable demo_env 0 (send_pr_payload ''octo/demo'' 7 ''abc'' ''me'')"
  "int (length (dumps (send_pr_payload ''octo/demo'' 7 ''abc'' ''me''))) \<le> max_webhook_bytes default_settings"
  "rate_limit default_settings 0 demo_replay (webhook_limiter demo_service) =
    ((webhook_limiter demo_service)\<lparr>buckets := [''127.0.0.1'' \<mapsto> \<lparr>win_start = 0, win_count = 1\<rparr>]\<rparr>, None)"
  "repo_is_allowed default_settings (JStr ''octo/demo'') = Ret True"
  "quota_reason default_settings 1 (sv_db demo_service) ''octo/demo'' None = None"
proof -
  have n: "int_str 7 = ''7''" by (simp add: int_str_def nat_str.simps digit_def) code_simp
  show "encodable demo_env 0 (send_pr_payload ''octo/demo'' 7 ''abc'' ''me'')"
    by (simp add: send_pr_payload_def demo_env_def n INT_MAX_DIGITS_def)
  show "int (length (dumps (send_pr_payload ''octo/demo'' 7 ''abc'' ''me''))) \<le> max_webhook_bytes default_settings"
    by (simp add: send_pr_payload_def n quoted_def escape_char_def default_settings_def)
  show "repo_is_allowed default_settings (JStr ''octo/demo'') = Ret True"
    by (simp add: repo_is_allowed_def allowed_repo_set_def csv_parts_def default_settings_def
      strip_def lstrip_def rstrip_def)
  show "quota_reason default_settings 1 (sv_db demo_service) ''octo/demo'' None = None"
    by (simp add: quota_reason_def default_settings_def)
  show "rate_limit default_settings 0 demo_replay (webhook_limiter demo_service) =
    ((webhook_limiter demo_service)\<lparr>buckets := [''127.0.0.1'' \<mapsto> \<lparr>win_start = 0, win_count = 1\<rparr>]\<rparr>, None)"
    by (simp add: rate_limit_def demo_replay_def signed_request_def limiter_key_def client_ip_def resolve_client_ip_def
        allow_def demo_service_def new_limiter_def default_settings_def)
qed

theorem replayed_delivery_accepted_witness:
  "\<exists>sv' rep. webhook default_settings demo_env 1 0 True None redis_up [] demo_replay demo_service = (sv', Ret rep) \<and>
     reply_status rep = 200 \<and> is_job_reply rep"
  using replayed_delivery_accepted [of demo_service "''octo/demo''" "''abc''" demo_env 7 "''me''" demo_replay
      default_settings 0 1 redis_up "''1-0''" None "[]"] demo_conditions
  by (force simp: demo_replay_def redis_up_def demo_service_def)

lemma demo_run:
  obtains sv' rep where
    "webhook default_settings demo_env 1 0 True None redis_up [] demo_replay demo_service = (sv', Ret rep)"
    "is_job_reply rep" "sv_db sv' \<noteq> sv_db demo_service"
proof -
  let ?p = "replayed ''octo/demo'' 7 ''abc'' ''me''"
  let ?sv = "demo_service\<lparr>webhook_limiter := (webhook_limiter demo_service)
    \<lparr>buckets := [''127.0.0.1'' \<mapsto> \<lparr>win_start = 0, win_count = 1\<rparr>]\<rparr>\<rparr>"
  have run: "webhook default_settings demo_env 1 0 True None redis_up [] demo_replay demo_service =
      accept_job default_settings 1 redis_up [] ?p ?sv"
    using replay_run [OF _ _ demo_conditions(1,2) _ demo_conditions(4,5)] demo_conditions(3)
    by (simp add: demo_replay_def)
  have wf: "wf_db (sv_db ?sv)" by (simp add: demo_service_def)
  obtain w r where "ingest 1 redis_up [] ?p \<lparr>idb = sv_db ?sv, stream = sv_stream ?sv\<rparr> = (w, Ret r)"
    using ingest_succeeds [of "\<lparr>idb = sv_db ?sv, stream = sv_stream ?sv\<rparr>" redis_up "''1-0''"] wf
    by (fastforce simp: redis_up_def)
  then obtain sv' rep where acc: "accept_job default_settings 1 redis_up [] ?p ?sv = (sv', Ret rep)"
    "\<not> is_retry_reply rep" by (auto simp: accept_job_def)
  from accept_job_reply [OF wf acc(1)] acc(2) obtain i st j where
    j: "rep = reply_with 200 [(''status'', JStr st), (''job_id'', JInt i)]"
      "find_job (sv_db sv') (payload_dedup_key ?p) = Some j"
    by (auto simp: is_retry_reply_def)
  have "find_job (sv_db demo_service) k = None" for k by (simp add: demo_service_def demo_admitted(1))
  with j(2) have "sv_db sv' \<noteq> sv_db demo_service" by auto
  moreover have "is_job_reply rep" using j(1) by (simp add: is_job_reply_def reply_with_def)
  ultimately show ?thesis using that run acc(1) by simp
qed

theorem webhook_authentic_witness:
  "signature_header demo_replay =
     Some (compute_signature (webhook_secret default_settings) (concat (body_chunks demo_replay)))"
proof -
  obtain sv' rep where
    "webhook default_settings demo_env 1 0 True None redis_up [] demo_replay demo_service = (sv', Ret rep)"
    "sv_db sv' \<noteq> sv_db demo_service" by (rule demo_run)
  from webhook_authentic [OF this(1)] this(2) show ?thesis by blast
qed


end
