(* ===== verification/Rag.thy ===== *)
theory Rag
  imports Config Security
begin

text \<open>
  Grounding, \<^verbatim>\<open>src/app/agents/rag.py\<close>: chunks of a repository with deterministic ids, their ingestion
  and their retrieval within the scope of the current run. The embedding model, the text splitter
  and the Qdrant client are parameters; a value of type \<open>'w\<close> is the state of the Qdrant server and a
  value of type \<open>'v\<close> a vector. The context variable that names the current repository is an argument.
  \<open>uuid.uuid5\<close> of the standard library is written out over SHA-1.
\<close>

unbundle bit_operations_syntax

section \<open>UUIDs\<close>

fun extend_schedule1 :: "nat \<Rightarrow> word32 list \<Rightarrow> word32 list" where
  "extend_schedule1 0 ws = ws"
| "extend_schedule1 (Suc n) ws = extend_schedule1 n
     (word_rotl 1 (ws ! 2 XOR ws ! 7 XOR ws ! 13 XOR ws ! 15) # ws)"

definition sha1_mix :: "nat \<Rightarrow> word32 \<Rightarrow> word32 \<Rightarrow> word32 \<Rightarrow> word32" where
  "sha1_mix t b c d =
     (if t < 20 then select_bits b c d + 1518500249
      else if t < 40 then (b XOR c XOR d) + 1859775393
      else if t < 60 then majority b c d + 2400959708
      else (b XOR c XOR d) + 3395469782)"

fun sha1_round :: "word32 list \<Rightarrow> nat \<times> word32 \<Rightarrow> word32 list" where
  "sha1_round [a, b, c, d, e] (t, w) =
     [word_rotl 5 a + sha1_mix t b c d + e + w, a, word_rotl 30 b, c, d]"
| "sha1_round st _ = st"

definition sha1_block :: "word32 list \<Rightarrow> word32 list \<Rightarrow> word32 list" where
  "sha1_block hs block = map2 (+) hs
     (foldl sha1_round hs (zip [0..<80] (rev (extend_schedule1 64 (rev block)))))"

function sha1_blocks :: "word32 list \<Rightarrow> string \<Rightarrow> word32 list" where
  "sha1_blocks hs m = (if length m < 64 then hs
     else sha1_blocks (sha1_block hs (to_words (take 64 m))) (drop 64 m))"
  by pat_completeness auto
termination
  by (relation "measure (\<lambda>(hs, m). length m)") auto

declare sha1_blocks.simps [simp del]

definition sha1 :: "string \<Rightarrow> string" where
  "sha1 m = concat (map word_bytes (sha1_blocks
     [1732584193, 4023233417, 2562383102, 271733878, 3285377520] (pad_message m)))"

definition NAMESPACE_URL :: string where
  "NAMESPACE_URL = map char_of [107, 167, 184, 17, 157, 173, 17, 209, 128, 180, 0, 192, 79, 212, 48, 200 :: nat]"

definition uuid5 :: "string \<Rightarrow> string \<Rightarrow> string" where
  "uuid5 namespace name =
     (let b = take 16 (sha1 (namespace @ utf8 name));
          v = b[6 := char_of ((of_char (b ! 6) :: nat) mod 16 + 80),
                8 := char_of ((of_char (b ! 8) :: nat) mod 64 + 128)] in
      join ''-'' [hexdigest (take 4 v), hexdigest (take 2 (drop 4 v)), hexdigest (take 2 (drop 6 v)),
                  hexdigest (take 2 (drop 8 v)), hexdigest (drop 10 v)])"


section \<open>Chunks\<close>

record repo_chunk =
  ck_path :: string
  ck_content :: string
  ck_start :: int
  ck_end :: int

definition chunk_id :: "repo_chunk \<Rightarrow> string" where
  "chunk_id c = uuid5 NAMESPACE_URL
     (ck_path c @ '':'' @ int_str (ck_start c) @ ''-'' @ int_str (ck_end c))"

definition file_chunks :: "(string \<Rightarrow> string list) \<Rightarrow> string \<times> string \<Rightarrow> repo_chunk list" where
  "file_chunks split_text f =
     (if strip (snd f) = [] then []
      else map (\<lambda>(i, t). let start = int i * 10 + 1 in
          \<lparr>ck_path = fst f, ck_content = t, ck_start = start, ck_end = start + 10\<rparr>)
        (List.enumerate 0 (split_text (snd f))))"

record 'v point =
  pt_id :: string
  pt_vector :: 'v
  pt_payload :: json

definition chunk_payload :: "string option \<Rightarrow> repo_chunk \<Rightarrow> json" where
  "chunk_payload scope c = JDict [(''repo'', JStr (get_default [] scope)),
     (''file_path'', JStr (ck_path c)), (''content'', JStr (ck_content c)),
     (''start_line'', JInt (ck_start c)), (''end_line'', JInt (ck_end c))]"

definition chunk_point :: "string option \<Rightarrow> repo_chunk \<times> 'v \<Rightarrow> 'v point" where
  "chunk_point scope cv = \<lparr>pt_id = chunk_id (fst cv), pt_vector = snd cv,
     pt_payload = chunk_payload scope (fst cv)\<rparr>"


section \<open>The store\<close>

text \<open>What the code calls of the Qdrant client and of the embedding package.\<close>

record ('v, 'w) rag_api =
  embedding_installed :: bool
  load_model :: "unit res"
  connect :: "string \<Rightarrow> unit res"
  get_collections :: "'w \<Rightarrow> string list res"
  create_collection :: "string \<Rightarrow> nat \<Rightarrow> 'w \<Rightarrow> 'w \<times> unit res"
  embed :: "json list \<Rightarrow> 'v list res"
  split_text :: "string \<Rightarrow> string list"
  upsert :: "string \<Rightarrow> 'v point list \<Rightarrow> 'w \<Rightarrow> 'w \<times> unit res"
  query_points :: "string \<Rightarrow> 'v \<Rightarrow> nat \<Rightarrow> string option \<Rightarrow> 'w \<Rightarrow> json option list res"

definition embedding_dim :: nat where "embedding_dim = 384"

definition ensure_collection :: "('v, 'w) rag_api \<Rightarrow> string \<Rightarrow> 'w \<Rightarrow> 'w \<times> unit res" where
  "ensure_collection api coll w = (case get_collections api w of
       Inl e \<Rightarrow> (w, Raise e)
     | Inr names \<Rightarrow> if coll \<in> set names then (w, Ret ()) else create_collection api coll embedding_dim w)"

text \<open>The constructor; the store is then known by its collection.\<close>

definition new_repo_rag ::
    "settings \<Rightarrow> ('v, 'w) rag_api \<Rightarrow> string option \<Rightarrow> string \<Rightarrow> 'w \<Rightarrow> 'w \<times> string res" where
  "new_repo_rag s api url coll w =
     (let url = (if get_default [] url = [] then qdrant_url s else get_default [] url) in
      case connect api url of
        Inl e \<Rightarrow> (w, Raise e)
      | Inr _ \<Rightarrow>
          if \<not> embedding_installed api then (w, Raise (Exc RuntimeError
            (''RAG requires the optional '' @ str_repr ''fastembed'' @
             '' dependency. Install it with: uv sync --extra rag'')))
          else (case load_model api of
              Inl e \<Rightarrow> (w, Raise e)
            | Inr _ \<Rightarrow> map_prod id (map_sum id (\<lambda>_. coll)) (ensure_collection api coll w)))"

definition build_rag ::
    "settings \<Rightarrow> ('v, 'w) rag_api \<Rightarrow> string option \<Rightarrow> string \<Rightarrow> 'w \<Rightarrow> 'w \<times> string option" where
  "build_rag s api url coll w = map_prod id (case_sum (\<lambda>_. None) Some) (new_repo_rag s api url coll w)"

definition zip_strict :: "'a list \<Rightarrow> 'b list \<Rightarrow> ('a \<times> 'b) list res" where
  "zip_strict xs ys = (if length xs = length ys then Ret (zip xs ys)
     else Raise (Exc ValueError ''zip() arguments have different lengths''))"

text \<open>The chunks of a tree, each with its vector.\<close>

definition embedded_chunks ::
    "('v, 'w) rag_api \<Rightarrow> repo_chunk list \<Rightarrow> (repo_chunk \<times> 'v) list res" where
  "embedded_chunks api chunks = rbind (embed api (map (JStr \<circ> ck_content) chunks)) (zip_strict chunks)"

definition ingest_repo ::
    "('v, 'w) rag_api \<Rightarrow> string \<Rightarrow> string option \<Rightarrow> (string \<times> string) list \<Rightarrow> 'w \<Rightarrow> 'w \<times> nat res" where
  "ingest_repo api coll scope files w =
     (let chunks = concat (map (file_chunks (split_text api)) files) in
      if chunks = [] then (w, Ret 0)
      else (case embedded_chunks api chunks of
          Inl e \<Rightarrow> (w, Raise e)
        | Inr pairs \<Rightarrow>
            map_prod id (map_sum id (\<lambda>_. length pairs)) (upsert api coll (map (chunk_point scope) pairs) w)))"

definition retrieve ::
    "('v, 'w) rag_api \<Rightarrow> string \<Rightarrow> string option \<Rightarrow> 'w \<Rightarrow> json \<Rightarrow> nat \<Rightarrow> json list res" where
  "retrieve api coll scope w query top_k =
     rbind (embed api [query]) (\<lambda>vs. case vs of
         [] \<Rightarrow> Raise (Exc OtherException ''IndexError'')
       | v # _ \<Rightarrow> rbind (query_points api coll v top_k
             (if get_default [] scope = [] then None else scope) w)
           (\<lambda>hits. Ret (filter truthy (List.map_filter id hits))))"


section \<open>Facts\<close>

text \<open>
  The id of a chunk says nothing about its repository: the same tree ingested for another
  repository writes points with the same ids, so in the one collection the service uses they replace
  each other. With a server whose \<open>upsert\<close> replaces points by id, only the last repository's chunks
  are left.
\<close>

lemma same_ids: "map pt_id (map (chunk_point a) ps) = map pt_id (map (chunk_point b) ps)"
  by (simp add: chunk_point_def)

theorem ingest_overwrites_other_repo:
  fixes api :: "('v, 'v point list) rag_api"
  assumes upsert: "\<And>ps w. upsert api coll ps w =
      (filter (\<lambda>p. pt_id p \<notin> set (map pt_id ps)) w @ ps, Ret ())"
    and first: "ingest_repo api coll (Some r1) files w = (w1, Ret (Suc n))"
    and second: "ingest_repo api coll (Some r2) files w1 = (w2, Ret m)"
  shows "\<forall>p\<in>set w2. p \<in> set w \<or> pt_payload p \<in> chunk_payload (Some r2) ` UNIV"
proof -
  let ?chunks = "concat (map (file_chunks (split_text api)) files)"
  have some: "?chunks \<noteq> []"
  proof
    assume "?chunks = []"
    then show False using first unfolding ingest_repo_def Let_def by (simp only: if_True prod.inject) simp
  qed
  then obtain pairs where pairs: "embedded_chunks api ?chunks = Ret pairs"
    using first unfolding ingest_repo_def Let_def if_not_P [OF some]
    by (cases "embedded_chunks api ?chunks") simp_all
  have run: "ingest_repo api coll sc files v =
    (filter (\<lambda>p. pt_id p \<notin> set (map pt_id (map (chunk_point sc) pairs))) v @ map (chunk_point sc) pairs,
     Ret (length pairs))" for sc v
    unfolding ingest_repo_def Let_def if_not_P [OF some] pairs by (simp add: upsert)
  have w1: "w1 = filter (\<lambda>p. pt_id p \<notin> set (map pt_id (map (chunk_point (Some r1)) pairs))) w
      @ map (chunk_point (Some r1)) pairs"
    using first unfolding run by (simp only: prod.inject)
  have w2: "w2 = filter (\<lambda>p. pt_id p \<notin> set (map pt_id (map (chunk_point (Some r2)) pairs))) w1
      @ map (chunk_point (Some r2)) pairs"
    using second unfolding run by (simp only: prod.inject)
  have "p \<notin> set (map (chunk_point (Some r1)) pairs)"
    if "pt_id p \<notin> set (map pt_id (map (chunk_point (Some r2)) pairs))" for p
    using that same_ids [of "Some r1" pairs "Some r2"] by (metis image_eqI list.set_map)
  then show ?thesis unfolding w2 w1 by (auto simp: chunk_point_def)
qed

text \<open>
  Retrieval within a scope asks the server for the points of that repository only, so with a server
  that honours its filter no other repository's code reaches a prompt.
\<close>

theorem retrieval_scoped:
  assumes "retrieve api coll (Some rp) w query k = Ret hits" and "rp \<noteq> []"
    and "\<And>v hs. query_points api coll v k (Some rp) w = Ret hs \<Longrightarrow>
      \<forall>h\<in>set hs. case h of None \<Rightarrow> True | Some p \<Rightarrow> jget p ''repo'' = Ret (Some (JStr rp))"
  shows "\<forall>h\<in>set hits. jget h ''repo'' = Ret (Some (JStr rp))"
proof -
  obtain vs where vs: "embed api [query] = Ret vs" using assms(1) by (auto simp: retrieve_def)
  obtain v vs' where "vs = v # vs'" using assms(1) vs by (cases vs) (simp_all add: retrieve_def)
  then obtain hs where "query_points api coll v k (Some rp) w = Ret hs"
    and hits: "hits = filter truthy (List.map_filter id hs)"
    using assms(1,2) vs by (auto simp: retrieve_def)
  from assms(3) [OF this(1)] show ?thesis
    unfolding hits by (auto simp: List.map_filter_def split: option.splits)
qed

definition demo_rag :: "(nat, nat point list) rag_api" where
  "demo_rag = \<lparr>embedding_installed = True, load_model = Ret (), connect = (\<lambda>_. Ret ()),
     get_collections = (\<lambda>_. Ret [''autopr_repo'']), create_collection = (\<lambda>_ _ w. (w, Ret ())),
     embed = (\<lambda>ts. Ret (map (\<lambda>_. 0) ts)), split_text = (\<lambda>s. [s]),
     upsert = (\<lambda>_ ps w. (filter (\<lambda>p. pt_id p \<notin> set (map pt_id ps)) w @ ps, Ret ())),
     query_points = (\<lambda>_ _ k scope w. Ret (take k (map (Some \<circ> pt_payload)
       (filter (\<lambda>p. scope = None \<or> jget (pt_payload p) ''repo'' = Ret (Some (JStr (get_default [] scope)))) w))))\<rparr>"

theorem ingest_overwrites_other_repo_witness:
  "\<exists>w1 w2. ingest_repo demo_rag ''c'' (Some ''o/a'') [(''m.py'', ''x'')] [] = (w1, Ret 1) \<and>
     ingest_repo demo_rag ''c'' (Some ''o/b'') [(''m.py'', ''x'')] w1 = (w2, Ret 1) \<and>
     (\<forall>p\<in>set w2. pt_payload p \<in> chunk_payload (Some ''o/b'') ` UNIV)"
proof -
  obtain w1 where w1: "ingest_repo demo_rag ''c'' (Some ''o/a'') [(''m.py'', ''x'')] [] = (w1, Ret 1)"
    by (simp add: ingest_repo_def demo_rag_def file_chunks_def strip_def lstrip_def rstrip_def py_isspace_def
        embedded_chunks_def zip_strict_def)
  obtain w2 where w2: "ingest_repo demo_rag ''c'' (Some ''o/b'') [(''m.py'', ''x'')] w1 = (w2, Ret 1)"
    by (simp add: ingest_repo_def demo_rag_def file_chunks_def strip_def lstrip_def rstrip_def py_isspace_def
        embedded_chunks_def zip_strict_def)
  have up: "upsert demo_rag ''c'' ps w = (filter (\<lambda>p. pt_id p \<notin> set (map pt_id ps)) w @ ps, Ret ())" for ps w
    by (simp add: demo_rag_def)
  have "\<forall>p\<in>set w2. p \<in> set [] \<or> pt_payload p \<in> chunk_payload (Some ''o/b'') ` UNIV"
    by (rule ingest_overwrites_other_repo [OF up _ w2, where n = 0]) (use w1 in simp)
  with w1 w2 show ?thesis by auto
qed

theorem retrieval_scoped_witness:
  "\<exists>hits. retrieve demo_rag ''c'' (Some ''o/a'')
     [\<lparr>pt_id = ''1'', pt_vector = 0, pt_payload = JDict [(''repo'', JStr ''o/a'')]\<rparr>,
      \<lparr>pt_id = ''2'', pt_vector = 0, pt_payload = JDict [(''repo'', JStr ''o/b'')]\<rparr>] (JStr ''q'') 5 = Ret hits \<and>
     hits \<noteq> [] \<and> (\<forall>h\<in>set hits. jget h ''repo'' = Ret (Some (JStr ''o/a'')))"
  (is "\<exists>hits. ?r = _ \<and> _")
proof -
  have r: "?r = Ret [JDict [(''repo'', JStr ''o/a'')]]" by code_simp
  have "\<forall>h\<in>set [JDict [(''repo'', JStr ''o/a'')]]. jget h ''repo'' = Ret (Some (JStr ''o/a''))"
    by (rule retrieval_scoped [OF r]) (auto simp: demo_rag_def dest!: in_set_takeD)
  with r show ?thesis by auto
qed

end
