(* ===== verification/Agents.thy ===== *)
theory Agents
  imports Policy Json Rag
begin

text \<open>
  The agents, \<^verbatim>\<open>src/app/agents/\<close>: the shared helpers (\<^verbatim>\<open>common.py\<close>), the model configuration
  (\<^verbatim>\<open>llm.py\<close>) and the four nodes that ask the model: reviewer, test generator, CI monitor and fix
  agent. The chat model is a parameter that may fail; \<open>'w\<close> is what it remembers between calls. The
  retrieval store is an optional function from a query to the payloads found. A node returns the
  state with its keys merged in, or raises.
\<close>

section \<open>Shared helpers\<close>

definition need :: "string \<Rightarrow> 'a option \<Rightarrow> 'a res" where
  "need k v = (case v of None \<Rightarrow> Raise (Exc KeyError (''KeyError('' @ str_repr k @ '')'')) | Some x \<Rightarrow> Ret x)"

definition json_item :: "json \<Rightarrow> string \<Rightarrow> json res" where
  "json_item v k = (case v of
       JDict d \<Rightarrow> need k (map_of d k)
     | _ \<Rightarrow> Raise (Exc TypeError ''object is not subscriptable by a text''))"

definition json_len :: "json \<Rightarrow> nat res" where
  "json_len v = (case v of
       JStr s \<Rightarrow> Ret (length s) | JList xs \<Rightarrow> Ret (length xs) | JDict d \<Rightarrow> Ret (length d)
     | _ \<Rightarrow> Raise (Exc TypeError ''object has no len()''))"

text \<open>A reply of the model: a text, or a list of parts of which only the texts count.\<close>

datatype content = Text string | Parts "string option list"

definition message_text :: "content \<Rightarrow> string" where
  "message_text c = (case c of Text s \<Rightarrow> s | Parts ps \<Rightarrow> concat (List.map_filter id ps))"

record llm_config =
  lc_model :: string
  lc_temperature :: rat
  lc_api_key :: string
  lc_max_retries :: nat
  lc_timeout :: rat

definition DEFAULT_MODEL :: "settings \<Rightarrow> string" where
  "DEFAULT_MODEL s = (if llm_model s = [] then ''openai/gpt-oss-120b'' else llm_model s)"

type_synonym messages = "(string \<times> string) list"

record 'w chat_api =
  new_chat :: "llm_config \<Rightarrow> unit res"
  chat :: "llm_config \<Rightarrow> messages \<Rightarrow> 'w \<Rightarrow> 'w \<times> content res"

definition get_llm :: "settings \<Rightarrow> 'w chat_api \<Rightarrow> rat \<Rightarrow> llm_config res" where
  "get_llm s api temperature =
     (let c = \<lparr>lc_model = DEFAULT_MODEL s, lc_temperature = temperature, lc_api_key = groq_api_key s,
               lc_max_retries = 2, lc_timeout = llm_timeout_s s\<rparr> in
      rbind (new_chat api c) (\<lambda>_. Ret c))"

text \<open>Three attempts; the last exception is raised again. The waits in between are not modelled.\<close>

fun invoke_attempts :: "nat \<Rightarrow> 'w chat_api \<Rightarrow> llm_config \<Rightarrow> messages \<Rightarrow> 'w \<Rightarrow> 'w \<times> content res" where
  "invoke_attempts 0 api c ms w = chat api c ms w"
| "invoke_attempts (Suc n) api c ms w = (case chat api c ms w of
       (w', Inl e) \<Rightarrow> invoke_attempts n api c ms w'
     | (w', Inr r) \<Rightarrow> (w', Ret r))"

definition invoke_llm :: "'w chat_api \<Rightarrow> llm_config \<Rightarrow> messages \<Rightarrow> 'w \<Rightarrow> 'w \<times> content res" where
  "invoke_llm api c ms w = invoke_attempts 2 api c ms w"

text \<open>
  The first occurrence of a text and what follows it; the content of the first fenced block, as the
  regular expression finds it; the widest span between two brackets.
\<close>

fun cut :: "string \<Rightarrow> string \<Rightarrow> (string \<times> string) option" where
  "cut pat [] = (if pat = [] then Some ([], []) else None)"
| "cut pat (c # cs) =
     (if startswith (c # cs) pat then Some ([], drop (length pat) (c # cs))
      else map_option (\<lambda>(a, b). (c # a, b)) (cut pat cs))"

definition fenced_block :: "string \<Rightarrow> string option" where
  "fenced_block s = (case cut fence s of
       None \<Rightarrow> None
     | Some (_, r) \<Rightarrow>
         map_option fst (cut fence (lstrip (if startswith r ''json'' then drop 4 r else r))))"

definition widest_span :: "char \<Rightarrow> char \<Rightarrow> string \<Rightarrow> string option" where
  "widest_span a b s =
     (let r = rev (dropWhile (\<lambda>c. c \<noteq> b) (rev (dropWhile (\<lambda>c. c \<noteq> a) s))) in
      if r = [] then None else Some r)"

text \<open>The candidates in order; only a decoding error moves on to the next one.\<close>

fun first_json :: "json_env \<Rightarrow> exc \<Rightarrow> string option list \<Rightarrow> json res" where
  "first_json env e [] = Raise e"
| "first_json env e (None # cs) = first_json env e cs"
| "first_json env e (Some s # cs) = (case loads env s of
       Inr v \<Rightarrow> Ret v
     | Inl x \<Rightarrow> if exc_class x = JSONDecodeError then first_json env e cs else Raise x)"

definition parse_json :: "json_env \<Rightarrow> string \<Rightarrow> json res" where
  "parse_json env text' =
     (let t = strip text' in
      first_json env
        (Exc ValueError (''ValueError('' @ str_repr (''No valid JSON found in LLM response: '' @
           str_repr (take 200 t)) @ '')''))
        [Some t, map_option strip (fenced_block t),
         widest_span CHR ''{'' CHR ''}'' t, widest_span CHR ''['' CHR '']'' t])"

definition slice_to :: "int \<Rightarrow> string \<Rightarrow> string" where
  "slice_to n s = (if 0 \<le> n then take (nat n) s else take (length s - nat (- n)) s)"

definition file_block :: "changed_file \<Rightarrow> string" where
  "file_block f = ''### File: '' @ get_default ''unknown'' (cf_path f) @ newline @ fence @ ''diff'' @ newline @
     get_default [] (cf_patch f) @ newline @ fence @ newline"

fun file_blocks :: "int \<Rightarrow> changed_file list \<Rightarrow> string list" where
  "file_blocks budget [] = []"
| "file_blocks budget (f # fs) =
     (let b = file_block f;
          b = (if int (length b) > budget
               then slice_to budget b @ newline @ ''... (truncated)'' @ newline else b);
          rest = budget - int (length b) in
      b # (if rest \<le> 0 then [] else file_blocks rest fs))"

definition format_changed_files :: "int \<Rightarrow> changed_file list \<Rightarrow> string" where
  "format_changed_files max_chars fs = join_lines (file_blocks max_chars fs)"

definition MAX_CHARS :: int where "MAX_CHARS = 8000"

definition strip_fences :: "string \<Rightarrow> string" where
  "strip_fences s = (if startswith s fence then
     (let ls = split_on CHR 0x0A s in
      if length ls > 2 then join_lines (butlast (tl ls)) else s) else s)"

text \<open>Retrieval, best effort: any exception leaves the context empty.\<close>

type_synonym rag_store = "json \<Rightarrow> nat \<Rightarrow> json list res"

definition hit_block :: "json \<Rightarrow> string res" where
  "hit_block h = rbind (json_item h ''file_path'') (\<lambda>p. rbind (json_item h ''content'') (\<lambda>c.
     Ret (json_str p @ '':'' @ newline @ json_str c)))"

definition hits_text :: "string list \<Rightarrow> string" where
  "hits_text bs = join (newline @ ''---'' @ newline) bs"

definition grounding :: "rag_store \<Rightarrow> json \<Rightarrow> nat \<Rightarrow> string" where
  "grounding rag query k =
     case_sum (\<lambda>_. []) id (rbind (rag query k) (\<lambda>hits. rbind (rmap hit_block hits) (\<lambda>bs. Ret (hits_text bs))))"

definition is_test_hit :: "json \<Rightarrow> bool res" where
  "is_test_hit h = rbind (jget h ''file_path'') (\<lambda>v. case v of
       None \<Rightarrow> Ret False
     | Some (JStr p) \<Rightarrow> Ret (contains (lower p) ''test'')
     | Some _ \<Rightarrow> Raise (no_attr ''lower''))"

fun rfilter :: "('a \<Rightarrow> bool res) \<Rightarrow> 'a list \<Rightarrow> 'a list res" where
  "rfilter p [] = Ret []"
| "rfilter p (x # xs) = rbind (p x) (\<lambda>b. rbind (rfilter p xs) (\<lambda>ys. Ret (if b then x # ys else ys)))"

definition test_grounding :: "rag_store \<Rightarrow> json \<Rightarrow> nat \<Rightarrow> string" where
  "test_grounding rag query k =
     case_sum (\<lambda>_. []) id (rbind (rag query k) (\<lambda>hits. rbind (rfilter is_test_hit hits) (\<lambda>hs.
       rbind (rmap hit_block hs) (\<lambda>bs. Ret (hits_text bs)))))"

text \<open>The paths of the first files of the pull request, joined: the query of a node.\<close>

definition path_query :: "nat \<Rightarrow> changed_file list \<Rightarrow> string res" where
  "path_query n fs = rbind (rmap (\<lambda>f. need ''path'' (cf_path f)) (take n fs)) (\<lambda>ps. Ret (join '' '' ps))"

text \<open>A label of the reply: lower case, stripped, and replaced by the default when it is not of the scale.\<close>

definition normalised :: "string list \<Rightarrow> string \<Rightarrow> json option \<Rightarrow> string" where
  "normalised scale default' v = (let x = strip (lower (json_str (get_default (JStr default') v))) in
     if x \<in> set scale then x else default')"

text \<open>One question to the model, its reply as text.\<close>

definition ask ::
    "settings \<Rightarrow> 'w chat_api \<Rightarrow> string \<Rightarrow> string res \<Rightarrow> 'w \<Rightarrow> 'w \<times> string res" where
  "ask s api system user w =
     (case rbind (get_llm s api 0) (\<lambda>c. rbind user (\<lambda>u. Ret (c, [(''system'', system), (''human'', u)]))) of
        Inl e \<Rightarrow> (w, Raise e)
      | Inr (c, ms) \<Rightarrow> map_prod id (map_sum id message_text) (invoke_llm api c ms w))"


section \<open>The code reviewer\<close>

definition VALID_RISK :: "string list" where
  "VALID_RISK = [''trivial'', ''low'', ''medium'', ''high'']"

definition REVIEW_PROMPT :: string where
  "REVIEW_PROMPT = join_lines [
     ''You are a senior software engineer performing a code review.'',
     ''You review diffs and return STRICT JSON only '' @ em_dash @ '' no prose outside the JSON.'',
     [],
     ''Assess the change and return this exact schema:'',
     ''{'',
     ''  \"findings\": ['',
     ''    {\"file\": \"path\", \"line\": <int>, \"severity\": \"info|warning|error\",'',
     ''     \"message\": \"concise description of the bug or smell\"}'',
     ''  ],'',
     ''  \"risk_score\": \"trivial|low|medium|high\",'',
     ''  \"summary\": \"2-3 sentence plain-language summary a non-expert can understand\"'',
     ''}'',
     [],
     ''Risk scoring rubric:'',
     ''- trivial: docs/comments/formatting only, no logic change.'',
     ''- low: small localized logic change, well-tested area, low blast radius.'',
     ''- medium: touches shared/core logic, or adds meaningful behavior, or reduces'',
     ''  test coverage, or spans multiple modules.'',
     ''- high: touches auth/security/data-integrity/migrations, wide blast radius,'',
     ''  or removes tests / significantly lowers coverage.'',
     [],
     ''Base risk on: scope of change, blast radius (how many callers/modules are'',
     ''affected), and test-coverage delta. Be conservative: when unsure between two'',
     ''levels, pick the higher one.'']"

definition context_block :: "string \<Rightarrow> string \<Rightarrow> string" where
  "context_block heading ctx = (if ctx = [] then [] else newline @ heading @ newline @ ctx @ newline)"

definition review_prompt :: "pr_state \<Rightarrow> string \<Rightarrow> string res" where
  "review_prompt st ctx = rbind (need ''changed_files'' (changed_files st)) (\<lambda>fs.
     rbind (need ''repo'' (repo st)) (\<lambda>rp. rbind (need ''pr_number'' (pr_number st)) (\<lambda>pr.
     rbind (need ''commit_sha'' (commit_sha st)) (\<lambda>sha. Ret (
       ''## PR: '' @ rp @ ''#'' @ int_str pr @ '' @ '' @ take 8 sha @ newline @ newline @
       ''## Changed files:'' @ newline @ format_changed_files MAX_CHARS fs @ newline @
       context_block (''## Existing repo patterns (for grounding '' @ em_dash @ '' flag deviations):'') ctx @ newline @
       ''Review the changes and return the JSON schema. Focus on real bugs and '' @
       ''material smells; do not nitpick style the linter would catch.'')))))"

text \<open>What the node makes of the reply.\<close>

definition review_reply :: "json_env \<Rightarrow> pr_state \<Rightarrow> string \<Rightarrow> string \<Rightarrow> pr_state res" where
  "review_reply env st ctx reply = rbind (parse_json env reply) (\<lambda>data.
     rbind (jget data ''risk_score'') (\<lambda>r.
     rbind (jget data ''findings'') (\<lambda>f. let findings = get_default (JList []) f in
     rbind (jget data ''summary'') (\<lambda>m.
     rbind (need ''repo'' (repo st)) (\<lambda>_. rbind (need ''pr_number'' (pr_number st)) (\<lambda>_.
     rbind (json_len findings) (\<lambda>_.
       Ret (st\<lparr>review_findings := Some findings, risk_score := Some (normalised VALID_RISK ''medium'' r),
               summary := Some (get_default (JStr []) m), rag_context := Some ctx\<rparr>))))))))"

definition node_grounding ::
    "(rag_store \<Rightarrow> json \<Rightarrow> nat \<Rightarrow> string) \<Rightarrow> rag_store option \<Rightarrow> pr_state \<Rightarrow> string \<Rightarrow> string res" where
  "node_grounding search rag st prefix = (case rag of
       None \<Rightarrow> Ret []
     | Some r \<Rightarrow>
         (let fs = get_default [] (changed_files st) in
          if fs = [] then Ret []
          else rbind (path_query 5 fs) (\<lambda>q. Ret (search r (JStr (prefix @ q)) 3))))"

definition code_reviewer_node ::
    "settings \<Rightarrow> json_env \<Rightarrow> 'w chat_api \<Rightarrow> rag_store option \<Rightarrow> pr_state \<Rightarrow> 'w \<Rightarrow> 'w \<times> pr_state res" where
  "code_reviewer_node s env api rag st w =
     (case node_grounding grounding rag st [] of
        Inl e \<Rightarrow> (w, Raise e)
      | Inr ctx \<Rightarrow> map_prod id (\<lambda>r. rbind r (review_reply env st ctx))
          (ask s api REVIEW_PROMPT (review_prompt st ctx) w))"


section \<open>The test generator\<close>

definition TEST_PROMPT :: string where
  "TEST_PROMPT = join_lines [
     ''You are a test engineer. Given a code diff, you write unit'',
     ''tests that cover the NEW or CHANGED logic '' @ em_dash @ '' especially edge cases, error'',
     ''paths, and boundary conditions that are currently untested.'',
     [],
     ''Rules:'',
     ''- Match the repo's existing test framework and conventions (shown as context'',
     ''  if available). If none is given, use pytest for Python.'',
     ''- Only test logic that is actually in the diff. Do not invent tests for code'',
     ''  you cannot see.'',
     ''- Prefer a few high-value tests over many trivial ones.'',
     ''- Output ONLY the test code, ready to save to a file. No prose, no markdown'',
     ''  fences, no explanation.'']"

definition test_prompt :: "pr_state \<Rightarrow> string \<Rightarrow> string res" where
  "test_prompt st ctx = rbind (need ''changed_files'' (changed_files st)) (\<lambda>fs. Ret (
     ''## Changed files to test:'' @ newline @ format_changed_files MAX_CHARS fs @ newline @
     context_block ''## Existing test patterns in this repo (match these conventions):'' ctx @ newline @
     ''Write unit tests covering the changed logic. Output only the test code.''))"

definition test_reply :: "pr_state \<Rightarrow> string \<Rightarrow> pr_state res" where
  "test_reply st reply = rbind (need ''repo'' (repo st)) (\<lambda>_. rbind (need ''pr_number'' (pr_number st)) (\<lambda>_.
     Ret (st\<lparr>generated_tests := Some (strip_fences (strip reply))\<rparr>)))"

definition test_generator_node ::
    "settings \<Rightarrow> 'w chat_api \<Rightarrow> rag_store option \<Rightarrow> pr_state \<Rightarrow> 'w \<Rightarrow> 'w \<times> pr_state res" where
  "test_generator_node s api rag st w =
     (case node_grounding test_grounding rag st ''test '' of
        Inl e \<Rightarrow> (w, Raise e)
      | Inr ctx \<Rightarrow> map_prod id (\<lambda>r. rbind r (test_reply st)) (ask s api TEST_PROMPT (test_prompt st ctx) w))"


section \<open>The CI monitor\<close>

definition FAILURE_TYPES :: "string list" where
  "FAILURE_TYPES = [''lint'', ''type_error'', ''test'', ''import'', ''dependency'', ''unknown'']"

definition CI_PROMPT :: string where
  "CI_PROMPT = join_lines [
     ''You are a CI failure triage engineer. Given raw CI logs from'',
     ''a failed GitHub Actions run, you classify the ROOT CAUSE and extract the'',
     ''relevant evidence. Return STRICT JSON only.'',
     [],
     ''Schema:'',
     ''{'',
     ''  \"failure_type\": \"lint|type_error|test|import|dependency|unknown\",'',
     ''  \"diagnosis\": \"1-2 sentences: what failed and the root cause\",'',
     ''  \"excerpt\": \"the specific log lines that show the failure (verbatim)\"'',
     ''}'',
     [],
     ''Taxonomy:'',
     ''- lint: style/format violations (flake8, eslint, black --check, ruff).'',
     ''- type_error: static type checker failures (mypy, pyright, tsc).'',
     ''- test: an assertion or test case failed (pytest, jest) '' @ em_dash @ '' real logic failure.'',
     ''- import: ModuleNotFoundError / ImportError / undefined reference.'',
     ''- dependency: version conflict, unresolvable requirement, lockfile mismatch.'',
     ''- unknown: you cannot confidently determine the cause from these logs.'',
     [],
     ''Rules:'',
     ''- Diagnose the ROOT cause, not a downstream symptom. A test failing because of'',
     ''  a missing import is `import`, not `test`.'',
     ''- If the logs are truncated, ambiguous, or show multiple unrelated failures'',
     ''  with no clear primary, return \"unknown\". Do not guess.'']"

definition LOG_TAIL :: nat where "LOG_TAIL = 12000"

definition log_excerpt :: "string \<Rightarrow> string" where
  "log_excerpt logs = (if length logs > LOG_TAIL
     then ''... (head truncated) ...'' @ newline @ tail_slice LOG_TAIL logs else logs)"

definition diagnosed :: "string \<Rightarrow> json \<Rightarrow> json \<Rightarrow> pr_state \<Rightarrow> pr_state" where
  "diagnosed ftype diagnosis excerpt st =
     st\<lparr>failure_type := Some ftype, failure_diagnosis := Some diagnosis, failure_excerpt := Some excerpt\<rparr>"

definition ci_reply :: "json_env \<Rightarrow> pr_state \<Rightarrow> string \<Rightarrow> pr_state res" where
  "ci_reply env st reply = rbind (parse_json env reply) (\<lambda>data.
     rbind (jget data ''failure_type'') (\<lambda>t.
     rbind (need ''repo'' (repo st)) (\<lambda>_. rbind (need ''pr_number'' (pr_number st)) (\<lambda>_.
     rbind (jget data ''diagnosis'') (\<lambda>d. rbind (jget data ''excerpt'') (\<lambda>x.
       Ret (diagnosed (normalised FAILURE_TYPES ''unknown'' t) (get_default (JStr []) d) (get_default (JStr []) x) st)))))))"

definition ci_monitor_node ::
    "settings \<Rightarrow> json_env \<Rightarrow> 'w chat_api \<Rightarrow> pr_state \<Rightarrow> 'w \<Rightarrow> 'w \<times> pr_state res" where
  "ci_monitor_node s env api st w =
     (let logs = get_default [] (ci_logs st) in
      if strip logs = [] then
        (w, rbind (need ''repo'' (repo st)) (\<lambda>_. rbind (need ''pr_number'' (pr_number st)) (\<lambda>_.
           Ret (diagnosed ''unknown'' (JStr ''No CI logs available to diagnose.'') (JStr []) st))))
      else map_prod id (\<lambda>r. rbind r (ci_reply env st))
        (ask s api CI_PROMPT (Ret (''## CI logs from failed run:'' @ newline @ fence @ newline @
           log_excerpt logs @ newline @ fence @ newline @ newline @ ''Classify the failure.'')) w))"


section \<open>The fix agent\<close>

definition FIX_PROMPT :: string where
  "FIX_PROMPT = join_lines [
     ''You are a software engineer writing a MINIMAL, SCOPED fix for'',
     ''a specific CI failure. You are given the diagnosis, the failing log excerpt, and'',
     ''the changed files.'',
     [],
     ''Output ONLY a unified diff (git diff format) that fixes the diagnosed problem.'',
     ''No prose, no markdown fences.'',
     [],
     ''Hard rules:'',
     ''- Fix ONLY the diagnosed failure. Do not refactor, rename, reformat, or \"improve\"'',
     ''  anything unrelated. A reviewer must see a tiny, obvious diff.'',
     ''- Use symbols, imports, and conventions that actually exist in the repo context'',
     ''  provided. Do not invent APIs.'',
     ''- If the correct fix is not determinable from the given information, output the'',
     ''  single line: NO_FIX_POSSIBLE'',
     ''- Keep the diff limited to the smallest set of lines that resolves the cause.'']"

definition NO_FIX :: string where "NO_FIX = ''NO_FIX_POSSIBLE''"

definition feedback_block :: "pr_state \<Rightarrow> string" where
  "feedback_block st = (let prior = get_default [] (verification_output st) in
     if get_default 0 (fix_attempts st) \<ge> 1 \<and> prior \<noteq> [] then
       newline @ ''## Your previous patch FAILED verification. Do not repeat it.'' @ newline @
       ''Fix the problem it revealed. Sandbox output:'' @ newline @
       fence @ newline @ tail_slice 2000 prior @ newline @ fence @ newline
     else [])"

definition fix_prompt :: "pr_state \<Rightarrow> string \<Rightarrow> string res" where
  "fix_prompt st ctx = rbind (need ''changed_files'' (changed_files st)) (\<lambda>fs. Ret (
     ''## Diagnosed failure: '' @ get_default ''None'' (failure_type st) @ newline @
     ''## Diagnosis: '' @ json_str (get_default JNull (failure_diagnosis st)) @ newline @
     ''## Failing log excerpt:'' @ newline @ fence @ newline @
       json_str (get_default (JStr []) (failure_excerpt st)) @ newline @ fence @ newline @ newline @
     ''## Changed files:'' @ newline @ format_changed_files MAX_CHARS fs @ newline @
     context_block ''## Repo context (use these real symbols):'' ctx @
     feedback_block st @ newline @
     ''Produce the minimal unified diff that fixes this. If not possible, '' @
     ''output NO_FIX_POSSIBLE.''))"

definition fix_grounding :: "rag_store option \<Rightarrow> pr_state \<Rightarrow> string res" where
  "fix_grounding rag st = (case rag of
       None \<Rightarrow> Ret []
     | Some r \<Rightarrow>
         (let d = get_default (JStr []) (failure_diagnosis st) in
          rbind (if truthy d then Ret d
                 else rbind (path_query 3 (get_default [] (changed_files st))) (\<lambda>q. Ret (JStr q)))
            (\<lambda>query. Ret (grounding r query 4))))"

definition proposed :: "string \<Rightarrow> int \<Rightarrow> pr_state \<Rightarrow> pr_state" where
  "proposed fix' n st = st\<lparr>proposed_fix := Some fix', fix_attempts := Some n\<rparr>"

definition fix_reply :: "pr_state \<Rightarrow> string \<Rightarrow> pr_state res" where
  "fix_reply st reply =
     (let patch = strip_fences (strip reply); n = get_default 0 (fix_attempts st) + 1 in
      rbind (need ''repo'' (repo st)) (\<lambda>_. rbind (need ''pr_number'' (pr_number st)) (\<lambda>_.
        Ret (proposed (if patch = NO_FIX \<or> patch = [] then [] else patch) n st))))"

definition fix_agent_node ::
    "settings \<Rightarrow> 'w chat_api \<Rightarrow> rag_store option \<Rightarrow> pr_state \<Rightarrow> 'w \<Rightarrow> 'w \<times> pr_state res" where
  "fix_agent_node s api rag st w =
     (if get_default ''unknown'' (failure_type st) = ''unknown'' then
        (w, rbind (need ''repo'' (repo st)) (\<lambda>_. rbind (need ''pr_number'' (pr_number st)) (\<lambda>_.
           Ret (proposed [] (get_default 0 (fix_attempts st) + 1) st))))
      else (case fix_grounding rag st of
          Inl e \<Rightarrow> (w, Raise e)
        | Inr ctx \<Rightarrow> map_prod id (\<lambda>r. rbind r (fix_reply st)) (ask s api FIX_PROMPT (fix_prompt st ctx) w)))"


section \<open>Facts\<close>

text \<open>
  The model is asked at most three times for one reply, and an exception reaches the node only after
  the third failure.
\<close>

lemma invoke_attempts_bounded:
  assumes "\<And>c ms v. count (fst (chat api c ms v)) = Suc (count v)"
  shows "count (fst (invoke_attempts n api c ms w)) \<le> count w + Suc n \<and>
    (\<forall>e. snd (invoke_attempts n api c ms w) = Raise e \<longrightarrow>
       count (fst (invoke_attempts n api c ms w)) = count w + Suc n)"
proof (induction n arbitrary: w)
  case (Suc n)
  obtain v r where v: "chat api c ms w = (v, r)" by (cases "chat api c ms w")
  then have "count v = Suc (count w)" using assms [of c ms w] by simp
  then show ?case using Suc.IH [of v] v by (cases r) auto
qed (simp add: assms)

theorem llm_attempts_bounded:
  assumes "\<And>c ms v. count (fst (chat api c ms v)) = Suc (count v)"
  shows "count (fst (invoke_llm api c ms w)) \<le> count w + 3 \<and>
    (\<forall>e. snd (invoke_llm api c ms w) = Raise e \<longrightarrow> count (fst (invoke_llm api c ms w)) = count w + 3)"
  using invoke_attempts_bounded [of count api 2 c ms w] assms
  by (simp add: invoke_llm_def numeral_3_eq_3)

text \<open>The prompt's size: the budget, one truncation mark and a line end per file.\<close>

lemma slice_to_length: "0 \<le> n \<Longrightarrow> n < int (length s) \<Longrightarrow> int (length (slice_to n s)) = n"
  by (simp add: slice_to_def)

lemma join_lines_length: "length (join_lines bs) \<le> sum_list (map length bs) + (length bs - 1)"
  by (induction newline bs rule: join.induct) (auto simp: newline_def)

lemma file_blocks_bounded:
  "0 \<le> b \<Longrightarrow> int (sum_list (map length (file_blocks b fs))) \<le> b + 17 \<and>
     length (file_blocks b fs) \<le> length fs"
proof (induction fs arbitrary: b)
  case (Cons f fs)
  show ?case
  proof (cases "int (length (file_block f)) > b")
    case True
    then show ?thesis using slice_to_length [OF Cons.prems True] by (simp add: Let_def newline_def)
  next
    case False
    with Cons.IH [of "b - int (length (file_block f))"] show ?thesis by (auto simp: Let_def)
  qed
qed simp

theorem prompt_files_bounded:
  assumes "0 \<le> n"
  shows "int (length (format_changed_files n fs)) \<le> n + 17 + int (length fs)"
proof -
  have b: "int (sum_list (map length (file_blocks n fs))) \<le> n + 17" "length (file_blocks n fs) \<le> length fs"
    using file_blocks_bounded [OF assms] by blast+
  show ?thesis using join_lines_length [of "file_blocks n fs"] b by (simp add: format_changed_files_def)
qed

definition demo_chat :: "nat chat_api" where
  "demo_chat = \<lparr>new_chat = (\<lambda>_. Ret ()), chat = (\<lambda>c ms n. (Suc n, if n = 0
     then Raise (Exc OtherException ''rate limit'') else Ret (Text ''{}'')))\<rparr>"

theorem llm_attempts_bounded_witness:
  "invoke_llm demo_chat c [] 0 = (2, Ret (Text ''{}'')) \<and>
   id (fst (invoke_llm demo_chat c [] 0)) \<le> id 0 + 3"
proof -
  have "id (fst (chat demo_chat c' ms v)) = Suc (id v)" for c' ms v by (simp add: demo_chat_def)
  from llm_attempts_bounded [of id demo_chat, OF this, of c "[]" 0]
  have "id (fst (invoke_llm demo_chat c [] 0)) \<le> id 0 + 3" by simp
  moreover have "invoke_llm demo_chat c [] 0 = (2, Ret (Text ''{}''))"
    by (simp add: invoke_llm_def demo_chat_def numeral_2_eq_2)
  ultimately show ?thesis by simp
qed

theorem prompt_files_bounded_witness:
  "int (length (format_changed_files 30 [\<lparr>cf_path = Some ''a.py'', cf_patch = Some ''+x = 1''\<rparr>])) = 47 \<and>
   int (length (format_changed_files 30 [\<lparr>cf_path = Some ''a.py'', cf_patch = Some ''+x = 1''\<rparr>])) \<le> 30 + 17 + 1"
proof -
  have "(0::int) \<le> 30" by simp
  from prompt_files_bounded [OF this, of "[\<lparr>cf_path = Some ''a.py'', cf_patch = Some ''+x = 1''\<rparr>]"]
  show ?thesis
    by (simp add: format_changed_files_def file_block_def fence_def newline_def slice_to_def)
qed

text \<open>
  What a node may change: the reviewer its four keys, with a risk of the fixed scale; the test
  generator one key; the CI monitor its three, with a type of the fixed taxonomy; the fix agent its
  two, counting the attempt.
\<close>

lemma map_prod_rbind: "map_prod id (\<lambda>r. rbind r f) p = (w', Ret y) \<longleftrightarrow> (\<exists>x. p = (w', Ret x) \<and> f x = Ret y)"
  by (cases p) auto

lemma normalised_scale:
  "normalised VALID_RISK ''medium'' v \<in> set VALID_RISK" "normalised FAILURE_TYPES ''unknown'' v \<in> set FAILURE_TYPES"
  by (simp_all add: normalised_def Let_def VALID_RISK_def FAILURE_TYPES_def)

lemma reviewer_result:
  assumes "code_reviewer_node s env api rag st w = (w', Ret st')"
  shows "\<exists>f r m c. r \<in> set VALID_RISK \<and>
    st' = st\<lparr>review_findings := Some f, risk_score := Some r, summary := Some m, rag_context := Some c\<rparr>"
proof -
  obtain ctx reply where "review_reply env st ctx reply = Ret st'"
    using assms by (auto simp: code_reviewer_node_def map_prod_rbind split: sum.splits)
  then show ?thesis using normalised_scale(1) by (auto simp: review_reply_def Let_def)
qed

lemma test_generator_result:
  "test_generator_node s api rag st w = (w', Ret st') \<Longrightarrow> \<exists>t. st' = st\<lparr>generated_tests := Some t\<rparr>"
  by (auto simp: test_generator_node_def map_prod_rbind test_reply_def split: sum.splits)

lemma ci_monitor_result:
  assumes "ci_monitor_node s env api st w = (w', Ret st')"
  shows "\<exists>t d x. t \<in> set FAILURE_TYPES \<and> st' = diagnosed t d x st"
proof (cases "strip (get_default [] (ci_logs st)) = []")
  case True
  then have "st' = diagnosed ''unknown'' (JStr ''No CI logs available to diagnose.'') (JStr []) st"
    using assms by (auto simp: ci_monitor_node_def)
  moreover have "''unknown'' \<in> set FAILURE_TYPES" by (simp add: FAILURE_TYPES_def)
  ultimately show ?thesis by blast
next
  case False
  then obtain reply where "ci_reply env st reply = Ret st'"
    using assms by (auto simp: ci_monitor_node_def map_prod_rbind)
  then show ?thesis using normalised_scale(2) by (auto simp: ci_reply_def)
qed

lemma fix_agent_result:
  assumes "fix_agent_node s api rag st w = (w', Ret st')"
  shows "\<exists>p. p \<noteq> NO_FIX \<and> st' = proposed p (get_default 0 (fix_attempts st) + 1) st"
proof (cases "get_default ''unknown'' (failure_type st) = ''unknown''")
  case True
  then show ?thesis using assms by (auto simp: fix_agent_node_def NO_FIX_def)
next
  case False
  then obtain reply where "fix_reply st reply = Ret st'"
    using assms by (auto simp: fix_agent_node_def map_prod_rbind split: sum.splits)
  then show ?thesis
    by (auto simp: fix_reply_def Let_def NO_FIX_def split: if_splits)
qed

text \<open>
  C36. The shape of every agent's output.
\<close>

theorem agents_normalise:
  assumes "code_reviewer_node s env api rag st w = (w1, Ret st1)"
    and "ci_monitor_node s env api st w = (w2, Ret st2)"
    and "fix_agent_node s api rag st w = (w3, Ret st3)"
  shows "(\<exists>r \<in> set VALID_RISK. risk_score st1 = Some r) \<and>
    (\<exists>t \<in> set FAILURE_TYPES. failure_type st2 = Some t) \<and>
    (\<exists>p. proposed_fix st3 = Some p \<and> p \<noteq> NO_FIX) \<and> fix_attempts st3 = Some (get_default 0 (fix_attempts st) + 1)"
  using reviewer_result [OF assms(1)] ci_monitor_result [OF assms(2)] fix_agent_result [OF assms(3)]
  by (auto simp: diagnosed_def proposed_def)


section \<open>Replies\<close>

lemma dumps_ends:
  assumes "encodable env n v"
  shows "\<not> py_isspace (hd (dumps v))" "\<not> py_isspace (last (dumps v))"
proof -
  have i: "\<not> py_isspace (hd (int_str k)) \<and> \<not> py_isspace (last (int_str k))" for k
  proof -
    have "\<not> py_isspace (CHR ''-'')" by (simp add: py_isspace_def)
    then show ?thesis using nat_str_ends [of "nat (- k)"] nat_str_ends [of "nat k"] by (simp add: int_str_def)
  qed
  show "\<not> py_isspace (hd (dumps v))" using assms i by (cases v) (auto simp: py_isspace_def Json.quoted_def)
  show "\<not> py_isspace (last (dumps v))" using assms i by (cases v) (auto simp: py_isspace_def Json.quoted_def)
qed

lemma strip_around:
  assumes "list_all py_isspace a" and "list_all py_isspace b"
    and "s \<noteq> []" and "\<not> py_isspace (hd s)" and "\<not> py_isspace (last s)"
  shows "strip (a @ s @ b) = s"
proof -
  have "lstrip (a @ s @ b) = s @ b"
    using assms(1,3,4) by (cases s) (auto simp: lstrip_def list_all_iff dropWhile_append)
  moreover have "dropWhile py_isspace (rev (s @ b)) = rev s"
    using assms(2,3,5) by (cases "rev s") (auto simp: hd_rev [symmetric] list_all_iff dropWhile_append)
  ultimately show ?thesis by (simp add: strip_def rstrip_def)
qed

lemma cut_fence:
  "\<not> contains x fence \<Longrightarrow> cut fence (x @ newline @ fence) = Some (x @ newline, [])"
proof (induction x)
  case (Cons c x)
  have "\<not> startswith ((c # x) @ newline @ fence) fence"
  proof -
    have "newline \<noteq> take 1 fence" by (simp add: newline_def fence_def)
    have "\<not> startswith (c # x) fence" using Cons.prems by simp
    then show ?thesis
      by (cases x; cases "tl x") (auto simp: startswith_def fence_def newline_def)
  qed
  moreover have "\<not> contains x fence" using Cons.prems by simp
  ultimately show ?case using Cons.IH by simp
qed (simp add: newline_def fence_def startswith_def)

definition fenced_reply :: "json \<Rightarrow> string" where
  "fenced_reply v = fence @ ''json'' @ newline @ dumps v @ newline @ fence"

lemma loads_fence: "loads env (fence @ r) = Raise decode_error"
proof -
  have b: "\<not> startswith (fence @ r) byte_order_mark"
    by (simp add: startswith_def fence_def byte_order_mark_def)
  have "scan_token (CHR 0x60 # CHR 0x60 # CHR 0x60 # r) = None"
    by (simp add: scan_token_def scan_number_def scan_int_def scan_constant_def constants_def startswith_def is_digit_def)
  then have "Json.lex (fence @ r) = [TBad]" by (simp add: fence_def is_json_space_def Json.lex.simps)
  then show ?thesis using b by (simp add: loads_def decode_step_def open_frame_def)
qed

lemma fenced_block_reply:
  assumes "encodable env 0 v" and "\<not> contains (dumps v) fence"
  shows "fenced_block (fenced_reply v) = Some (dumps v @ newline)"
proof -
  have "lstrip (newline @ dumps v @ newline @ fence) = dumps v @ newline @ fence"
    using dumps_nonempty [OF assms(1)] dumps_ends(1) [OF assms(1)]
    by (cases "dumps v") (simp_all add: lstrip_def newline_def py_isspace_def)
  moreover have "cut fence (fence @ r) = Some ([], r)" for r
    by (simp add: fence_def startswith_def)
  ultimately show ?thesis
    using cut_fence [OF assms(2)] by (simp add: fenced_block_def fenced_reply_def startswith_def)
qed

text \<open>
  C35. A reply that is the encoding of a value, alone between white space or in a fenced block, is decoded
  to that value.
\<close>

theorem replies_decoded:
  assumes "encodable env 0 v" and "list_all py_isspace a" and "list_all py_isspace b"
    and "\<not> contains (dumps v) fence"
  shows "parse_json env (a @ dumps v @ b) = Ret v \<and> parse_json env (a @ fenced_reply v @ b) = Ret v"
proof
  have ends: "dumps v \<noteq> []" "\<not> py_isspace (hd (dumps v))" "\<not> py_isspace (last (dumps v))"
    using dumps_nonempty dumps_ends assms(1) by blast+
  have decoded: "loads env (dumps v) = Ret v" using json_roundtrip [OF assms(1)] by simp
  show "parse_json env (a @ dumps v @ b) = Ret v"
    using strip_around [OF assms(2,3) ends] decoded by (simp add: parse_json_def)
  have "fenced_reply v \<noteq> []" "\<not> py_isspace (hd (fenced_reply v))" "\<not> py_isspace (last (fenced_reply v))"
    by (simp_all add: fenced_reply_def fence_def py_isspace_def)
  then have "strip (a @ fenced_reply v @ b) = fenced_reply v" by (rule strip_around [OF assms(2,3)])
  moreover have "strip (dumps v @ newline) = dumps v"
    using strip_around [of "[]" newline, OF _ _ ends] by (simp add: newline_def py_isspace_def)
  moreover have "loads env (fenced_reply v) = Raise decode_error"
    unfolding fenced_reply_def by (rule loads_fence)
  ultimately show "parse_json env (a @ fenced_reply v @ b) = Ret v"
    using fenced_block_reply [OF assms(1,4)] decoded by (simp add: parse_json_def decode_error_def)
qed

theorem replies_decoded_witness:
  "parse_json \<lparr>to_float = JStr, wide_codec = Ret, max_depth = 10\<rparr>
     (''  '' @ fenced_reply (JDict [(''risk_score'', JStr ''low'')]) @ newline) = Ret (JDict [(''risk_score'', JStr ''low'')])"
proof -
  have "encodable \<lparr>to_float = JStr, wide_codec = Ret, max_depth = 10\<rparr> 0 (JDict [(''risk_score'', JStr ''low'')])"
    by simp
  moreover have "list_all py_isspace ''  ''" "list_all py_isspace newline"
    by (simp_all add: py_isspace_def newline_def)
  moreover have "\<not> contains (dumps (JDict [(''risk_score'', JStr ''low'')])) fence" by code_simp
  ultimately show ?thesis by (rule replies_decoded [THEN conjunct2])
qed

end
