(* ===== verification/Sandbox.thy ===== *)
theory Sandbox
  imports Config Pr_State Github "HOL-Library.AList"
begin

text \<open>
  The sandbox, \<^verbatim>\<open>src/app/sandbox/\<close>: which command re-checks a failure and what its exit code means
  (\<^verbatim>\<open>policy.py\<close>), the throwaway build context and the hardened \<open>docker run\<close> (\<^verbatim>\<open>runner.py\<close>), and the
  verifier node of the pipeline (\<^verbatim>\<open>verifier.py\<close>).

  The host's disk is a value: the files with their text and the directories, each path given by its
  components. Symbolic links are not modelled; the build context is a fresh directory that has none.
  The docker CLI, \<open>mkdtemp\<close>, the environment and the lookup on \<open>PATH\<close> are parameters.
\<close>

section \<open>Policy\<close>

definition PATCH_FAILED_EXIT :: int where "PATCH_FAILED_EXIT = 3"

definition VERIFIABLE :: "string list" where
  "VERIFIABLE = [''lint'', ''type_error'', ''test'', ''import'']"

definition NON_VERIFIABLE :: "string list" where
  "NON_VERIFIABLE = [''dependency'', ''unknown'']"

definition verification_command :: "string \<Rightarrow> string list \<Rightarrow> string list option" where
  "verification_command ftype changed_paths =
     (let paths = filter (\<lambda>p. endswith p ''.py'') changed_paths;
          scope = (if paths = [] then [''.''] else paths) in
      if ftype = ''lint'' then Some ([''ruff'', ''check''] @ scope)
      else if ftype = ''type_error'' then Some ([''mypy'', ''--ignore-missing-imports''] @ scope)
      else if ftype = ''test'' then Some [''pytest'', ''-q'', ''-p'', ''no:cacheprovider'']
      else if ftype = ''import''
        then Some [''pytest'', ''--collect-only'', ''-q'', ''-p'', ''no:cacheprovider'']
      else None)"

record verdict =
  verified :: bool
  reason :: string
  detail :: string

definition opt_int_str :: "int option \<Rightarrow> string" where
  "opt_int_str v = (case v of None \<Rightarrow> ''None'' | Some i \<Rightarrow> int_str i)"

definition interpret_exit :: "int option \<Rightarrow> bool \<Rightarrow> verdict" where
  "interpret_exit code timed_out =
     (if timed_out then
        \<lparr>verified = False, reason = ''timeout'', detail = ''Verification timed out in the sandbox.''\<rparr>
      else if code = Some PATCH_FAILED_EXIT then
        \<lparr>verified = False, reason = ''patch_apply_failed'',
         detail = ''The proposed patch did not apply cleanly.''\<rparr>
      else if code = Some 0 then
        \<lparr>verified = True, reason = ''passed'', detail = ''Fix verified: the check now passes.''\<rparr>
      else
        \<lparr>verified = False, reason = ''check_failed'',
         detail = ''The check still fails (exit '' @ opt_int_str code @ '').''\<rparr>)"


section \<open>The build context on disk\<close>

type_synonym path = "string list"

record disk =
  disk_files :: "(path \<times> string) list"
  disk_dirs :: "path list"

definition is_file :: "disk \<Rightarrow> path \<Rightarrow> bool" where
  "is_file d p \<longleftrightarrow> p \<in> fst ` set (disk_files d)"

definition below :: "path \<Rightarrow> path \<Rightarrow> bool" where
  "below r p \<longleftrightarrow> take (length r) p = r"

definition prefixes :: "path \<Rightarrow> path list" where
  "prefixes p = map (\<lambda>k. take k p) [0..<Suc (length p)]"

definition path_text :: "path \<Rightarrow> string" where
  "path_text p = ''/'' @ join ''/'' p"

definition os_error :: "string \<Rightarrow> int \<Rightarrow> string \<Rightarrow> exc" where
  "os_error cls no msg = Exc OtherException (cls @ ''('' @ int_str no @ '', '' @ str_repr msg @ '')'')"

text \<open>\<open>Path.mkdir(parents=True, exist_ok=True)\<close>, \<open>Path.write_text\<close> and \<open>shutil.rmtree\<close>.\<close>

definition mkdir_parents :: "path \<Rightarrow> disk \<Rightarrow> exc option \<times> disk" where
  "mkdir_parents p d =
     (if is_file d p then (Some (os_error ''FileExistsError'' 17 ''File exists''), d)
      else if list_ex (is_file d) (prefixes p)
        then (Some (os_error ''NotADirectoryError'' 20 ''Not a directory''), d)
      else (None, d\<lparr>disk_dirs := disk_dirs d @ filter (\<lambda>q. q \<notin> set (disk_dirs d)) (prefixes p)\<rparr>))"

definition write_text :: "path \<Rightarrow> string \<Rightarrow> disk \<Rightarrow> exc option \<times> disk" where
  "write_text p content d =
     (if p \<in> set (disk_dirs d) then (Some (os_error ''IsADirectoryError'' 21 ''Is a directory''), d)
      else (None, d\<lparr>disk_files := AList.update p content (disk_files d)\<rparr>))"

definition rmtree :: "path \<Rightarrow> disk \<Rightarrow> disk" where
  "rmtree r d = \<lparr>disk_files = filter (\<lambda>(p, _). \<not> below r p) (disk_files d),
                 disk_dirs = filter (\<lambda>p. \<not> below r p) (disk_dirs d)\<rparr>"

text \<open>
  \<open>(base / rel).resolve()\<close>: an absolute text replaces the base, empty and dot components vanish, a
  parent step removes the component before it.
\<close>

fun resolve_parts :: "path \<Rightarrow> string list \<Rightarrow> path" where
  "resolve_parts p [] = p"
| "resolve_parts p (c # cs) = resolve_parts
     (if c = [] \<or> c = ''.'' then p else if c = ''..'' then butlast p else p @ [c]) cs"

definition resolve :: "path \<Rightarrow> string \<Rightarrow> path" where
  "resolve base rel =
     resolve_parts (if startswith rel ''/'' then [] else base) (split_on CHR ''/'' rel)"

text \<open>
  One file of the snapshot. The test that the path stays under \<open>repo\<close> compares texts, as the code
  does.
\<close>

definition value_error :: "string \<Rightarrow> exc" where
  "value_error msg = Exc ValueError (''ValueError('' @ str_repr msg @ '')'')"

definition then_io :: "exc option \<times> disk \<Rightarrow> (disk \<Rightarrow> exc option \<times> disk) \<Rightarrow> exc option \<times> disk" where
  "then_io r f = (case r of (Some e, d) \<Rightarrow> (Some e, d) | (None, d) \<Rightarrow> f d)"

definition write_snapshot_file :: "path \<Rightarrow> string \<times> string \<Rightarrow> disk \<Rightarrow> exc option \<times> disk" where
  "write_snapshot_file repo_dir f d =
     (let rel = fst f; dest = resolve repo_dir rel in
      if CHR 0x00 \<in> set rel
        then (Some (value_error ''lstat: embedded null character in path''), d)
      else if \<not> startswith (path_text dest) (path_text repo_dir)
        then (Some (value_error (''unsafe path in snapshot: '' @ str_repr rel)), d)
      else then_io (mkdir_parents (butlast dest) d) (write_text dest (snd f)))"

fun write_snapshot :: "path \<Rightarrow> (string \<times> string) list \<Rightarrow> disk \<Rightarrow> exc option \<times> disk" where
  "write_snapshot repo_dir [] d = (None, d)"
| "write_snapshot repo_dir (f # fs) d =
     then_io (write_snapshot_file repo_dir f d) (write_snapshot repo_dir fs)"

definition write_context ::
    "path \<Rightarrow> (string \<times> string) list \<Rightarrow> string \<Rightarrow> disk \<Rightarrow> exc option \<times> disk" where
  "write_context ctx repo_files patch d =
     (let repo_dir = ctx @ [''repo''] in
      then_io (mkdir_parents repo_dir d) (\<lambda>d1.
      then_io (write_snapshot repo_dir repo_files d1)
        (write_text (ctx @ [''patch.diff''])
          (if endswith patch newline then patch else patch @ newline))))"


section \<open>The container\<close>

text \<open>The script the container runs, with the line continuation kept.\<close>

definition ENTRY :: string where
  "ENTRY = join_lines [
     [],
     ''set -e'',
     ''export HOME=/tmp'',
     ''export GIT_CONFIG_GLOBAL=/tmp/.gitconfig'',
     ''cp -r /src/repo/. /work/'',
     ''find /work -type f -exec chmod 0644 {} +'',
     ''cd /work'',
     ''git init -q'',
     ''git config --global --add safe.directory '' @ [CHR 0x27, CHR ''*'', CHR 0x27] @ '' 2>/dev/null || true'',
     ''if git apply --whitespace=nowarn /src/patch.diff 2>/tmp/apply.err '' @ [CHR 0x5C],
     ''   || git apply -p0 --whitespace=nowarn /src/patch.diff 2>>/tmp/apply.err; then'',
     ''  :'',
     ''else'',
     ''  cat /tmp/apply.err >&2'',
     ''  exit '' @ int_str PATCH_FAILED_EXIT,
     ''fi'',
     ''exec '' @ [CHR 0x22] @ ''$@'' @ [CHR 0x22],
     []]"

record sandbox_result =
  exit_code :: "int option"
  sb_stdout :: string
  sb_stderr :: string
  timed_out :: bool

text \<open>What \<open>subprocess.run\<close> gives back; after a time-out the captured output may be absent or bytes.\<close>

datatype captured = NoCapture | RawBytes string | RawText string

datatype run_outcome =
  Completed int string string | TimeoutExpired captured captured | RunRaises exc

record host =
  environ :: "string \<Rightarrow> string option"
  which :: "string \<Rightarrow> string option"
  path_is_file :: "string \<Rightarrow> bool"
  mkdtemp :: "disk \<Rightarrow> path res"
  run_cli :: "disk \<Rightarrow> string list \<Rightarrow> int \<Rightarrow> run_outcome"

record docker_sandbox =
  image :: string
  docker :: string

text \<open>\<open>Path(base) / ...\<close> as text: empty and dot components are dropped.\<close>

definition pure_path :: "string \<Rightarrow> string list \<Rightarrow> string" where
  "pure_path base parts = (if startswith base ''/'' then ''/'' else []) @
     join ''/'' (filter (\<lambda>c. c \<noteq> [] \<and> c \<noteq> ''.'') (split_on CHR ''/'' base) @ parts)"

definition docker_candidates :: "host \<Rightarrow> string list" where
  "docker_candidates h = [
     pure_path (get_default [] (environ h ''LOCALAPPDATA''))
       [''Programs'', ''DockerDesktop'', ''resources'', ''bin'', ''docker.exe''],
     pure_path (get_default [] (environ h ''PROGRAMFILES''))
       [''Docker'', ''Docker'', ''resources'', ''bin'', ''docker.exe'']]"

definition resolve_docker :: "settings \<Rightarrow> host \<Rightarrow> string" where
  "resolve_docker s h =
     (if docker_bin s \<noteq> [] then docker_bin s
      else (case which h ''docker'' of
          Some found \<Rightarrow> if found \<noteq> [] then found
            else get_default ''docker'' (List.find (path_is_file h) (docker_candidates h))
        | None \<Rightarrow> get_default ''docker'' (List.find (path_is_file h) (docker_candidates h))))"

definition new_docker_sandbox :: "settings \<Rightarrow> host \<Rightarrow> string option \<Rightarrow> docker_sandbox" where
  "new_docker_sandbox s h img =
     \<lparr>image = str_or (sandbox_image s) img, docker = resolve_docker s h\<rparr>"

definition docker_run_argv ::
    "settings \<Rightarrow> docker_sandbox \<Rightarrow> path \<Rightarrow> string list \<Rightarrow> string list" where
  "docker_run_argv s sbx ctx command =
     [docker sbx, ''run'', ''--rm'',
      ''--network'', ''none'',
      ''--memory'', sandbox_memory s,
      ''--memory-swap'', sandbox_memory s,
      ''--cpus'', sandbox_cpus s,
      ''--pids-limit'', int_str (sandbox_pids_limit s),
      ''--read-only'',
      ''--tmpfs'', ''/work:rw,exec,size=256m,mode=1777'',
      ''--tmpfs'', ''/tmp:rw,size=64m,mode=1777'',
      ''--cap-drop'', ''ALL'',
      ''--security-opt'', ''no-new-privileges'',
      ''-v'', path_text ctx @ '':/src:ro'',
      ''-w'', ''/work'',
      ''--entrypoint'', ''sh'',
      image sbx,
      ''-c'', ENTRY, ''sh''] @ command"

definition kept_text :: "captured \<Rightarrow> string" where
  "kept_text c = (case c of RawText t \<Rightarrow> t | _ \<Rightarrow> [])"

definition docker_outcome :: "run_outcome \<Rightarrow> sandbox_result res" where
  "docker_outcome r = (case r of
       Completed code out err \<Rightarrow>
         Ret \<lparr>exit_code = Some code, sb_stdout = out, sb_stderr = err, timed_out = False\<rparr>
     | TimeoutExpired out err \<Rightarrow>
         Ret \<lparr>exit_code = None, sb_stdout = kept_text out, sb_stderr = kept_text err, timed_out = True\<rparr>
     | RunRaises e \<Rightarrow> Raise e)"

text \<open>
  A sandbox is what the verifier calls: the snapshot, the patch and the command, over a world that
  the call may change. The docker sandbox works on the disk and removes its context in any case.
\<close>

type_synonym 'w sandbox =
  "(string \<times> string) list \<Rightarrow> string \<Rightarrow> string list \<Rightarrow> 'w \<Rightarrow> sandbox_result res \<times> 'w"

definition run_verification :: "settings \<Rightarrow> host \<Rightarrow> docker_sandbox \<Rightarrow> disk sandbox" where
  "run_verification s h sbx repo_files patch command d =
     (case mkdtemp h d of
        Inl e \<Rightarrow> (Raise e, d)
      | Inr ctx \<Rightarrow>
          (let r = write_context ctx repo_files patch (d\<lparr>disk_dirs := disk_dirs d @ [ctx]\<rparr>) in
           (case fst r of
              Some e \<Rightarrow> Raise e
            | None \<Rightarrow> docker_outcome
                (run_cli h (snd r) (docker_run_argv s sbx ctx command) (sandbox_timeout_s s)),
            rmtree ctx (snd r))))"

definition fake_sandbox ::
    "sandbox_result \<Rightarrow> ((string \<times> string) list \<times> string \<times> string list) list sandbox" where
  "fake_sandbox result repo_files patch command calls =
     (Ret result, calls @ [(repo_files, patch, command)])"

definition sandbox_or_docker :: "settings \<Rightarrow> host \<Rightarrow> disk sandbox option \<Rightarrow> disk sandbox" where
  "sandbox_or_docker s h sandbox =
     get_default (run_verification s h (new_docker_sandbox s h None)) sandbox"


section \<open>The verifier node\<close>

definition OUTPUT_TAIL :: nat where "OUTPUT_TAIL = 4000"

definition with_verdict :: "bool \<Rightarrow> string \<Rightarrow> string \<Rightarrow> pr_state \<Rightarrow> pr_state" where
  "with_verdict b why out st =
     st\<lparr>fix_verified := Some b, verification_reason := Some why, verification_output := Some out\<rparr>"

definition changed_paths :: "pr_state \<Rightarrow> string list" where
  "changed_paths st = map (\<lambda>f. get_default [] (cf_path f)) (get_default [] (changed_files st))"

definition fix_verifier_node :: "'w sandbox \<Rightarrow> pr_state \<Rightarrow> 'w \<Rightarrow> pr_state \<times> 'w" where
  "fix_verifier_node sbx st w =
     (let patch = get_default [] (proposed_fix st);
          ftype = get_default ''unknown'' (failure_type st) in
      if patch = [] then (with_verdict False ''no_fix'' [] st, w)
      else (case verification_command ftype (changed_paths st) of
          None \<Rightarrow> (with_verdict False ''not_verifiable''
            (''No offline verification exists for failure_type='' @ str_repr ftype @
             ''; escalating to human review.'') st, w)
        | Some command \<Rightarrow>
            (let snapshot = get_default [] (repo_snapshot st) in
             if snapshot = [] then
               (with_verdict False ''no_snapshot'' ''No repo snapshot available to apply the patch.'' st, w)
             else (case sbx snapshot patch command w of
                 (Inl e, w') \<Rightarrow>
                   (with_verdict False ''sandbox_error'' (''Sandbox could not run: '' @ exc_repr e) st, w')
               | (Inr result, w') \<Rightarrow>
                   (let v = interpret_exit (exit_code result) (timed_out result);
                        combined = strip (sb_stdout result @ newline @ sb_stderr result) in
                    (with_verdict (verified v) (reason v) (tail_slice OUTPUT_TAIL combined) st, w'))))))"

section \<open>Facts about paths\<close>

definition plain_path :: "path \<Rightarrow> bool" where
  "plain_path p \<longleftrightarrow> (\<forall>c\<in>set p. c \<noteq> [] \<and> CHR ''/'' \<notin> set c)"

definition slashed :: "path \<Rightarrow> string" where
  "slashed p = concat (map (\<lambda>c. CHR ''/'' # c) p)"

lemma slashed_simps [simp]:
  "slashed [] = []" "slashed (c # p) = CHR ''/'' # c @ slashed p" "slashed (p @ q) = slashed p @ slashed q"
  by (simp_all add: slashed_def)

lemma path_text_slashed: "p \<noteq> [] \<Longrightarrow> path_text p = slashed p"
proof (induction p rule: list_nonempty_induct)
  case (cons x xs)
  then show ?case by (cases xs) (auto simp: path_text_def)
qed (simp add: path_text_def)

lemma take_component:
  assumes "CHR ''/'' \<notin> set c"
  shows "takeWhile (\<lambda>x. x \<noteq> CHR ''/'') (c @ slashed p @ t) =
    c @ (if p = [] then takeWhile (\<lambda>x. x \<noteq> CHR ''/'') t else [])"
proof -
  have "\<forall>x\<in>set c. x \<noteq> CHR ''/''" using assms by auto
  then show ?thesis by (cases p) (simp_all add: takeWhile_append2)
qed

text \<open>A path whose text starts with the text of another: the last component may only be longer.\<close>

lemma text_prefix:
  assumes "plain_path q" and "plain_path (r @ [c])" and "slashed q = slashed (r @ [c]) @ t"
  shows "\<exists>s rest. q = r @ (c @ s) # rest"
  using assms
proof (induction r arbitrary: q)
  case Nil
  then obtain q0 qs where q: "q = q0 # qs" by (cases q) auto
  have "takeWhile (\<lambda>x. x \<noteq> CHR ''/'') (q0 @ slashed qs @ []) = q0"
    using Nil.prems(1) q take_component [of q0 qs "[]"] by (simp add: plain_path_def)
  moreover have "takeWhile (\<lambda>x. x \<noteq> CHR ''/'') (c @ slashed [] @ t) = c @ takeWhile (\<lambda>x. x \<noteq> CHR ''/'') t"
    using Nil.prems(2) take_component [of c "[]" t] by (simp add: plain_path_def)
  ultimately have "q0 = c @ takeWhile (\<lambda>x. x \<noteq> CHR ''/'') t" using Nil.prems(3) q by simp
  with q show ?case by simp
next
  case (Cons r0 rs)
  then obtain q0 qs where q: "q = q0 # qs" by (cases q) auto
  have "takeWhile (\<lambda>x. x \<noteq> CHR ''/'') (q0 @ slashed qs @ []) = q0"
    using Cons.prems(1) q take_component [of q0 qs "[]"] by (simp add: plain_path_def)
  moreover have "takeWhile (\<lambda>x. x \<noteq> CHR ''/'') (r0 @ slashed (rs @ [c]) @ t) = r0"
    using Cons.prems(2) take_component [of r0 "rs @ [c]" t] by (simp add: plain_path_def)
  ultimately have "q0 = r0" using Cons.prems(3) q by simp
  then have "slashed qs = slashed (rs @ [c]) @ t" using Cons.prems(3) q by simp
  moreover have "plain_path qs" "plain_path (rs @ [c])"
    using Cons.prems q by (auto simp: plain_path_def)
  ultimately show ?case using Cons.IH [of qs] q \<open>q0 = r0\<close> by simp
qed

lemma plain_resolve_parts:
  "plain_path p \<Longrightarrow> \<forall>c\<in>set cs. CHR ''/'' \<notin> set c \<Longrightarrow> plain_path (resolve_parts p cs)"
proof (induction cs arbitrary: p)
  case (Cons c cs)
  have "plain_path (if c = [] \<or> c = ''.'' then p else if c = ''..'' then butlast p else p @ [c])"
    using Cons.prems by (simp add: plain_path_def) (blast dest: in_set_butlastD)
  moreover have "\<forall>c\<in>set cs. CHR ''/'' \<notin> set c" using Cons.prems(2) by simp
  ultimately show ?case unfolding resolve_parts.simps by (rule Cons.IH)
qed simp

lemma plain_resolve: "plain_path p \<Longrightarrow> plain_path (resolve p rel)"
proof -
  assume "plain_path p"
  moreover have "\<forall>c\<in>set (split_on CHR ''/'' rel). CHR ''/'' \<notin> set c" using split_on_parts by blast
  ultimately show ?thesis
    unfolding resolve_def by (intro plain_resolve_parts) (simp_all add: plain_path_def)
qed

lemma below_append [simp]: "below r (r @ p)"
  by (simp add: below_def)

lemma accepted_below:
  assumes "plain_path ctx" and "startswith (path_text (resolve (ctx @ [''repo'']) rel)) (path_text (ctx @ [''repo'']))"
  shows "\<exists>s rest. resolve (ctx @ [''repo'']) rel = ctx @ (''repo'' @ s) # rest"
proof -
  let ?q = "resolve (ctx @ [''repo'']) rel"
  have plain: "plain_path (ctx @ [''repo''])" using assms(1) by (auto simp: plain_path_def)
  have shown: "path_text (ctx @ [''repo'']) = slashed ctx @ ''/repo''"
    using path_text_slashed [of "ctx @ [''repo'']"] by simp
  have "?q \<noteq> []"
  proof
    assume "?q = []"
    then have "startswith ''/'' (slashed ctx @ ''/repo'')" using assms(2) shown by (simp add: path_text_def)
    then obtain t where "''/'' = (slashed ctx @ ''/repo'') @ t" by (auto simp only: startswith_iff)
    then have "length ''/'' = length ((slashed ctx @ ''/repo'') @ t)" by (rule arg_cong)
    then show False by simp
  qed
  then obtain t where "slashed ?q = slashed (ctx @ [''repo'']) @ t"
    using assms(2) by (auto simp: path_text_slashed startswith_iff)
  then show ?thesis by (rule text_prefix [OF plain_resolve [OF plain] plain])
qed

section \<open>The disk around a run\<close>

text \<open>
  \<open>grown ctx d d'\<close>: the disk \<open>d'\<close> differs from \<open>d\<close> below the context only, and the directories on the way
  to the context are still there. Every step of the context writer keeps it.
\<close>

definition grown :: "path \<Rightarrow> disk \<Rightarrow> disk \<Rightarrow> bool" where
  "grown ctx d d' \<longleftrightarrow> rmtree ctx d' = rmtree ctx d \<and> set (prefixes ctx) \<subseteq> set (disk_dirs d')"

lemma prefixes_below: "below r p \<Longrightarrow> q \<in> set (prefixes p) \<Longrightarrow> below r q \<or> q \<in> set (prefixes r)"
proof -
  assume "below r p" "q \<in> set (prefixes p)"
  then obtain k where k: "q = take k p" "k \<le> length p" unfolding prefixes_def by force
  show ?thesis
  proof (cases "length r \<le> k")
    case True
    then show ?thesis using \<open>below r p\<close> k by (simp add: below_def min_def)
  next
    case False
    then have "q = take k r" using \<open>below r p\<close> k(1) by (metis below_def min.absorb1 nle_le take_take)
    then show ?thesis using False by (auto simp: prefixes_def)
  qed
qed

lemma grown_mkdir: "grown ctx d d1 \<Longrightarrow> below ctx p \<Longrightarrow> grown ctx d (snd (mkdir_parents p d1))"
  using prefixes_below [of ctx p] by (auto simp: grown_def mkdir_parents_def rmtree_def filter_empty_conv)

lemma filter_update_below:
  "below r p \<Longrightarrow> filter (\<lambda>(q, _). \<not> below r q) (AList.update p c fs) = filter (\<lambda>(q, _). \<not> below r q) fs"
  by (induction fs) auto

lemma grown_write: "grown ctx d d1 \<Longrightarrow> below ctx p \<Longrightarrow> grown ctx d (snd (write_text p c d1))"
  by (simp add: grown_def write_text_def rmtree_def filter_update_below)

lemma grown_then:
  "grown ctx d (snd r) \<Longrightarrow> (\<And>d1. grown ctx d d1 \<Longrightarrow> grown ctx d (snd (f d1))) \<Longrightarrow>
     grown ctx d (snd (then_io r f))"
  by (cases r; cases "fst r") (auto simp: then_io_def)

lemma grown_snapshot_file:
  assumes "plain_path ctx" and "grown ctx d d1"
  shows "grown ctx d (snd (write_snapshot_file (ctx @ [''repo'']) f d1))"
proof (cases "startswith (path_text (resolve (ctx @ [''repo'']) (fst f))) (path_text (ctx @ [''repo'']))")
  case True
  then obtain s rest where "resolve (ctx @ [''repo'']) (fst f) = ctx @ (''repo'' @ s) # rest"
    using accepted_below [OF assms(1)] by blast
  then have b: "below ctx (resolve (ctx @ [''repo'']) (fst f))"
    "below ctx (butlast (resolve (ctx @ [''repo'']) (fst f)))" by (simp_all add: butlast_append)
  show ?thesis
    using True assms(2) b
    by (auto simp: write_snapshot_file_def Let_def intro!: grown_then grown_mkdir grown_write)
qed (simp add: write_snapshot_file_def Let_def assms(2))

lemma grown_snapshot:
  "plain_path ctx \<Longrightarrow> grown ctx d d1 \<Longrightarrow> grown ctx d (snd (write_snapshot (ctx @ [''repo'']) fs d1))"
  by (induction fs arbitrary: d1) (simp_all add: grown_then grown_snapshot_file)

lemma grown_context:
  "plain_path ctx \<Longrightarrow> grown ctx d d1 \<Longrightarrow> grown ctx d (snd (write_context ctx fs patch d1))"
  by (simp add: write_context_def Let_def grown_then grown_mkdir grown_snapshot grown_write)

text \<open>The directory \<open>mkdtemp\<close> returns is new and its parents exist.\<close>

definition fresh_dir :: "path \<Rightarrow> disk \<Rightarrow> bool" where
  "fresh_dir ctx d \<longleftrightarrow> plain_path ctx \<and> set (prefixes (butlast ctx)) \<subseteq> set (disk_dirs d) \<and> ctx \<noteq> [] \<and>
     (\<forall>p\<in>set (disk_dirs d). \<not> below ctx p) \<and> (\<forall>f\<in>set (disk_files d). \<not> below ctx (fst f))"

lemma prefixes_butlast: "p \<noteq> [] \<Longrightarrow> prefixes p = prefixes (butlast p) @ [p]"
  by (cases p rule: rev_cases) (auto simp: prefixes_def)

lemma fresh_grown:
  assumes "fresh_dir ctx d"
  shows "grown ctx d (d\<lparr>disk_dirs := disk_dirs d @ [ctx]\<rparr>)" and "rmtree ctx d = d"
proof -
  have b: "below ctx ctx" using below_append [of ctx "[]"] by simp
  show "grown ctx d (d\<lparr>disk_dirs := disk_dirs d @ [ctx]\<rparr>)"
    using assms b by (auto simp: grown_def rmtree_def fresh_dir_def prefixes_butlast)
  have "filter (\<lambda>(p, _). \<not> below ctx p) (disk_files d) = disk_files d"
    "filter (\<lambda>p. \<not> below ctx p) (disk_dirs d) = disk_dirs d"
    using assms by (auto simp: fresh_dir_def filter_id_conv)
  then show "rmtree ctx d = d" by (simp add: rmtree_def)
qed


definition demo_disk :: disk where
  "demo_disk = \<lparr>disk_files = [([''tmp'', ''note''], ''n'')], disk_dirs = [[], [''tmp'']]\<rparr>"

definition demo_host :: host where
  "demo_host = \<lparr>environ = (\<lambda>_. None), which = (\<lambda>_. Some ''/usr/bin/docker''), path_is_file = (\<lambda>_. False),
     mkdtemp = (\<lambda>_. Ret [''tmp'', ''autopr-sbx-1'']), run_cli = (\<lambda>_ _ _. Completed 0 ''ok'' [])\<rparr>"


text \<open>
  The check of a snapshot path compares texts, so it admits a sibling of \<open>repo\<close> whose name starts
  the same way: such a file is written outside \<open>repo\<close> (though below the context). A snapshot that
  comes from the tarball reader has no such path: all its files land below \<open>repo\<close>.
\<close>

theorem sibling_is_admitted:
  "startswith (path_text (resolve (ctx @ [''repo'']) ''../repository/x'')) (path_text (ctx @ [''repo''])) \<and>
   \<not> below (ctx @ [''repo'']) (resolve (ctx @ [''repo'']) ''../repository/x'')"
proof -
  have "resolve (ctx @ [''repo'']) ''../repository/x'' = ctx @ [''repository'', ''x'']"
    by (simp add: resolve_def startswith_def)
  moreover have "startswith (path_text (ctx @ [''repository'', ''x''])) (path_text (ctx @ [''repo'']))"
    using startswith_append [of "slashed ctx @ ''/repo''" "''sitory/x''"]
      path_text_slashed [of "ctx @ [''repository'', ''x'']"] path_text_slashed [of "ctx @ [''repo'']"]
    by simp
  ultimately show ?thesis by (simp add: below_def)
qed

lemma resolve_parts_safe:
  "''..'' \<notin> set cs \<Longrightarrow> \<exists>q. resolve_parts p cs = p @ q"
proof (induction cs arbitrary: p)
  case (Cons c cs)
  then have "c \<noteq> ''..''" "''..'' \<notin> set cs" by auto
  then show ?case
    using Cons.IH [of p] Cons.IH [of "p @ [c]"] by (cases "c = [] \<or> c = ''.''") auto
qed simp

theorem tarball_stays_in_repo:
  assumes "f \<in> set (extract_repo_tarball mf mx mt members)"
  shows "below base (resolve base (fst f))"
proof -
  have "kept_from mf members f"
    using extract_members_sound assms by (auto simp: extract_repo_tarball_def)
  then have "\<not> startswith (fst f) ''/''" "''..'' \<notin> set (split_on CHR ''/'' (fst f))"
    by (auto simp: kept_from_def unsafe_rel_def)
  then show ?thesis
    using resolve_parts_safe [of "split_on CHR ''/'' (fst f)" base] by (auto simp: resolve_def)
qed

theorem tarball_stays_in_repo_witness:
  "below [''ctx'', ''repo''] (resolve [''ctx'', ''repo''] ''a.py'')"
proof -
  have "(''a.py'', ''x = 1'') \<in> set (extract_repo_tarball 10 5 (Some 20) demo_tar)" by code_simp
  from tarball_stays_in_repo [OF this] show ?thesis by simp
qed


section \<open>The verdict\<close>

lemma verified_iff:
  "fst (fix_verifier_node sbx st w) = st' \<and> fix_verified st' = Some True \<longleftrightarrow>
     (\<exists>command res. verification_command (get_default ''unknown'' (failure_type st)) (changed_paths st) = Some command \<and>
        get_default [] (proposed_fix st) \<noteq> [] \<and> get_default [] (repo_snapshot st) \<noteq> [] \<and>
        fst (sbx (get_default [] (repo_snapshot st)) (get_default [] (proposed_fix st)) command w) = Ret res \<and>
        exit_code res = Some 0 \<and> timed_out res = False \<and>
        st' = with_verdict True ''passed''
          (tail_slice OUTPUT_TAIL (strip (sb_stdout res @ newline @ sb_stderr res))) st)"
  (is "?l \<longleftrightarrow> ?r")
proof
  assume ?r
  then show ?l
    by (auto simp: fix_verifier_node_def Let_def interpret_exit_def PATCH_FAILED_EXIT_def with_verdict_def
        split: prod.split)
next
  assume l: ?l
  then obtain command where c:
    "verification_command (get_default ''unknown'' (failure_type st)) (changed_paths st) = Some command"
    "get_default [] (proposed_fix st) \<noteq> []" "get_default [] (repo_snapshot st) \<noteq> []"
    by (auto simp: fix_verifier_node_def Let_def with_verdict_def split: if_splits option.splits)
  obtain r w' where r:
    "sbx (get_default [] (repo_snapshot st)) (get_default [] (proposed_fix st)) command w = (r, w')"
    by (cases "sbx (get_default [] (repo_snapshot st)) (get_default [] (proposed_fix st)) command w")
  with l c obtain res where "r = Ret res"
    by (cases r) (auto simp: fix_verifier_node_def Let_def with_verdict_def)
  with l c r show ?r
    by (auto simp: fix_verifier_node_def Let_def with_verdict_def interpret_exit_def split: if_splits)
qed

text \<open>
  A fix is reported as verified exactly when there is a patch, its failure type has a check, there is
  a snapshot, and the sandbox ran that check on that patch and snapshot to exit code zero within its
  time; the verdict is then \<open>passed\<close>.
\<close>

theorem verified_means_checked:
  "fst (fix_verifier_node sbx st w) = st' \<and> fix_verified st' = Some True \<longleftrightarrow>
     (\<exists>command res. verification_command (get_default ''unknown'' (failure_type st)) (changed_paths st) = Some command \<and>
        get_default [] (proposed_fix st) \<noteq> [] \<and> get_default [] (repo_snapshot st) \<noteq> [] \<and>
        fst (sbx (get_default [] (repo_snapshot st)) (get_default [] (proposed_fix st)) command w) = Ret res \<and>
        exit_code res = Some 0 \<and> timed_out res = False \<and>
        st' = with_verdict True ''passed''
          (tail_slice OUTPUT_TAIL (strip (sb_stdout res @ newline @ sb_stderr res))) st)"
  by (rule verified_iff)

definition demo_patched :: pr_state where
  "demo_patched = empty_state\<lparr>failure_type := Some ''lint'', proposed_fix := Some ''diff'',
     repo_snapshot := Some [(''a.py'', ''x = 1'')],
     changed_files := Some [\<lparr>cf_path = Some ''a.py'', cf_patch = None\<rparr>, \<lparr>cf_path = Some ''b.md'', cf_patch = None\<rparr>]\<rparr>"

definition passing_run :: sandbox_result where
  "passing_run = \<lparr>exit_code = Some 0, sb_stdout = ''All checks passed!'', sb_stderr = [], timed_out = False\<rparr>"


section \<open>What Docker is told\<close>

text \<open>
  The command line of \<open>docker run\<close> as Docker reads it: flags with and without a value up to the first
  word that is not a flag, which is the image; the rest goes to the container.
\<close>

fun docker_options :: "string list \<Rightarrow> (string \<times> string) list \<times> string list" where
  "docker_options [] = ([], [])"
| "docker_options (a # as) =
     (if \<not> startswith a ''-'' then ([], a # as)
      else if a \<in> {''--rm'', ''--read-only''} then map_prod ((#) (a, [])) id (docker_options as)
      else (case as of [] \<Rightarrow> ([(a, [])], [])
        | v # rest \<Rightarrow> map_prod ((#) (a, v)) id (docker_options rest)))"



text \<open>
  The paths of the pull request are appended to the checker's command without a separator: one that
  starts with a dash is read as an option.
\<close>

theorem paths_read_as_options:
  "verification_command ''type_error'' [''--config-file=x.py''] =
     Some [''mypy'', ''--ignore-missing-imports'', ''--config-file=x.py'']"
  by (simp add: verification_command_def endswith_def)

end
