(* ===== verification/Worker.thy ===== *)
theory Worker
  imports Ingest Pr_State
begin

text \<open>
  The worker, \<^verbatim>\<open>src/app/worker.py\<close>: consumption of the job stream, the claim of a job, its handler, the
  ledger of results, retries and escalation, and the reconciliation of stranded rows.

  The handler is a parameter of \<open>process_job\<close>, as in the code: it is given the claimed row and may
  change the database, and it returns a summary or raises. \<open>graph_handler\<close> is the one the service
  builds; the compiled graph and the GitHub reader are its parameters. Times are arguments: \<open>now\<close> when
  the claim is made, \<open>later\<close> when the handler is back.
\<close>

section \<open>Handlers\<close>

type_synonym handler = "pr_job \<Rightarrow> database \<Rightarrow> database \<times> string res"

definition default_handler :: handler where
  "default_handler job db = (db, Ret (''processed pr '' @ job_repo job @ ''#'' @ int_str (job_pr_number job) @
     ''@'' @ take 8 (job_commit_sha job)))"

definition CI_EVENTS :: "string list" where "CI_EVENTS = [''check_run'', ''workflow_run'']"

definition INDEXED_MAX :: nat where "INDEXED_MAX = 128"

text \<open>
  The memory of indexed trees, oldest first; \<open>ingest_repo\<close> is what indexing the snapshot gave.
\<close>

definition index_snapshot ::
    "string \<Rightarrow> string \<Rightarrow> (string \<times> string) list \<Rightarrow> nat res \<Rightarrow> (string \<times> string) list \<Rightarrow> (string \<times> string) list" where
  "index_snapshot rp ref snapshot ingest_repo indexed =
     (if (rp, ref) \<in> set indexed then filter (\<lambda>k. k \<noteq> (rp, ref)) indexed @ [(rp, ref)]
      else if snapshot = [] then indexed
      else (case ingest_repo of
          Inl e \<Rightarrow> indexed
        | Inr n \<Rightarrow> (let m = indexed @ [(rp, ref)] in drop (length m - INDEXED_MAX) m)))"

definition job_state :: "pr_job \<Rightarrow> changed_file list \<Rightarrow> pr_state" where
  "job_state job files = empty_state\<lparr>repo := Some (job_repo job), pr_number := Some (job_pr_number job),
     commit_sha := Some (job_commit_sha job), changed_files := Some files,
     st_installation_id := Some (case job_installation_id job of None \<Rightarrow> JNull | Some i \<Rightarrow> JInt i)\<rparr>"

definition bool_str :: "bool \<Rightarrow> string" where
  "bool_str b = (if b then ''True'' else ''False'')"

definition run_summary :: "pr_job \<Rightarrow> nat \<Rightarrow> pr_state \<Rightarrow> string" where
  "run_summary job n result =
     (let act = get_default ''none'' (action_taken result);
          pr = job_repo job @ ''#'' @ int_str (job_pr_number job) in
      if job_event job \<in> set CI_EVENTS then
        ''ci-fix pr '' @ pr @ '': failure='' @ get_default ''unknown'' (failure_type result) @
        '' verified='' @ bool_str (get_default False (fix_verified result)) @ '' action='' @ act
      else
        ''review pr '' @ pr @ '': risk='' @ get_default ''?'' (risk_score result) @
        '' files='' @ nat_str n @ '' action='' @ act)"

definition seed_state ::
    "pr_job \<Rightarrow> changed_file list \<Rightarrow> (string \<times> string) list res \<Rightarrow> pr_state res" where
  "seed_state job files snapshot =
     (let st = job_state job files in
      if job_event job \<in> set CI_EVENTS then
        rbind snapshot (\<lambda>snap. Ret (st\<lparr>ci_event := Some (job_event job),
          ci_logs := Some (get_default [] (event_context job)), repo_snapshot := Some snap\<rparr>))
      else Ret st)"

definition graph_handler ::
    "(string \<Rightarrow> int \<Rightarrow> changed_file list res) \<Rightarrow> (string \<Rightarrow> string \<Rightarrow> (string \<times> string) list res) \<Rightarrow>
     (pr_state \<Rightarrow> database \<Rightarrow> database \<times> pr_state res) \<Rightarrow> handler" where
  "graph_handler list_files snapshot_repo invoke job db =
     (case list_files (job_repo job) (job_pr_number job) of
        Inl e \<Rightarrow> (db, Raise e)
      | Inr files \<Rightarrow>
          (case seed_state job files (snapshot_repo (job_repo job) (job_commit_sha job)) of
             Inl e \<Rightarrow> (db, Raise e)
           | Inr st \<Rightarrow>
               (case invoke st db of
                  (db', Inl e) \<Rightarrow> (db', Raise e)
                | (db', Inr result) \<Rightarrow> (db', Ret (run_summary job (length files) result)))))"


section \<open>Processing one job\<close>

definition escalate :: "int \<Rightarrow> pr_job \<Rightarrow> pr_job" where
  "escalate now j = j\<lparr>job_status := DEAD,
     job_last_error := Some (get_default [] (job_last_error j) @ '' | exceeded max attempts''),
     job_updated_at := now\<rparr>"

definition lease_cutoff :: "settings \<Rightarrow> int \<Rightarrow> int" where
  "lease_cutoff s now = now - reclaim_idle_ms s * 1000"

definition claimable :: "settings \<Rightarrow> int \<Rightarrow> pr_job \<Rightarrow> bool" where
  "claimable s now j \<longleftrightarrow> job_status j \<in> {QUEUED, JOB_PENDING} \<or>
     (job_status j = PROCESSING \<and> job_updated_at j < lease_cutoff s now)"

definition take_claim :: "int \<Rightarrow> pr_job \<Rightarrow> pr_job" where
  "take_claim now j = j\<lparr>job_status := PROCESSING, attempts := attempts j + 1, job_updated_at := now\<rparr>"

definition claim_job :: "settings \<Rightarrow> int \<Rightarrow> database \<Rightarrow> int \<Rightarrow> database \<times> bool" where
  "claim_job s now db i = (let (db', n) = exec_job i (claimable s now) (take_claim now) db in
     if n = 0 then (db, False) else (db', True))"

definition release_job :: "int \<Rightarrow> int \<Rightarrow> exc \<Rightarrow> database \<Rightarrow> int \<Rightarrow> database" where
  "release_job stamp later e db i =
     update_job i (\<lambda>j. job_status j = PROCESSING \<and> job_updated_at j = stamp)
       (\<lambda>j. j\<lparr>job_status := QUEUED, job_last_error := Some (exc_repr e), job_updated_at := later\<rparr>) db"

definition record_result :: "int \<Rightarrow> int \<Rightarrow> string \<Rightarrow> job_result list \<Rightarrow> job_result list" where
  "record_result later i summ rs = (if i \<in> set (map result_job_id rs) then rs
     else rs @ [\<lparr>result_job_id = i, result_summary = summ, result_created_at = later\<rparr>])"

definition finish_job :: "int \<Rightarrow> string \<Rightarrow> database \<Rightarrow> int \<Rightarrow> database" where
  "finish_job later summ db i =
     update_job i (\<lambda>_. True) (\<lambda>j. j\<lparr>job_status := DONE, job_updated_at := later\<rparr>)
       (db\<lparr>job_results := record_result later i summ (job_results db)\<rparr>)"

text \<open>The checks before the claim: \<open>Some\<close> database when the call ends there, with \<open>True\<close>.\<close>

definition pre_check :: "settings \<Rightarrow> int \<Rightarrow> database \<Rightarrow> int \<Rightarrow> database option" where
  "pre_check s now db i = (case get_job db i of
       None \<Rightarrow> Some db
     | Some job \<Rightarrow>
         if job_status job = DONE then Some db
         else if job_status job = DEAD then Some db
         else if attempts job \<ge> max_attempts s then Some (update_job i (\<lambda>_. True) (escalate now) db)
         else None)"

definition process_job ::
    "settings \<Rightarrow> int \<Rightarrow> int \<Rightarrow> handler \<Rightarrow> int \<Rightarrow> database \<Rightarrow> database \<times> bool res" where
  "process_job s now later handler i db =
     (case pre_check s now db i of
        Some db' \<Rightarrow> (db', Ret True)
      | None \<Rightarrow>
          (case claim_job s now db i of
             (db1, False) \<Rightarrow> (db1, Ret True)
           | (db1, True) \<Rightarrow>
               (case get_job db1 i of
                  None \<Rightarrow> (db1, Ret True)
                | Some job \<Rightarrow>
                    (case handler job db1 of
                       (db2, Inl e) \<Rightarrow> (release_job now later e db2 i, Raise e)
                     | (db2, Inr summ) \<Rightarrow> (finish_job later summ db2 i, Ret True)))))"

fun reconcile_jobs :: "int \<Rightarrow> xadd \<Rightarrow> string list \<Rightarrow> int list \<Rightarrow> ingest_world \<Rightarrow> nat \<Rightarrow> ingest_world \<times> nat res" where
  "reconcile_jobs now x cids [] w n = (w, Ret n)"
| "reconcile_jobs now x cids (i # is) w n =
     (case claim_and_publish now x (if cids = [] then [] else hd cids) i w of
        (w', Inl e) \<Rightarrow> (w', Raise e)
      | (w', Inr won) \<Rightarrow> reconcile_jobs now x (drop 1 cids) is w' (if won then n + 1 else n))"

definition reconcile_pending :: "int \<Rightarrow> xadd \<Rightarrow> string list \<Rightarrow> ingest_world \<Rightarrow> ingest_world \<times> nat res" where
  "reconcile_pending now x cids w =
     reconcile_jobs now x cids
       (map job_id (select_all (\<lambda>j. job_status j = JOB_PENDING) (pr_jobs (idb w)))) w 0"

text \<open>
  One message: whether it was acknowledged, and the database. A message without a job id, or with one
  that is no number, raises before anything is done. The acknowledgement is inside the \<open>try\<close>: when it
  fails, the job is treated as one whose handler raised.
\<close>

definition message_job :: "stream_message \<Rightarrow> int res" where
  "message_job msg = (case map_of (msg_fields msg) ''job_id'' of
       None \<Rightarrow> Raise (Exc KeyError ''job_id'')
     | Some v \<Rightarrow> json_int (JStr v))"

definition mark_retry :: "int \<Rightarrow> exc \<Rightarrow> pr_job \<Rightarrow> pr_job" where
  "mark_retry now e j = j\<lparr>job_last_error := Some (exc_repr e), job_status := QUEUED, job_updated_at := now\<rparr>"

definition handle_message ::
    "settings \<Rightarrow> int \<Rightarrow> int \<Rightarrow> (string \<Rightarrow> int res) \<Rightarrow> handler \<Rightarrow> stream_message \<Rightarrow> database \<Rightarrow>
     database \<times> bool res" where
  "handle_message s now later ack handler msg db =
     (case message_job msg of
        Inl e \<Rightarrow> (db, Raise e)
      | Inr i \<Rightarrow>
          (case process_job s now later handler i db of
             (db', Inr done) \<Rightarrow>
               if \<not> done then (db', Ret False)
               else (case ack (msg_id msg) of
                   Inr _ \<Rightarrow> (db', Ret True)
                 | Inl e \<Rightarrow> (update_job i (\<lambda>_. True) (mark_retry later e) db', Ret False))
           | (db', Inl e) \<Rightarrow> (update_job i (\<lambda>_. True) (mark_retry later e) db', Ret False)))"


section \<open>Facts\<close>

lemma keeps_job_keys_worker [simp]:
  "keeps_job_keys (escalate now)" "keeps_job_keys (take_claim now)" "keeps_job_keys (mark_retry now e)"
  "keeps_job_keys (\<lambda>j. j\<lparr>job_status := s, job_last_error := x, job_updated_at := now\<rparr>)"
  by (simp_all add: keeps_job_keys_def escalate_def take_claim_def mark_retry_def)

lemma claim_job_eq:
  assumes "wf_db db" and "get_job db i = Some job"
  shows "claim_job s now db i = (if claimable s now job
    then (update_job i (claimable s now) (take_claim now) db, True) else (db, False))"
  using rowcount_job [OF assms(1), of i "claimable s now"] assms(2)
  by (auto simp: claim_job_def Let_def simp del: rowcount_pos rowcount_zero)

lemma get_finish: "get_job (finish_job later summ db i) i =
    map_option (\<lambda>j. j\<lparr>job_status := DONE, job_updated_at := later\<rparr>) (get_job db i)"
proof -
  have "get_job (db\<lparr>job_results := rs\<rparr>) i = get_job db i" for rs by (simp add: get_job_def)
  then show ?thesis by (simp add: finish_job_def)
qed

lemma results_finish: "job_results (finish_job later summ db i) = record_result later i summ (job_results db)"
  by (simp add: finish_job_def)

lemma wf_finish [wf_intros]: "wf_db db \<Longrightarrow> wf_db (finish_job later summ db i)"
  unfolding finish_job_def
  by (intro wf_update_job wf_db_results) (auto simp: record_result_def dest: wf_dbD)

lemma wf_release [wf_intros]: "wf_db db \<Longrightarrow> wf_db (release_job stamp later e db i)"
  by (simp add: release_job_def wf_update_job)

lemma wf_process_job [wf_intros]:
  assumes "wf_db db" and h: "\<And>j d. wf_db d \<Longrightarrow> wf_db (fst (handler j d))"
  shows "wf_db (fst (process_job s now later handler i db))"
proof (cases "get_job db i")
  case None
  then show ?thesis using assms(1) by (simp add: process_job_def pre_check_def)
next
  case (Some job)
  let ?db1 = "update_job i (claimable s now) (take_claim now) db"
  have "wf_db ?db1" using assms(1) by (simp add: wf_update_job)
  then have h1: "wf_db (fst (handler (take_claim now job) ?db1))" by (rule h)
  obtain db2 r where run: "handler (take_claim now job) ?db1 = (db2, r)"
    by (cases "handler (take_claim now job) ?db1")
  then have "wf_db db2" using h1 by simp
  then show ?thesis using assms(1) Some run
    by (cases r) (auto simp: process_job_def pre_check_def claim_job_eq [OF assms(1) Some] wf_update_job
        wf_release wf_finish)
qed

lemma process_job_branches:
  assumes "wf_db db" and "get_job db i = Some job"
  shows "process_job s now later handler i db =
    (if job_status job \<in> {DONE, DEAD} then (db, Ret True)
     else if attempts job \<ge> max_attempts s then (update_job i (\<lambda>_. True) (escalate now) db, Ret True)
     else if \<not> claimable s now job then (db, Ret True)
     else (case handler (take_claim now job) (update_job i (claimable s now) (take_claim now) db) of
         (db2, Inl e) \<Rightarrow> (release_job now later e db2 i, Raise e)
       | (db2, Inr summ) \<Rightarrow> (finish_job later summ db2 i, Ret True)))"
  using assms(2) by (auto simp: process_job_def pre_check_def claim_job_eq [OF assms])


text \<open>
  The ledger records a job's side effect once: whatever the order of two executions of the same
  job, the result of the first to record stays, there is one row for the job, and the job is \<open>DONE\<close>;
  from then on every delivery is acknowledged without running its handler.
\<close>

theorem ledger_records_once:
  assumes "wf_db db" and "get_job db i = Some job"
  shows "job_results (finish_job t2 summ2 (finish_job t1 summ1 db i) i) = job_results (finish_job t1 summ1 db i) \<and>
    length (filter (\<lambda>r. result_job_id r = i) (job_results (finish_job t1 summ1 db i))) = 1 \<and>
    process_job s now later handler i (finish_job t1 summ1 db i) = (finish_job t1 summ1 db i, Ret True)"
proof -
  let ?db = "finish_job t1 summ1 db i"
  have mem: "i \<in> set (map result_job_id (job_results ?db))"
    by (simp add: results_finish record_result_def)
  have d: "distinct (map result_job_id (job_results ?db))" using wf_dbD(4) [OF wf_finish [OF assms(1)]] .
  have one: "length (filter (\<lambda>r. result_job_id r = i) rs) = 1"
    if "i \<in> set (map result_job_id rs)" "distinct (map result_job_id rs)" for rs
    using that
  proof (induction rs)
    case (Cons r rs)
    show ?case
    proof (cases "result_job_id r = i")
      case True
      then have "filter (\<lambda>r. result_job_id r = i) rs = []" using Cons.prems(2) by (auto simp: filter_empty_conv image_iff)
      with True show ?thesis by simp
    qed (use Cons in auto)
  qed simp
  have "get_job ?db i = Some (job\<lparr>job_status := DONE, job_updated_at := t1\<rparr>)"
    using assms(2) by (simp add: get_finish)
  then have "process_job s now later handler i ?db = (?db, Ret True)"
    by (simp add: process_job_def pre_check_def)
  moreover have "job_results (finish_job t2 summ2 ?db i) = job_results ?db"
    unfolding results_finish [of t2] using mem by (simp add: record_result_def del: set_map)
  ultimately show ?thesis using one [OF mem d] by blast
qed


subsection \<open>Retries\<close>

text \<open>A handler that always fails and leaves the job's row alone, and repeated deliveries to it.\<close>

definition failing :: "handler \<Rightarrow> int \<Rightarrow> bool" where
  "failing h i \<longleftrightarrow> (\<forall>j d. (\<exists>e. snd (h j d) = Raise e) \<and> get_job (fst (h j d)) i = get_job d i \<and>
     (wf_db d \<longrightarrow> wf_db (fst (h j d))))"

fun deliveries ::
    "settings \<Rightarrow> (nat \<Rightarrow> int) \<Rightarrow> (string \<Rightarrow> int res) \<Rightarrow> handler \<Rightarrow> stream_message \<Rightarrow> nat \<Rightarrow> database \<Rightarrow> database \<times> bool list" where
  "deliveries s clock ack h m 0 db = (db, [])"
| "deliveries s clock ack h m (Suc n) db =
     (case deliveries s clock ack h m n db of (d, acks) \<Rightarrow>
        case handle_message s (clock (2 * n)) (clock (2 * n + 1)) ack h m d of
          (d', Inr a) \<Rightarrow> (d', acks @ [a]) | (d', Inl e) \<Rightarrow> (d', acks @ [False]))"

lemma failed_delivery:
  assumes "wf_db db" and "get_job db i = Some job" and "failing h i" and "message_job m = Ret i"
    and "job_status job = QUEUED" and "attempts job < max_attempts s"
  shows "\<exists>db' job'. handle_message s now later ack h m db = (db', Ret False) \<and> wf_db db' \<and>
    get_job db' i = Some job' \<and> job_status job' = QUEUED \<and> attempts job' = attempts job + 1"
proof -
  let ?db1 = "update_job i (claimable s now) (take_claim now) db"
  have cl: "claimable s now job" using assms(5) by (simp add: claimable_def)
  have wf1: "wf_db ?db1" using assms(1) by (simp add: wf_update_job)
  obtain db2 r where hr: "h (take_claim now job) ?db1 = (db2, r)"
    by (cases "h (take_claim now job) ?db1")
  have "(\<exists>e. snd (h j d) = Raise e) \<and> get_job (fst (h j d)) i = get_job d i \<and>
      (wf_db d \<longrightarrow> wf_db (fst (h j d)))" for j d
    using assms(3) by (simp add: failing_def)
  from this [of "take_claim now job" ?db1] obtain e where
    h: "h (take_claim now job) ?db1 = (db2, Raise e)" "get_job db2 i = Some (take_claim now job)" "wf_db db2"
    using assms(2) cl wf1 hr by auto
  have run: "process_job s now later h i db = (release_job now later e db2 i, Raise e)"
    using assms(5,6) cl h(1) by (simp add: process_job_branches [OF assms(1,2)])
  show ?thesis
    using h(2,3) by (simp add: handle_message_def assms(4) run wf_update_job wf_release release_job_def
        mark_retry_def take_claim_def)
qed

lemma deliveries_failing:
  assumes "wf_db db" and "get_job db i = Some job" and "failing h i" and "message_job m = Ret i"
    and "job_status job = QUEUED" and "attempts job = 0" and "int n \<le> max_attempts s"
  shows "\<exists>job'. wf_db (fst (deliveries s clock ack h m n db)) \<and>
    get_job (fst (deliveries s clock ack h m n db)) i = Some job' \<and> job_status job' = QUEUED \<and>
    attempts job' = int n \<and> snd (deliveries s clock ack h m n db) = replicate n False"
  using assms(7)
proof (induction n)
  case 0
  then show ?case using assms by simp
next
  case (Suc n)
  then obtain job' where IH: "wf_db (fst (deliveries s clock ack h m n db))"
    "get_job (fst (deliveries s clock ack h m n db)) i = Some job'" "job_status job' = QUEUED"
    "attempts job' = int n" "snd (deliveries s clock ack h m n db) = replicate n False" by auto
  have "attempts job' < max_attempts s" using IH(4) Suc.prems by simp
  from failed_delivery [OF IH(1,2) assms(3,4) IH(3) this, of "clock (2 * n)" "clock (2 * n + 1)" ack]
  show ?case using IH(4,5)
    by (auto simp: case_prod_beta replicate_append_same)
qed

text \<open>
  C30. Retries are bounded and end with a human: a job whose handler keeps failing is run exactly
  \<open>max_attempts\<close> times, each time without an acknowledgement; the next delivery acknowledges the
  message and leaves the job \<open>DEAD\<close>, with the reason appended to its error, without running it.
\<close>

theorem retries_bounded:
  assumes "wf_db db" and "get_job db i = Some job" and "failing h i" and "message_job m = Ret i"
    and "job_status job = QUEUED" and "attempts job = 0" and "0 \<le> max_attempts s" and "ack (msg_id m) = Ret k"
  shows "\<exists>job'. snd (deliveries s clock ack h m (Suc (nat (max_attempts s))) db) =
      replicate (nat (max_attempts s)) False @ [True] \<and>
    get_job (fst (deliveries s clock ack h m (Suc (nat (max_attempts s))) db)) i = Some job' \<and>
    job_status job' = DEAD \<and> attempts job' = max_attempts s"
proof -
  let ?n = "nat (max_attempts s)"
  obtain job' where d: "wf_db (fst (deliveries s clock ack h m ?n db))"
    "get_job (fst (deliveries s clock ack h m ?n db)) i = Some job'" "job_status job' = QUEUED"
    "attempts job' = max_attempts s" "snd (deliveries s clock ack h m ?n db) = replicate ?n False"
    using deliveries_failing [OF assms(1-6), of ?n s clock] assms(7) by auto
  have "process_job s now later h i (fst (deliveries s clock ack h m ?n db)) =
      (update_job i (\<lambda>_. True) (escalate now) (fst (deliveries s clock ack h m ?n db)), Ret True)" for now later
    using d(3,4) by (simp add: process_job_branches [OF d(1,2)])
  then show ?thesis
    using d by (simp add: case_prod_beta handle_message_def assms(4,8) escalate_def)
qed

text \<open>
  The error path overrides the claim: when a handler raises, the row is set back to \<open>QUEUED\<close>
  unconditionally, although the guarded release before it leaves alone a row that another worker has
  finished or claimed again in the meantime. So a job that is \<open>DONE\<close> can become runnable again.
\<close>

theorem failure_reopens_finished_job:
  assumes "wf_db db" and "get_job db i = Some job" and "message_job m = Ret i"
    and "job_status job = QUEUED" and "attempts job < max_attempts s"
    and "handler (take_claim now job) (update_job i (claimable s now) (take_claim now) db) = (db2, Raise e)"
    and "get_job db2 i = Some done_job" and "job_status done_job = DONE"
  shows "get_job (fst (process_job s now later handler i db)) i = Some done_job \<and>
    (\<exists>j. get_job (fst (handle_message s now later ack handler m db)) i = Some j \<and> job_status j = QUEUED \<and>
       claimable s any j)"
proof -
  have run: "process_job s now later handler i db = (release_job now later e db2 i, Raise e)"
    using assms(4,5,6) by (simp add: process_job_branches [OF assms(1,2)] claimable_def)
  then show ?thesis
    using assms(7,8) by (simp add: handle_message_def assms(3) release_job_def mark_retry_def claimable_def)
qed

text \<open>
  A redelivery inside the lease is acknowledged although nobody may be working: if the row is
  \<open>PROCESSING\<close> with a claim younger than the reclaim window, the message is acknowledged and the row
  stays as it is, also when the worker that claimed it has died; the reconciliation, which looks at
  \<open>PENDING\<close> rows only, does not touch it either.
\<close>

theorem redelivery_within_lease_is_dropped:
  assumes "wf_db db" and "get_job db i = Some job" and "message_job m = Ret i"
    and "job_status job = PROCESSING" and "lease_cutoff s now \<le> job_updated_at job"
    and "attempts job < max_attempts s" and "ack (msg_id m) = Ret k"
  shows "handle_message s now later ack handler m db = (db, Ret True) \<and>
    i \<notin> set (map job_id (select_all (\<lambda>j. job_status j = JOB_PENDING) (pr_jobs db)))"
proof
  show "handle_message s now later ack handler m db = (db, Ret True)"
    using assms by (simp add: handle_message_def process_job_branches [OF assms(1,2)] claimable_def)
  show "i \<notin> set (map job_id (select_all (\<lambda>j. job_status j = JOB_PENDING) (pr_jobs db)))"
  proof
    assume "i \<in> set (map job_id (select_all (\<lambda>j. job_status j = JOB_PENDING) (pr_jobs db)))"
    then obtain x where "get_job db i = Some x" "job_status x = JOB_PENDING"
      by (auto simp: select_all_def get_job_iff [OF assms(1)])
    with assms(2,4) show False by simp
  qed
qed

text \<open>
  The job id survives the stream: the message parsed from the entry that \<open>claim_and_publish\<close>
  appended, as bytes, names the job that was published.
\<close>

theorem published_job_is_consumed:
  "\<exists>m. parse_entries [delivered e (stringify (job_fields cid job))] = Ret [m] \<and> msg_id m = e \<and>
     message_job m = Ret (job_id job)"
proof -
  have "parse_entries [delivered e (stringify (job_fields cid job))] =
      Ret [\<lparr>msg_id = e, msg_fields = stringify (job_fields cid job)\<rparr>]"
    using parse_delivered [of "[(e, stringify (job_fields cid job))]"] by simp
  moreover have "map_of (stringify (job_fields cid job)) ''job_id'' = Some (int_str (job_id job))"
    by (simp add: stringify_def job_fields_def json_str_def)
  ultimately show ?thesis by (auto simp: message_job_def json_int_def)
qed

text \<open>
  The memory of indexed trees stays within its bound and free of duplicates, and an indexed tree
  is the most recent entry.
\<close>

theorem index_memory_bounded:
  assumes "distinct indexed" and "length indexed \<le> INDEXED_MAX"
  shows "distinct (index_snapshot rp ref snap r indexed) \<and>
    length (index_snapshot rp ref snap r indexed) \<le> INDEXED_MAX \<and>
    (snap \<noteq> [] \<and> (\<exists>n. r = Ret n) \<longrightarrow> last (index_snapshot rp ref snap r indexed) = (rp, ref))"
proof (cases "(rp, ref) \<in> set indexed")
  case True
  have "length (filter (\<lambda>k. k \<noteq> (rp, ref)) indexed) < length indexed"
    using True by (auto intro: length_filter_less)
  with True assms show ?thesis by (simp add: index_snapshot_def)
next
  case False
  have "last (drop (length indexed + 1 - INDEXED_MAX) (indexed @ [(rp, ref)])) = (rp, ref)"
    using assms(2) by (simp add: last_drop INDEXED_MAX_def)
  with False assms show ?thesis
    by (auto simp: index_snapshot_def Let_def INDEXED_MAX_def split: sum.splits
        dest: in_set_dropD)
qed

text \<open>Inputs for the witnesses: one queued job, and handlers that fail, or fail after another finished.\<close>

definition worker_job :: "job_status \<Rightarrow> pr_job" where
  "worker_job st = demo_job\<lparr>job_status := st\<rparr>"

definition worker_db :: "job_status \<Rightarrow> database" where
  "worker_db st = empty_db\<lparr>pr_jobs := \<lparr>rows = [worker_job st], seq = 2\<rparr>\<rparr>"

lemma worker_db_facts [simp]: "wf_db (worker_db st)" "get_job (worker_db st) 1 = Some (worker_job st)"
  "job_status (worker_job st) = st" "attempts (worker_job st) = 0" "job_updated_at (worker_job st) = 1"
  by (simp_all add: worker_db_def worker_job_def wf_db_def wf_table_def empty_db_def empty_table_def
      get_job_def select_one_def demo_job_def with_job_id_def new_job_def)

definition demo_message :: stream_message where
  "demo_message = \<lparr>msg_id = ''1-0'', msg_fields = [(''job_id'', ''1'')]\<rparr>"

lemma demo_message_job [simp]: "message_job demo_message = Ret 1"
  by code_simp

definition failing_handler :: handler where
  "failing_handler j d = (d, Raise (Exc HTTPError ''timeout''))"

definition overtaken_handler :: handler where
  "overtaken_handler j d = (finish_job 5 ''ok'' d (job_id j), Raise (Exc HTTPError ''timeout''))"

lemma failing_handler_ok: "failing failing_handler i"
  by (simp add: failing_def failing_handler_def)


theorem ledger_records_once_witness:
  "process_job default_settings 9 10 failing_handler 1 (finish_job 5 ''ok'' (worker_db PROCESSING) 1) =
     (finish_job 5 ''ok'' (worker_db PROCESSING) 1, Ret True)"
  using ledger_records_once [OF worker_db_facts(1,2), of 6 "''late''" 5 "''ok''" PROCESSING] by blast

theorem retries_bounded_witness:
  "\<exists>job'. get_job (fst (deliveries default_settings (\<lambda>n. int n) (\<lambda>_. Ret 1) failing_handler demo_message
     (Suc (nat (max_attempts default_settings))) (worker_db QUEUED))) 1 = Some job' \<and> job_status job' = DEAD"
  using retries_bounded [OF worker_db_facts(1,2) failing_handler_ok demo_message_job,
      of QUEUED default_settings "\<lambda>_. Ret 1" 1 "\<lambda>n. int n"]
  by (auto simp: default_settings_def)

theorem failure_reopens_finished_job_witness:
  "\<exists>j. get_job (fst (handle_message default_settings 4 6 (\<lambda>_. Ret 1) overtaken_handler demo_message (worker_db QUEUED))) 1 =
     Some j \<and> job_status j = QUEUED"
proof -
  let ?db1 = "update_job 1 (claimable default_settings 4) (take_claim 4) (worker_db QUEUED)"
  have id: "job_id (take_claim 4 (worker_job QUEUED)) = 1"
    by (simp add: take_claim_def worker_job_def demo_job_def)
  have run: "overtaken_handler (take_claim 4 (worker_job QUEUED)) ?db1 =
      (finish_job 5 ''ok'' ?db1 1, Raise (Exc HTTPError ''timeout''))"
    by (simp add: overtaken_handler_def id)
  have got: "get_job (finish_job 5 ''ok'' ?db1 1) 1 =
      Some ((take_claim 4 (worker_job QUEUED))\<lparr>job_status := DONE, job_updated_at := 5\<rparr>)"
    by (simp add: get_finish claimable_def)
  have "attempts (worker_job QUEUED) < max_attempts default_settings" by (simp add: default_settings_def)
  from failure_reopens_finished_job [where s = default_settings and handler = overtaken_handler and now = 4,
      OF worker_db_facts(1,2) demo_message_job worker_db_facts(3) this run got, of 6 "\<lambda>_. Ret 1" 0]
  show ?thesis by auto
qed

theorem redelivery_within_lease_is_dropped_witness:
  "handle_message default_settings 2 3 (\<lambda>_. Ret 1) failing_handler demo_message (worker_db PROCESSING) =
     (worker_db PROCESSING, Ret True)"
proof -
  have "lease_cutoff default_settings 2 \<le> job_updated_at (worker_job PROCESSING)"
    "attempts (worker_job PROCESSING) < max_attempts default_settings"
    by (simp_all add: lease_cutoff_def default_settings_def)
  from redelivery_within_lease_is_dropped [OF worker_db_facts(1,2) demo_message_job worker_db_facts(3) this, where ack = "\<lambda>_. Ret 1" and k = 1]
  show ?thesis by simp
qed

theorem index_memory_bounded_witness:
  "last (index_snapshot ''o/r'' ''sha'' [(''a.py'', ''x'')] (Ret 1) [(''o/q'', ''s'')]) = (''o/r'', ''sha'')"
  using index_memory_bounded [of "[(''o/q'', ''s'')]" "''o/r''" "''sha''" "[(''a.py'', ''x'')]" "Ret 1"]
  by (simp add: INDEXED_MAX_def)

end
