(* ===== verification/Graph.thy ===== *)
theory Graph
  imports Agents Sandbox Router Worker
begin

text \<open>
  The compiled pipeline, \<^verbatim>\<open>src/app/agents/graph.py\<close>: the entry router, the conditional edges and the
  run from the entry to the router node. A run keeps the list of nodes it executed, so that its shape
  can be stated. LangGraph stops a run after a number of steps of its own; that limit is the fuel.

  The world of a run has the chat model's state, the sandbox's world, and the router's world (the
  committed database and the calls made to GitHub).
\<close>

section \<open>Routing between the nodes\<close>

datatype node = CodeReviewer | TestGenerator | CiMonitor | FixAgent | FixVerifier | RouterNode

definition RETRYABLE_REASONS :: "string list" where
  "RETRYABLE_REASONS = [''check_failed'', ''patch_apply_failed'', ''timeout'']"

definition is_ci_failure_event :: "pr_state \<Rightarrow> bool" where
  "is_ci_failure_event st \<longleftrightarrow> truthy_str (ci_logs st) \<or> truthy_str (ci_event st)"

definition entry_router :: "pr_state \<Rightarrow> node" where
  "entry_router st = (if is_ci_failure_event st then CiMonitor else CodeReviewer)"

definition after_ci_monitor :: "pr_state \<Rightarrow> node" where
  "after_ci_monitor st =
     (if get_default ''unknown'' (failure_type st) = ''unknown'' then RouterNode else FixAgent)"

definition after_fix_verifier :: "settings \<Rightarrow> pr_state \<Rightarrow> node" where
  "after_fix_verifier s st =
     (if fix_verified st = Some True then RouterNode
      else if get_default [] (verification_reason st) \<in> set RETRYABLE_REASONS \<and>
              get_default 0 (fix_attempts st) < max_fix_attempts s
        then FixAgent else RouterNode)"

text \<open>The edges of the graph; the router has the one to the end.\<close>

fun next_node :: "settings \<Rightarrow> node \<Rightarrow> pr_state \<Rightarrow> node option" where
  "next_node s CodeReviewer st = Some TestGenerator"
| "next_node s TestGenerator st = Some RouterNode"
| "next_node s CiMonitor st = Some (after_ci_monitor st)"
| "next_node s FixAgent st = Some FixVerifier"
| "next_node s FixVerifier st = Some (after_fix_verifier s st)"
| "next_node s RouterNode st = None"


section \<open>The run\<close>

record ('l, 'b) run_world =
  llm_world :: 'l
  box_world :: 'b
  out_world :: world

record ('l, 'b) pipeline =
  pl_settings :: settings
  pl_json :: json_env
  pl_chat :: "'l chat_api"
  pl_rag :: "rag_store option"
  pl_sandbox :: "'b sandbox"
  pl_github :: "gh_client option"
  pl_sessions :: session_factory
  pl_now :: int

definition on_llm :: "'l \<times> 'a \<Rightarrow> ('l, 'b) run_world \<Rightarrow> ('l, 'b) run_world \<times> 'a" where
  "on_llm p w = (w\<lparr>llm_world := fst p\<rparr>, snd p)"

fun run_node ::
    "('l, 'b) pipeline \<Rightarrow> node \<Rightarrow> pr_state \<Rightarrow> ('l, 'b) run_world \<Rightarrow> ('l, 'b) run_world \<times> pr_state res" where
  "run_node p CodeReviewer st w =
     on_llm (code_reviewer_node (pl_settings p) (pl_json p) (pl_chat p) (pl_rag p) st (llm_world w)) w"
| "run_node p TestGenerator st w =
     on_llm (test_generator_node (pl_settings p) (pl_chat p) (pl_rag p) st (llm_world w)) w"
| "run_node p CiMonitor st w =
     on_llm (ci_monitor_node (pl_settings p) (pl_json p) (pl_chat p) st (llm_world w)) w"
| "run_node p FixAgent st w =
     on_llm (fix_agent_node (pl_settings p) (pl_chat p) (pl_rag p) st (llm_world w)) w"
| "run_node p FixVerifier st w =
     (let (st', b) = fix_verifier_node (pl_sandbox p) st (box_world w) in (w\<lparr>box_world := b\<rparr>, Ret st'))"
| "run_node p RouterNode st w =
     (let (v, r) = router_node (pl_settings p) (pl_now p) (pl_github p) (pl_sessions p) st (out_world w) in
      (w\<lparr>out_world := v\<rparr>, r))"

datatype run_end = Finished pr_state | NodeRaised exc | OutOfSteps

fun run_from ::
    "nat \<Rightarrow> ('l, 'b) pipeline \<Rightarrow> node \<Rightarrow> pr_state \<Rightarrow> ('l, 'b) run_world \<Rightarrow>
     node list \<times> ('l, 'b) run_world \<times> run_end" where
  "run_from 0 p n st w = ([], w, OutOfSteps)"
| "run_from (Suc limit) p n st w = (case run_node p n st w of
       (w', Inl e) \<Rightarrow> ([n], w', NodeRaised e)
     | (w', Inr st') \<Rightarrow> (case next_node (pl_settings p) n st' of
           None \<Rightarrow> ([n], w', Finished st')
         | Some m \<Rightarrow> (case run_from limit p m st' w' of (tr, r) \<Rightarrow> (n # tr, r))))"

definition run_graph ::
    "nat \<Rightarrow> ('l, 'b) pipeline \<Rightarrow> pr_state \<Rightarrow> ('l, 'b) run_world \<Rightarrow>
     node list \<times> ('l, 'b) run_world \<times> run_end" where
  "run_graph limit p st w = run_from limit p (entry_router st) st w"

definition invoke ::
    "nat \<Rightarrow> ('l, 'b) pipeline \<Rightarrow> pr_state \<Rightarrow> ('l, 'b) run_world \<Rightarrow> ('l, 'b) run_world \<times> pr_state res" where
  "invoke limit p st w = (case run_graph limit p st w of (_, w', r) \<Rightarrow>
     (w', case r of Finished st' \<Rightarrow> Ret st' | NodeRaised e \<Rightarrow> Raise e
        | OutOfSteps \<Rightarrow> Raise (Exc RecursionError ''GraphRecursionError'')))"

text \<open>
  The graph as the worker's handler calls it: one job, the database in and out. The other parts of
  the world start from what the worker holds.
\<close>

definition invoke_for_worker ::
    "nat \<Rightarrow> ('l, 'b) pipeline \<Rightarrow> ('l, 'b) run_world \<Rightarrow> pr_state \<Rightarrow> database \<Rightarrow> database \<times> pr_state res" where
  "invoke_for_worker limit p w st db =
     (case invoke limit p st (w\<lparr>out_world := (out_world w)\<lparr>wdb := db\<rparr>\<rparr>) of
        (w', r) \<Rightarrow> (wdb (out_world w'), r))"


section \<open>Facts about one step\<close>

lemma on_llm_result:
  "on_llm q w = (w', r) \<longleftrightarrow> (\<exists>l. q = (l, r) \<and> w' = w\<lparr>llm_world := l\<rparr>)"
  by (cases q) (auto simp: on_llm_def)

lemma reviewer_step:
  "run_node p CodeReviewer st w = (w', Ret st') \<Longrightarrow> \<exists>f r m c l. r \<in> set VALID_RISK \<and>
     st' = st\<lparr>review_findings := Some f, risk_score := Some r, summary := Some m, rag_context := Some c\<rparr> \<and>
     w' = w\<lparr>llm_world := l\<rparr>"
  by (simp add: on_llm_result) (blast dest: reviewer_result)

lemma test_generator_step:
  "run_node p TestGenerator st w = (w', Ret st') \<Longrightarrow>
     \<exists>t l. st' = st\<lparr>generated_tests := Some t\<rparr> \<and> w' = w\<lparr>llm_world := l\<rparr>"
  by (simp add: on_llm_result) (blast dest: test_generator_result)

lemma ci_monitor_step:
  "run_node p CiMonitor st w = (w', Ret st') \<Longrightarrow>
     \<exists>t d x l. t \<in> set FAILURE_TYPES \<and> st' = diagnosed t d x st \<and> w' = w\<lparr>llm_world := l\<rparr>"
  by (simp add: on_llm_result) (blast dest: ci_monitor_result)

lemma fix_agent_step:
  "run_node p FixAgent st w = (w', Ret st') \<Longrightarrow>
     \<exists>q l. q \<noteq> NO_FIX \<and> st' = proposed q (get_default 0 (fix_attempts st) + 1) st \<and> w' = w\<lparr>llm_world := l\<rparr>"
  by (simp add: on_llm_result) (blast dest: fix_agent_result)

lemma fix_verifier_shape:
  "\<exists>b why out. fst (fix_verifier_node sbx st w) = with_verdict b why out st"
  by (auto simp: fix_verifier_node_def Let_def split: option.split prod.split sum.split)

lemma fix_verifier_step:
  assumes "run_node p FixVerifier st w = (w', r)"
  shows "\<exists>b why out box. r = Ret (with_verdict b why out st) \<and> w' = w\<lparr>box_world := box\<rparr>"
proof -
  obtain st' box where f: "fix_verifier_node (pl_sandbox p) st (box_world w) = (st', box)"
    by (cases "fix_verifier_node (pl_sandbox p) st (box_world w)")
  then show ?thesis
    using assms fix_verifier_shape [of "pl_sandbox p" st "box_world w"] by auto
qed

lemma router_step:
  "run_node p RouterNode st w = (w', r) \<longleftrightarrow> (\<exists>v.
     router_node (pl_settings p) (pl_now p) (pl_github p) (pl_sessions p) st (out_world w) = (v, r) \<and>
     w' = w\<lparr>out_world := v\<rparr>)"
  by (auto split: prod.splits)

declare run_node.simps [simp del]

text \<open>The loop of the CI track: fix agent, verifier, and back while the budget lasts.\<close>

lemma attempts_after [simp]:
  "fix_attempts (with_verdict b why out st) = fix_attempts st"
  "fix_attempts (proposed q n st) = Some n"
  "fix_attempts (diagnosed t d x st) = fix_attempts st"
  by (simp_all add: with_verdict_def proposed_def diagnosed_def)

abbreviation attempts_of :: "pr_state \<Rightarrow> int" where
  "attempts_of st \<equiv> get_default 0 (fix_attempts st)"

definition rounds_left :: "settings \<Rightarrow> pr_state \<Rightarrow> nat" where
  "rounds_left s st = max 1 (nat (max_fix_attempts s - attempts_of st))"

definition fix_rounds :: "nat \<Rightarrow> node list" where
  "fix_rounds k = concat (replicate k [FixAgent, FixVerifier])"

lemma fix_rounds_simps [simp]:
  "fix_rounds 0 = []" "fix_rounds (Suc k) = FixAgent # FixVerifier # fix_rounds k"
  by (simp_all add: fix_rounds_def)

lemma router_ends:
  "run_from (Suc limit) p RouterNode st w = (tr, w', r) \<Longrightarrow> tr = [RouterNode] \<and> r \<noteq> OutOfSteps"
  by (auto split: prod.splits sum.splits)

text \<open>
  From the fix agent, with two steps for each round left and one for the router, the run ends by
  itself; when no node raises it is some rounds, at most as many as are left, and then the router.
\<close>

lemma fix_loop:
  assumes "2 * rounds_left (pl_settings p) st + 1 \<le> limit"
    and "run_from limit p FixAgent st w = (tr, w', r)"
  shows "r \<noteq> OutOfSteps \<and> (\<forall>st'. r = Finished st' \<longrightarrow>
    (\<exists>k \<le> rounds_left (pl_settings p) st. 1 \<le> k \<and> tr = fix_rounds k @ [RouterNode]))"
  using assms
proof (induction "nat (max_fix_attempts (pl_settings p) - attempts_of st)" arbitrary: limit st w tr rule: less_induct)
  case less
  obtain l where l: "limit = Suc (Suc l)" "2 * rounds_left (pl_settings p) st \<le> Suc l"
    using less.prems(1) by (cases limit; cases "limit - 1") (auto simp: rounds_left_def)
  show ?case
  proof (cases "run_node p FixAgent st w")
    case (Pair w1 r1)
    show ?thesis
    proof (cases r1)
      case (Inl e)
      then show ?thesis using less.prems(2) Pair l by auto
    next
      case (Inr st1)
      then obtain q where st1: "st1 = proposed q (attempts_of st + 1) st"
        using fix_agent_step Pair by blast
      obtain w2 r2 where v: "run_node p FixVerifier st1 w1 = (w2, r2)" by (cases "run_node p FixVerifier st1 w1")
      then obtain b why out where r2: "r2 = Ret (with_verdict b why out st1)" using fix_verifier_step by blast
      let ?st2 = "with_verdict b why out st1"
      have att: "attempts_of ?st2 = attempts_of st + 1" using st1 by simp
      obtain tr' w3 where rest: "run_from l p (after_fix_verifier (pl_settings p) ?st2) ?st2 w2 = (tr', w3, r)"
        and tr: "tr = FixAgent # FixVerifier # tr'" "w3 = w'"
        using less.prems(2) Pair Inr v r2 l(1) by (auto split: prod.splits)
      show ?thesis
      proof (cases "after_fix_verifier (pl_settings p) ?st2 = FixAgent")
        case True
        then have more: "attempts_of st + 1 < max_fix_attempts (pl_settings p)"
          using att by (auto simp: after_fix_verifier_def split: if_splits)
        then have rounds: "rounds_left (pl_settings p) ?st2 + 1 = rounds_left (pl_settings p) st"
          using st1 by (simp add: rounds_left_def max_def) linarith
        have "nat (max_fix_attempts (pl_settings p) - attempts_of ?st2) <
            nat (max_fix_attempts (pl_settings p) - attempts_of st)" using more att by simp
        from less.hyps [OF this, of l w2 tr'] rest True rounds l(2) tr(2)
        have ih: "r \<noteq> OutOfSteps" "\<And>st'. r = Finished st' \<Longrightarrow>
            \<exists>k \<le> rounds_left (pl_settings p) ?st2. 1 \<le> k \<and> tr' = fix_rounds k @ [RouterNode]"
          by auto
        show ?thesis
        proof (intro conjI allI impI)
          fix st' assume "r = Finished st'"
          then obtain k where "k \<le> rounds_left (pl_settings p) ?st2" "tr' = fix_rounds k @ [RouterNode]"
            using ih(2) by blast
          then have "Suc k \<le> rounds_left (pl_settings p) st" "tr = fix_rounds (Suc k) @ [RouterNode]"
            using rounds tr(1) by simp_all
          then show "\<exists>k \<le> rounds_left (pl_settings p) st. 1 \<le> k \<and> tr = fix_rounds k @ [RouterNode]"
            by (intro exI [of _ "Suc k"]) simp
        qed (rule ih(1))
      next
        case False
        then have "after_fix_verifier (pl_settings p) ?st2 = RouterNode"
          by (auto simp: after_fix_verifier_def split: if_splits)
        moreover obtain l' where "l = Suc l'" using l(2) by (cases l) (auto simp: rounds_left_def)
        ultimately have "run_from (Suc l') p RouterNode ?st2 w2 = (tr', w3, r)" using rest by simp
        then have "tr' = [RouterNode]" "r \<noteq> OutOfSteps" using router_ends by blast+
        then show ?thesis using tr(1) by (auto simp: rounds_left_def intro!: exI [of _ "1::nat"])
      qed
    qed
  qed
qed


lemma run_from_step:
  assumes "run_from (Suc limit) p n st w = (tr, w', r)" and "n \<noteq> RouterNode"
  shows "(\<exists>e. r = NodeRaised e) \<or> (\<exists>st1 w1 m tr1. run_node p n st w = (w1, Ret st1) \<and>
    next_node (pl_settings p) n st1 = Some m \<and> run_from limit p m st1 w1 = (tr1, w', r) \<and> tr = n # tr1)"
proof -
  obtain w1 r1 where n: "run_node p n st w = (w1, r1)" by (cases "run_node p n st w")
  show ?thesis
  proof (cases r1)
    case (Inr st1)
    obtain m where "next_node (pl_settings p) n st1 = Some m" using assms(2) by (cases n) auto
    then show ?thesis using assms(1) n Inr by (auto split: prod.splits)
  qed (use assms(1) n in auto)
qed

definition step_budget :: "settings \<Rightarrow> pr_state \<Rightarrow> nat" where
  "step_budget s st = 2 * rounds_left s st + 2"

lemma graph_run_shape:
  assumes "step_budget (pl_settings p) st \<le> limit" and "run_graph limit p st w = (tr, w', r)"
  shows "r \<noteq> OutOfSteps \<and> (\<forall>st'. r = Finished st' \<longrightarrow>
    (if is_ci_failure_event st
     then \<exists>k \<le> rounds_left (pl_settings p) st. tr = CiMonitor # fix_rounds k @ [RouterNode]
     else tr = [CodeReviewer, TestGenerator, RouterNode]))"
proof (cases "is_ci_failure_event st")
  case False
  obtain l where l: "limit = Suc (Suc (Suc l))"
    using assms(1) by (cases limit; cases "limit - 1"; cases "limit - 2") (auto simp: step_budget_def rounds_left_def)
  have "run_from limit p CodeReviewer st w = (tr, w', r)"
    using assms(2) False by (simp add: run_graph_def entry_router_def)
  then consider (raised) e where "r = NodeRaised e"
    | (reviewed) st1 w1 tr1 where "run_from (Suc (Suc l)) p TestGenerator st1 w1 = (tr1, w', r)" "tr = CodeReviewer # tr1"
    unfolding l by (drule_tac run_from_step) auto
  then show ?thesis
  proof cases
    case reviewed
    then consider (raised) e where "r = NodeRaised e"
      | (tested) st2 w2 tr2 where "run_from (Suc l) p RouterNode st2 w2 = (tr2, w', r)" "tr1 = TestGenerator # tr2"
      by (drule_tac run_from_step) auto
    then show ?thesis
    proof cases
      case tested
      then show ?thesis using router_ends [OF tested(1)] reviewed(2) False by simp
    qed simp
  qed simp
next
  case True
  obtain l where l: "limit = Suc (Suc l)" "2 * rounds_left (pl_settings p) st + 1 \<le> Suc l"
    using assms(1) by (cases limit; cases "limit - 1") (auto simp: step_budget_def rounds_left_def)
  have "run_from limit p CiMonitor st w = (tr, w', r)"
    using assms(2) True by (simp add: run_graph_def entry_router_def)
  then consider (raised) e where "r = NodeRaised e"
    | (diagnosed) st1 w1 tr1 where "run_node p CiMonitor st w = (w1, Ret st1)"
        "run_from (Suc l) p (after_ci_monitor st1) st1 w1 = (tr1, w', r)" "tr = CiMonitor # tr1"
    unfolding l(1) by (drule_tac run_from_step) auto
  then show ?thesis
  proof cases
    case diagnosed
    have same: "rounds_left (pl_settings p) st1 = rounds_left (pl_settings p) st"
      using ci_monitor_step [OF diagnosed(1)] by (auto simp: rounds_left_def)
    show ?thesis
    proof (cases "after_ci_monitor st1 = FixAgent")
      case True': True
      have "r \<noteq> OutOfSteps \<and> (\<forall>st'. r = Finished st' \<longrightarrow>
          (\<exists>k \<le> rounds_left (pl_settings p) st1. 1 \<le> k \<and> tr1 = fix_rounds k @ [RouterNode]))"
        by (rule fix_loop [of _ _ "Suc l"]) (use l(2) same diagnosed(2) True' in simp_all)
      then show ?thesis using diagnosed(3) True same by auto
    next
      case False
      then have "run_from (Suc l) p RouterNode st1 w1 = (tr1, w', r)"
        using diagnosed(2) by (simp add: after_ci_monitor_def split: if_splits)
      then have "tr1 = [RouterNode]" "r \<noteq> OutOfSteps" using router_ends by blast+
      then show ?thesis using diagnosed(3) True by (auto intro!: exI [of _ "0::nat"])
    qed
  qed simp
qed



section \<open>What a run does to the outside\<close>

text \<open>
  The inputs of a run, which no node changes, and the invariant of the verified flag: it is set at a
  node other than the verifier only for the patch the sandbox has just passed.
\<close>

definition same_job :: "pr_state \<Rightarrow> pr_state \<Rightarrow> bool" where
  "same_job st st' \<longleftrightarrow> repo st' = repo st \<and> pr_number st' = pr_number st \<and> commit_sha st' = commit_sha st \<and>
     st_installation_id st' = st_installation_id st \<and> changed_files st' = changed_files st \<and>
     ci_logs st' = ci_logs st \<and> ci_event st' = ci_event st \<and> repo_snapshot st' = repo_snapshot st"

definition sandbox_passed :: "('l, 'b) pipeline \<Rightarrow> pr_state \<Rightarrow> bool" where
  "sandbox_passed p st \<longleftrightarrow> (\<exists>command res box.
     verification_command (get_default ''unknown'' (failure_type st)) (changed_paths st) = Some command \<and>
     get_default [] (proposed_fix st) \<noteq> [] \<and> get_default [] (repo_snapshot st) \<noteq> [] \<and>
     fst (pl_sandbox p (get_default [] (repo_snapshot st)) (get_default [] (proposed_fix st)) command box) = Ret res \<and>
     exit_code res = Some 0 \<and> timed_out res = False)"

definition flag_inv :: "('l, 'b) pipeline \<Rightarrow> node \<Rightarrow> pr_state \<Rightarrow> bool" where
  "flag_inv p n st \<longleftrightarrow> n = FixVerifier \<or> fix_verified st \<noteq> Some True \<or> (n = RouterNode \<and> sandbox_passed p st)"

lemma same_job_simps [simp]:
  "same_job st st" "same_job st (with_verdict b why out st') = same_job st st'"
  "same_job st (proposed q k st') = same_job st st'" "same_job st (diagnosed t d x st') = same_job st st'"
  "same_job st (st'\<lparr>generated_tests := g\<rparr>) = same_job st st'"
  "same_job st (st'\<lparr>review_findings := f, risk_score := r, summary := m, rag_context := c\<rparr>) = same_job st st'"
  by (simp_all add: same_job_def with_verdict_def proposed_def diagnosed_def)

lemma same_job_trans: "same_job a b \<Longrightarrow> same_job b c \<Longrightarrow> same_job a c"
  by (simp add: same_job_def)

lemma sandbox_passed_verdict:
  "sandbox_passed p (with_verdict b why out st) \<longleftrightarrow> sandbox_passed p st"
  by (simp add: sandbox_passed_def with_verdict_def changed_paths_def)

lemma verifier_passes:
  assumes "run_node p FixVerifier st w = (w', Ret st')" and "fix_verified st' = Some True"
  shows "sandbox_passed p st'"
proof -
  have "fst (fix_verifier_node (pl_sandbox p) st (box_world w)) = st'"
    using assms(1) by (auto simp: run_node.simps split: prod.splits)
  then obtain b why out where st': "st' = with_verdict b why out st"
    using fix_verifier_shape [of "pl_sandbox p" st "box_world w"] by auto
  obtain command res where
    "verification_command (get_default ''unknown'' (failure_type st)) (changed_paths st) = Some command \<and>
     get_default [] (proposed_fix st) \<noteq> [] \<and> get_default [] (repo_snapshot st) \<noteq> [] \<and>
     fst (pl_sandbox p (get_default [] (repo_snapshot st)) (get_default [] (proposed_fix st)) command (box_world w)) = Ret res \<and>
     exit_code res = Some 0 \<and> timed_out res = False"
    using verified_iff [of "pl_sandbox p" st "box_world w" st'] assms(2)
      \<open>fst (fix_verifier_node (pl_sandbox p) st (box_world w)) = st'\<close> by blast
  then have "sandbox_passed p st" unfolding sandbox_passed_def by blast
  then show ?thesis unfolding st' sandbox_passed_verdict .
qed

lemma node_step:
  assumes "run_node p n st w = (w', Ret st')" and "n \<noteq> RouterNode" and "flag_inv p n st"
    and "next_node (pl_settings p) n st' = Some m"
  shows "same_job st st' \<and> out_world w' = out_world w \<and> flag_inv p m st'"
proof (cases n)
  case CodeReviewer
  then show ?thesis using assms reviewer_step [of p st w w' st'] by (auto simp: flag_inv_def)
next
  case TestGenerator
  then show ?thesis using assms test_generator_step [of p st w w' st'] by (auto simp: flag_inv_def)
next
  case CiMonitor
  then show ?thesis using assms ci_monitor_step [of p st w w' st'] by (auto simp: flag_inv_def diagnosed_def same_job_def)
next
  case FixAgent
  then show ?thesis using assms fix_agent_step [of p st w w' st'] by (auto simp: flag_inv_def)
next
  case FixVerifier
  obtain b why out box where v: "st' = with_verdict b why out st" "w' = w\<lparr>box_world := box\<rparr>"
    using fix_verifier_step assms(1) unfolding FixVerifier by blast
  have "fix_verified st' = Some True \<Longrightarrow> sandbox_passed p st'"
    using verifier_passes assms(1) unfolding FixVerifier by blast
  then have "flag_inv p m st'"
    using assms(4) unfolding FixVerifier by (auto simp: flag_inv_def after_fix_verifier_def)
  then show ?thesis using v by simp
qed (use assms(2) in simp)

text \<open>A run touches the outside through one call of the router at most, on a state of the same job.\<close>

lemma run_from_router:
  assumes "run_from limit p n st w = (tr, w', r)" and "flag_inv p n st"
  shows "(out_world w' = out_world w \<and> (\<forall>st'. r \<noteq> Finished st')) \<or>
    (\<exists>st2 x. same_job st st2 \<and> flag_inv p RouterNode st2 \<and>
      router_node (pl_settings p) (pl_now p) (pl_github p) (pl_sessions p) st2 (out_world w) = (out_world w', x) \<and>
      (\<forall>st'. r = Finished st' \<longrightarrow> x = Ret st'))"
  using assms
proof (induction limit arbitrary: n st w tr)
  case (Suc limit)
  show ?case
  proof (cases "n = RouterNode")
    case True
    then obtain v x where v: "router_node (pl_settings p) (pl_now p) (pl_github p) (pl_sessions p) st (out_world w) = (v, x)"
      "run_node p n st w = (w\<lparr>out_world := v\<rparr>, x)"
      by (cases "router_node (pl_settings p) (pl_now p) (pl_github p) (pl_sessions p) st (out_world w)")
        (simp add: run_node.simps)
    have "w' = w\<lparr>out_world := v\<rparr>" "\<forall>st'. r = Finished st' \<longrightarrow> x = Ret st'"
      using Suc.prems(1) v(2) True by (auto split: sum.splits)
    then show ?thesis using v(1) Suc.prems(2) True by (intro disjI2 exI [of _ st] exI [of _ x]) simp
  next
    case False
    obtain w1 x where w1: "run_node p n st w = (w1, x)" by (cases "run_node p n st w")
    show ?thesis
    proof (cases x)
      case (Inl e)
      have "out_world w1 = out_world w"
        using w1 False Inl by (cases n) (auto simp: run_node.simps on_llm_def split: prod.splits)
      then show ?thesis using Suc.prems(1) w1 Inl by auto
    next
      case (Inr st1)
      obtain m tr1 where m: "next_node (pl_settings p) n st1 = Some m" "run_from limit p m st1 w1 = (tr1, w', r)"
        using run_from_step [OF Suc.prems(1) False] w1 Inr Suc.prems(1)
        by (cases "next_node (pl_settings p) n st1"; cases n) (auto split: prod.splits)
      have s: "same_job st st1" "out_world w1 = out_world w" "flag_inv p m st1"
        using node_step [OF w1 [unfolded Inr] False Suc.prems(2) m(1)] by blast+
      from Suc.IH [OF m(2) s(3)] show ?thesis using s(1,2) same_job_trans by (metis (no_types, lifting))
    qed
  qed
qed simp


text \<open>
  Whatever the model and the sandbox answer, a run for a CI failure calls GitHub at most once, and
  only to tell the tenant that a decision is waiting: neither a fix nor an escalation is carried out
  without a human.
\<close>

lemma same_job_ci: "same_job st st2 \<Longrightarrow> is_ci_failure_event st \<Longrightarrow> is_ci_state st2"
  by (auto simp: same_job_def is_ci_failure_event_def is_ci_state_def)

definition noticed :: "gh_call list \<Rightarrow> gh_call list \<Rightarrow> bool" where
  "noticed cs cs' \<longleftrightarrow> cs' = cs \<or> (\<exists>c row. cs' = cs @ [c] \<and> call_body c = queued_notice row)"

lemma noticed_refl [simp]: "noticed cs cs"
  by (simp add: noticed_def)

lemma notify_noticed [simp]: "noticed (calls w) (calls (notify_queued github st row (w\<lparr>wdb := db\<rparr>)))"
  using calls_notify [of github st row "w\<lparr>wdb := db\<rparr>"] by (auto simp: noticed_def)

lemma queue_calls: "noticed (calls w) (calls (fst (queue_for_human now github fac d st w)))"
  by (simp add: queue_for_human_def Let_def split: session_factory.split prod.split option.split)

lemma ci_router_calls:
  assumes "is_ci_state st"
  shows "noticed (calls w) (calls (fst (router_node s now github fac st w)))"
proof (cases "route s st")
  case (Inr d)
  then have "is_actionable d \<longrightarrow> requires_approval d"
    using assms by (auto simp: route_defs is_actionable_def split: if_splits)
  then show ?thesis using Inr queue_calls [of w now github fac d st]
    by (cases "queue_for_human now github fac d st w") (simp add: router_node_def)
qed (simp add: router_node_def)

text \<open>
  C25. The CI track cannot post a fix by itself: whatever the model answers, a run for a failed check makes
  at most one call to GitHub, and that call is the notice that a decision waits for a human.
\<close>

theorem ci_run_only_notifies:
  assumes "is_ci_failure_event st" and "fix_verified st \<noteq> Some True"
    and "run_graph limit p st w = (tr, w', r)"
  shows "calls (out_world w') = calls (out_world w) \<or>
    (\<exists>c row. calls (out_world w') = calls (out_world w) @ [c] \<and> call_body c = queued_notice row)"
proof -
  have "flag_inv p (entry_router st) st" using assms(2) by (simp add: flag_inv_def)
  from run_from_router [OF assms(3) [unfolded run_graph_def] this]
  show ?thesis
  proof
    assume "\<exists>st2 x. same_job st st2 \<and> flag_inv p RouterNode st2 \<and>
      router_node (pl_settings p) (pl_now p) (pl_github p) (pl_sessions p) st2 (out_world w) = (out_world w', x) \<and>
      (\<forall>st'. r = Finished st' \<longrightarrow> x = Ret st')"
    then obtain st2 x where st2: "same_job st st2"
      "router_node (pl_settings p) (pl_now p) (pl_github p) (pl_sessions p) st2 (out_world w) = (out_world w', x)" by blast
    show ?thesis
      using ci_router_calls [OF same_job_ci [OF st2(1) assms(1)], of "out_world w" "pl_settings p" "pl_now p"
          "pl_github p" "pl_sessions p"] unfolding st2(2) by (simp add: noticed_def)
  qed simp
qed

text \<open>
  A fix that is put before a human for promotion has been proved: the run that proposes it ran, in
  the sandbox, the check of its failure type on that patch and the job's snapshot, to exit code zero.
\<close>

lemma queue_state:
  "routing_action (snd (queue_for_human now github fac d st w)) = Some (action_value (rd_action d)) \<and>
   fix_verified (snd (queue_for_human now github fac d st w)) = fix_verified st \<and>
   failure_type (snd (queue_for_human now github fac d st w)) = failure_type st \<and>
   proposed_fix (snd (queue_for_human now github fac d st w)) = proposed_fix st \<and>
   same_job st (snd (queue_for_human now github fac d st w))"
  by (simp add: queue_for_human_def Let_def routed_def already_executed_def same_job_def
      split: session_factory.split prod.split option.split)

text \<open>Only the CI track of the policy proposes a fix, and only a verified one.\<close>

lemma route_proposes: "route s st = Ret d \<Longrightarrow> rd_action d = PROPOSE_FIX \<Longrightarrow>
    fix_verified st = Some True \<and> requires_approval d"
  by (auto simp: route_defs split: if_splits)

lemma router_proposes:
  assumes "router_node s now github fac st w = (w', Ret st')"
    and "routing_action st' = Some ''propose_fix''"
  shows "fix_verified st = Some True \<and> failure_type st' = failure_type st \<and>
    proposed_fix st' = proposed_fix st \<and> same_job st st'"
proof -
  obtain d where d: "route s st = Ret d" using assms(1) by (cases "route s st") (auto simp: router_node_def)
  have "routing_action st' = Some (action_value (rd_action d))"
  proof (cases "is_actionable d \<and> \<not> requires_approval d")
    case True
    then have "auto_post now github fac d st w = (w', Ret st')" using assms(1) d by (simp add: router_node_def)
    then show ?thesis
      by (auto simp: auto_post_def Let_def routed_def already_executed_def auto_execute_def
          split: session_factory.splits prod.splits option.splits sum.splits if_splits)
  next
    case False
    then show ?thesis
      using assms(1) d queue_state [of now github fac d st w]
      by (cases "queue_for_human now github fac d st w") (auto simp: router_node_def routed_def split: if_splits)
  qed
  then have pf: "rd_action d = PROPOSE_FIX" using assms(2) by (cases "rd_action d") simp_all
  then have "queue_for_human now github fac d st w = (w', st')"
    using assms(1) d route_proposes [OF d pf]
    by (cases "queue_for_human now github fac d st w") (simp add: router_node_def is_actionable_def)
  then show ?thesis
    using queue_state [of now github fac d st w] route_proposes [OF d pf] by simp
qed

text \<open>
  C10. A fix is proposed only with a proof: when a finished run that started without a verdict ends in the
  decision to propose a fix, the state it ends in carries a verdict that the sandbox gave for exactly
  its patch, snapshot, failure type and files, from a completed run of the check with exit code 0.
\<close>

theorem promoted_fix_was_proved:
  assumes "fix_verified st \<noteq> Some True" and "run_graph limit p st w = (tr, w', Finished st')"
    and "routing_action st' = Some ''propose_fix''"
  shows "sandbox_passed p st'"
proof -
  have "flag_inv p (entry_router st) st" using assms(1) by (simp add: flag_inv_def)
  from run_from_router [OF assms(2) [unfolded run_graph_def] this]
  obtain st2 where st2: "flag_inv p RouterNode st2"
    "router_node (pl_settings p) (pl_now p) (pl_github p) (pl_sessions p) st2 (out_world w) = (out_world w', Ret st')"
    by auto
  from router_proposes [OF st2(2) assms(3)] st2(1) show ?thesis
    by (auto simp: flag_inv_def sandbox_passed_def same_job_def changed_paths_def)
qed


section \<open>Whose decisions a run writes\<close>

type_synonym owner = "string \<times> int \<times> string \<times> int option"

definition owner_of :: "review_decision \<Rightarrow> owner" where
  "owner_of r = (dec_repo r, dec_pr_number r, dec_commit_sha r, dec_installation_id r)"

definition owners :: "database \<Rightarrow> owner set" where
  "owners db = owner_of ` set (rows (review_decisions db))"

definition state_owner :: "pr_state \<Rightarrow> owner" where
  "state_owner st = (get_default ''?'' (repo st), get_default 0 (pr_number st),
     get_default ''?'' (commit_sha st), installation_id_from_state st)"

lemma owners_update:
  "(\<And>r. owner_of (f r) = owner_of r) \<Longrightarrow> owners (update_decision i P f db) = owners db"
  by (simp add: owners_def update_decision_def image_Un image_image) blast

lemma owners_marks [simp]:
  "owners (mark_executed now db i u) = owners db" "owners (mark_failed now db i d) = owners db"
  "owners (fst (requeue_failed now db i)) = owners db"
  by (simp_all add: mark_executed_def mark_failed_def requeue_failed_def owners_update owner_of_def)

lemma owners_enqueue: "owners (fst (enqueue_tracked now db d st)) \<subseteq> insert (state_owner st) (owners db)"
  by (auto simp: enqueue_tracked_def enqueue_tracked_at_def owners_def owner_of_def state_owner_def
      with_dec_id_def new_decision_def split: option.splits)

definition adds_owner :: "owner \<Rightarrow> world \<Rightarrow> world \<Rightarrow> bool" where
  "adds_owner a w w' \<longleftrightarrow> owners (wdb w') \<subseteq> insert a (owners (wdb w)) \<and>
     pr_jobs (wdb w') = pr_jobs (wdb w) \<and> installations (wdb w') = installations (wdb w) \<and>
     job_results (wdb w') = job_results (wdb w)"

lemma adds_owner_refl [simp]: "adds_owner a w w"
  by (auto simp: adds_owner_def)

lemma other_tables [simp]:
  "pr_jobs (fst (enqueue_tracked now db d st)) = pr_jobs db"
  "installations (fst (enqueue_tracked now db d st)) = installations db"
  "pr_jobs (mark_executed now db i u) = pr_jobs db" "pr_jobs (mark_failed now db i t) = pr_jobs db"
  "installations (mark_executed now db i u) = installations db"
  "installations (mark_failed now db i t) = installations db"
  "pr_jobs (fst (requeue_failed now db i)) = pr_jobs db"
  "installations (fst (requeue_failed now db i)) = installations db"
  "job_results (fst (enqueue_tracked now db d st)) = job_results db"
  "job_results (mark_executed now db i u) = job_results db" "job_results (mark_failed now db i t) = job_results db"
  "job_results (fst (requeue_failed now db i)) = job_results db"
  by (simp_all add: enqueue_tracked_def enqueue_tracked_at_def mark_executed_def mark_failed_def
      requeue_failed_def split: option.split)

lemma enqueue_adds: "enqueue_tracked now (wdb w) d st = (db, x) \<Longrightarrow> adds_owner (state_owner st) w (w\<lparr>wdb := db\<rparr>)"
  using owners_enqueue [of now "wdb w" d st] other_tables(1,2,9) [of now "wdb w" d st] by (simp add: adds_owner_def)

lemma adds_owner_db:
  "adds_owner a w v \<Longrightarrow> owners (wdb v') = owners (wdb v) \<Longrightarrow> pr_jobs (wdb v') = pr_jobs (wdb v) \<Longrightarrow>
     installations (wdb v') = installations (wdb v) \<Longrightarrow> job_results (wdb v') = job_results (wdb v) \<Longrightarrow>
     adds_owner a w v'"
  by (simp add: adds_owner_def)

lemma queue_adds: "adds_owner (state_owner st) w (fst (queue_for_human now github fac d st w))"
proof (cases fac)
  case Sessions
  obtain db x where enq: "enqueue_tracked now (wdb w) d st = (db, x)" by (cases "enqueue_tracked now (wdb w) d st")
  show ?thesis
    by (rule adds_owner_db [OF enqueue_adds [OF enq]])
      (auto simp: queue_for_human_def Sessions enq Let_def split: option.split)
qed (simp_all add: queue_for_human_def Let_def)

lemma execute_same:
  assumes "execute_decision github q a b w = (w', x)" shows "wdb w' = wdb w"
  using execute_decision_db [of github q a b w] assms by simp

lemma auto_execute_frame:
  "owners (wdb (fst (auto_execute now github d st row base w))) = owners (wdb w) \<and>
   pr_jobs (wdb (fst (auto_execute now github d st row base w))) = pr_jobs (wdb w) \<and>
   installations (wdb (fst (auto_execute now github d st row base w))) = installations (wdb w) \<and>
   job_results (wdb (fst (auto_execute now github d st row base w))) = job_results (wdb w)"
  by (auto simp: auto_execute_def dest: execute_same split: prod.split sum.split)

lemma auto_adds: "adds_owner (state_owner st) w (fst (auto_post now github fac d st w))"
proof (cases fac)
  case Sessions
  obtain db x where enq: "enqueue_tracked now (wdb w) d st = (db, x)" by (cases "enqueue_tracked now (wdb w) d st")
  show ?thesis
    by (rule adds_owner_db [OF enqueue_adds [OF enq]])
      (auto simp: auto_post_def Sessions enq Let_def auto_execute_frame split: option.split)
next
  case NoFactory
  then show ?thesis
    by (auto simp: auto_post_def Let_def adds_owner_def dest!: execute_same split: prod.split sum.split)
qed (simp add: auto_post_def Let_def)

lemma router_adds: "adds_owner (state_owner st) w (fst (router_node s now github fac st w))"
  using queue_adds [of st w now github fac] auto_adds [of st w now github fac]
  by (auto simp: router_node_def split: sum.split)

text \<open>
  Tenancy travels with the job: every decision that running a job writes belongs to the job's
  repository, pull request, commit and installation, and the run leaves jobs and installations alone.
\<close>

lemma run_adds:
  assumes "run_graph limit p st w = (tr, w', r)" and "fix_verified st \<noteq> Some True"
  shows "adds_owner (state_owner st) (out_world w) (out_world w')"
proof -
  have "flag_inv p (entry_router st) st" using assms(2) by (simp add: flag_inv_def)
  from run_from_router [OF assms(1) [unfolded run_graph_def] this]
  show ?thesis
  proof
    assume "\<exists>st2 x. same_job st st2 \<and> flag_inv p RouterNode st2 \<and>
      router_node (pl_settings p) (pl_now p) (pl_github p) (pl_sessions p) st2 (out_world w) = (out_world w', x) \<and>
      (\<forall>st'. r = Finished st' \<longrightarrow> x = Ret st')"
    then obtain st2 x where st2: "same_job st st2"
      "router_node (pl_settings p) (pl_now p) (pl_github p) (pl_sessions p) st2 (out_world w) = (out_world w', x)"
      by blast
    have "state_owner st2 = state_owner st"
      using st2(1) by (simp add: same_job_def state_owner_def installation_id_from_state_def)
    then show ?thesis
      using router_adds [of st2 "out_world w" "pl_settings p" "pl_now p" "pl_github p" "pl_sessions p"]
      unfolding st2(2) by simp
  qed simp
qed

definition job_owner :: "pr_job \<Rightarrow> owner" where
  "job_owner job = (job_repo job, job_pr_number job, job_commit_sha job, job_installation_id job)"

text \<open>An installation id that is not positive is not taken into the state.\<close>

definition work_owner :: "pr_job \<Rightarrow> owner" where
  "work_owner j = (job_repo j, job_pr_number j, job_commit_sha j,
     case job_installation_id j of None \<Rightarrow> None | Some i \<Rightarrow> if i > 0 then Some i else None)"

lemma work_owner_job: "\<forall>i. job_installation_id job = Some i \<longrightarrow> 0 < i \<Longrightarrow> work_owner job = job_owner job"
  by (simp add: work_owner_def job_owner_def split: option.split)

lemma seed_facts:
  assumes "seed_state job files snapshot = Ret st"
  shows "state_owner st = work_owner job" "fix_verified st = None"
  using assms
  by (auto simp: seed_state_def Let_def job_state_def state_owner_def work_owner_def empty_state_def
      installation_id_from_state_def split: if_splits option.splits)

lemma handler_adds:
  assumes "graph_handler list_files snapshot (invoke_for_worker limit p w) job db = (db', r)"
  shows "owners db' \<subseteq> insert (work_owner job) (owners db) \<and> pr_jobs db' = pr_jobs db \<and>
    installations db' = installations db \<and> job_results db' = job_results db"
proof (cases "list_files (job_repo job) (job_pr_number job)")
  case (Inr files)
  show ?thesis
  proof (cases "seed_state job files (snapshot (job_repo job) (job_commit_sha job))")
    case (Inr st)
    note st = seed_facts [OF Inr]
    let ?w = "w\<lparr>out_world := (out_world w)\<lparr>wdb := db\<rparr>\<rparr>"
    obtain tr w' x where run: "run_graph limit p st ?w = (tr, w', x)" by (cases "run_graph limit p st ?w")
    have "db' = wdb (out_world w')"
      using assms Inr \<open>list_files _ _ = Inr files\<close> run
      by (auto simp: graph_handler_def invoke_for_worker_def invoke_def split: prod.splits sum.splits)
    moreover have "adds_owner (work_owner job) (out_world ?w) (out_world w')"
      using run_adds [OF run] st by simp
    ultimately show ?thesis by (simp add: adds_owner_def)
  qed (use assms Inr in \<open>auto simp: graph_handler_def\<close>)
qed (use assms in \<open>auto simp: graph_handler_def\<close>)

text \<open>
  The pipeline stays in its lane: running the graph for a job creates decisions of that job's
  repository, pull request, commit and installation only, and changes no job and no installation.
\<close>

theorem decisions_owned_by_job:
  assumes "graph_handler list_files snapshot (invoke_for_worker limit p w) job db = (db', r)"
    and "\<forall>i. job_installation_id job = Some i \<longrightarrow> 0 < i"
  shows "owners db' \<subseteq> insert (job_owner job) (owners db) \<and> pr_jobs db' = pr_jobs db \<and>
    installations db' = installations db"
  using handler_adds [OF assms(1)] work_owner_job [OF assms(2)] by simp


section \<open>A run by example\<close>

definition demo_ci_reply :: json where
  "demo_ci_reply = JDict [(''failure_type'', JStr ''lint''), (''diagnosis'', JStr ''unused import''),
     (''excerpt'', JStr ''F401'')]"

definition demo_pipeline :: "(nat, ((string \<times> string) list \<times> string \<times> string list) list) pipeline" where
  "demo_pipeline = \<lparr>pl_settings = default_settings,
     pl_json = \<lparr>to_float = JStr, wide_codec = Ret, max_depth = 10\<rparr>,
     pl_chat = \<lparr>new_chat = (\<lambda>_. Ret ()),
       chat = (\<lambda>c ms n. (Suc n, Ret (Text (if n = 0 then dumps demo_ci_reply else ''diff''))))\<rparr>,
     pl_rag = None, pl_sandbox = fake_sandbox passing_run, pl_github = Some fake_client,
     pl_sessions = Sessions, pl_now = 5\<rparr>"

definition demo_ci_state :: pr_state where
  "demo_ci_state = empty_state\<lparr>repo := Some ''octo/demo'', pr_number := Some 7, commit_sha := Some ''abc123'',
     changed_files := Some [\<lparr>cf_path = Some ''a.py'', cf_patch = Some ''+import os''\<rparr>],
     ci_event := Some ''check_run'', ci_logs := Some ''F401 unused import'',
     repo_snapshot := Some [(''a.py'', ''import os'')], st_installation_id := Some (JInt 5)\<rparr>"

definition demo_run_world :: "(nat, ((string \<times> string) list \<times> string \<times> string list) list) run_world" where
  "demo_run_world = \<lparr>llm_world = 0, box_world = [], out_world = demo_world\<rparr>"

lemma demo_ci_run:
  obtains w' st' where
    "run_graph 25 demo_pipeline demo_ci_state demo_run_world =
       ([CiMonitor, FixAgent, FixVerifier, RouterNode], w', Finished st')"
    "routing_action st' = Some ''propose_fix''" "length (calls (out_world w')) = 1"
proof -
  have "case run_graph 25 demo_pipeline demo_ci_state demo_run_world of
      (tr, w', Finished st') \<Rightarrow> tr = [CiMonitor, FixAgent, FixVerifier, RouterNode] \<and>
        routing_action st' = Some ''propose_fix'' \<and> length (calls (out_world w')) = 1
    | _ \<Rightarrow> False"
    by code_simp
  then show ?thesis using that by (auto split: prod.splits run_end.splits)
qed


theorem ci_run_only_notifies_witness:
  "\<exists>c row. calls (out_world (fst (snd (run_graph 25 demo_pipeline demo_ci_state demo_run_world)))) = [c] \<and>
     call_body c = queued_notice row"
proof -
  obtain w' st' where run: "run_graph 25 demo_pipeline demo_ci_state demo_run_world =
       ([CiMonitor, FixAgent, FixVerifier, RouterNode], w', Finished st')"
    "length (calls (out_world w')) = 1" by (rule demo_ci_run)
  have "is_ci_failure_event demo_ci_state" "fix_verified demo_ci_state \<noteq> Some True"
    by (simp_all add: demo_ci_state_def empty_state_def is_ci_failure_event_def)
  from ci_run_only_notifies [OF this run(1)] run show ?thesis
    by (auto simp: demo_run_world_def demo_world_def)
qed

theorem promoted_fix_was_proved_witness:
  "\<exists>tr w' st'. run_graph 25 demo_pipeline demo_ci_state demo_run_world = (tr, w', Finished st') \<and>
     sandbox_passed demo_pipeline st'"
proof -
  obtain w' st' where run: "run_graph 25 demo_pipeline demo_ci_state demo_run_world =
       ([CiMonitor, FixAgent, FixVerifier, RouterNode], w', Finished st')"
    "routing_action st' = Some ''propose_fix''" by (rule demo_ci_run)
  have "fix_verified demo_ci_state \<noteq> Some True" by (simp add: demo_ci_state_def empty_state_def)
  from promoted_fix_was_proved [OF this run] run(1) show ?thesis by blast
qed

theorem decisions_owned_by_job_witness:
  "owners (fst (graph_handler (\<lambda>_ _. Ret []) (\<lambda>_ _. Ret []) (invoke_for_worker 25 demo_pipeline demo_run_world)
      demo_job empty_db)) \<subseteq> {job_owner demo_job}"
proof -
  have "\<forall>i. job_installation_id demo_job = Some i \<longrightarrow> 0 < i"
    by (simp add: demo_job_def new_job_def with_job_id_def demo_payload_def)
  then have "owners (fst (graph_handler (\<lambda>_ _. Ret []) (\<lambda>_ _. Ret []) (invoke_for_worker 25 demo_pipeline demo_run_world)
      demo_job empty_db)) \<subseteq> insert (job_owner demo_job) (owners empty_db)"
    using decisions_owned_by_job [OF prod.collapse [symmetric]] by blast
  then show ?thesis by (simp add: owners_def empty_db_def empty_table_def)
qed

text \<open>The nodes on the same input: a reply without a risk is taken for a medium one.\<close>

lemma demo_code_reviewer_node:
  "case code_reviewer_node default_settings (pl_json demo_pipeline) (pl_chat demo_pipeline) None demo_ci_state 0 of
     (w, Inr st) \<Rightarrow> risk_score st = Some ''medium'' | _ \<Rightarrow> False"
  by code_simp

lemma demo_ci_monitor_node:
  "case ci_monitor_node default_settings (pl_json demo_pipeline) (pl_chat demo_pipeline) demo_ci_state 0 of
     (w, Inr st) \<Rightarrow> failure_type st = Some ''lint'' | _ \<Rightarrow> False"
  by code_simp

lemma demo_fix_agent_node:
  "case fix_agent_node default_settings (pl_chat demo_pipeline) None demo_ci_state 0 of
     (w, Inr st) \<Rightarrow> proposed_fix st = Some [] | _ \<Rightarrow> False"
  by code_simp

lemma demo_nodes:
  obtains st1 st2 st3 w1 w2 w3 where
    "code_reviewer_node default_settings (pl_json demo_pipeline) (pl_chat demo_pipeline) None demo_ci_state 0 = (w1, Ret st1)"
    "ci_monitor_node default_settings (pl_json demo_pipeline) (pl_chat demo_pipeline) demo_ci_state 0 = (w2, Ret st2)"
    "fix_agent_node default_settings (pl_chat demo_pipeline) None demo_ci_state 0 = (w3, Ret st3)"
    "risk_score st1 = Some ''medium''" "failure_type st2 = Some ''lint''" "proposed_fix st3 = Some []"
  using demo_code_reviewer_node demo_ci_monitor_node demo_fix_agent_node that by (auto split: prod.splits sum.splits)

theorem agents_normalise_witness:
  "\<exists>st1 st2 st3 w1 w2 w3.
     code_reviewer_node default_settings (pl_json demo_pipeline) (pl_chat demo_pipeline) None demo_ci_state 0 = (w1, Ret st1) \<and>
     ci_monitor_node default_settings (pl_json demo_pipeline) (pl_chat demo_pipeline) demo_ci_state 0 = (w2, Ret st2) \<and>
     fix_agent_node default_settings (pl_chat demo_pipeline) None demo_ci_state 0 = (w3, Ret st3) \<and>
     (\<exists>r\<in>set VALID_RISK. risk_score st1 = Some r) \<and> (\<exists>t\<in>set FAILURE_TYPES. failure_type st2 = Some t) \<and>
     fix_attempts st3 = Some 1"
proof -
  obtain st1 st2 st3 w1 w2 w3 where d:
    "code_reviewer_node default_settings (pl_json demo_pipeline) (pl_chat demo_pipeline) None demo_ci_state 0 = (w1, Ret st1)"
    "ci_monitor_node default_settings (pl_json demo_pipeline) (pl_chat demo_pipeline) demo_ci_state 0 = (w2, Ret st2)"
    "fix_agent_node default_settings (pl_chat demo_pipeline) None demo_ci_state 0 = (w3, Ret st3)" by (rule demo_nodes)
  have "fix_attempts st3 = Some 1"
    using agents_normalise [OF d] by (simp add: demo_ci_state_def empty_state_def)
  with agents_normalise [OF d] d show ?thesis by blast
qed

end
