(* ===== verification/Worker_Loop.thy ===== *)
theory Worker_Loop
  imports Worker "HOL-Library.Multiset"
begin

text \<open>
  The process around the worker's operations, \<^verbatim>\<open>src/app/worker.py\<close>, class \<open>Worker\<close>: a poll cycle with
  and without the thread pool, and the loop with its start-up and periodic reconciliation.

  What a cycle meets outside is an argument: the replies of Redis to its commands, the clocks, whether a
  signal arrived. The pool's threads are modelled at the granularity of messages: \<open>order\<close> is the order in
  which their messages are handled. A closed script of cycles stands for the loop that runs until it is
  stopped; a run that uses up its script is still \<open>Running\<close>.
\<close>

section \<open>A poll cycle\<close>

record worker =
  worker_name :: string
  concurrency :: int
  pool_started :: bool

definition new_worker :: "settings \<Rightarrow> string \<Rightarrow> int \<Rightarrow> string option \<Rightarrow> int option \<Rightarrow> worker" where
  "new_worker s host pid name requested =
     \<lparr>worker_name = (case name of None \<Rightarrow> host @ ''-'' @ int_str pid
        | Some n \<Rightarrow> if n = [] then host @ ''-'' @ int_str pid else n),
      concurrency = max 1 (case requested of None \<Rightarrow> worker_concurrency s | Some n \<Rightarrow> n),
      pool_started = False\<rparr>"

text \<open>
  One message after the other; \<open>ids\<close> collects the acknowledged entries. An exception, which only a
  message without a usable job id raises, ends the serial cycle; the pool logs it and goes on.
\<close>

fun handle_all ::
    "settings \<Rightarrow> (nat \<Rightarrow> int) \<Rightarrow> (string \<Rightarrow> int res) \<Rightarrow> handler \<Rightarrow> stream_message list \<Rightarrow> nat \<Rightarrow> database \<Rightarrow>
     string list \<Rightarrow> database \<times> string list \<times> nat res" where
  "handle_all s clock ack handler [] n db ids = (db, ids, Ret n)"
| "handle_all s clock ack handler (m # ms) n db ids =
     (case handle_message s (clock (2 * n)) (clock (2 * n + 1)) ack handler m db of
        (db', Inl e) \<Rightarrow> (db', ids, Raise e)
      | (db', Inr acked) \<Rightarrow>
          handle_all s clock ack handler ms (n + 1) db' (if acked then ids @ [msg_id m] else ids))"

fun dispatch_all ::
    "settings \<Rightarrow> (nat \<Rightarrow> int) \<Rightarrow> (string \<Rightarrow> int res) \<Rightarrow> handler \<Rightarrow> stream_message list \<Rightarrow> nat \<Rightarrow> nat \<Rightarrow> database \<Rightarrow>
     string list \<Rightarrow> database \<times> string list \<times> nat" where
  "dispatch_all s clock ack handler [] k n db ids = (db, ids, n)"
| "dispatch_all s clock ack handler (m # ms) k n db ids =
     (case handle_message s (clock (2 * k)) (clock (2 * k + 1)) ack handler m db of
        (db', Inl e) \<Rightarrow> dispatch_all s clock ack handler ms (k + 1) n db' ids
      | (db', Inr acked) \<Rightarrow>
          dispatch_all s clock ack handler ms (k + 1) (n + 1) db' (if acked then ids @ [msg_id m] else ids))"

record cycle =
  cy_reclaimed :: "stream_message list res"
  cy_consumed :: "stream_message list res"
  cy_clock :: "nat \<Rightarrow> int"
  cy_ack :: "string \<Rightarrow> int res"
  cy_order :: "stream_message list \<Rightarrow> stream_message list"
  cy_monotonic :: rat
  cy_session :: "unit res"
  cy_now :: int
  cy_xadd :: xadd
  cy_ids :: "string list"
  cy_pending :: "int res"
  cy_signal :: bool

text \<open>The messages of a cycle: the reclaimed ones, then the new ones, which are not read when reclaiming fails.\<close>

definition cycle_messages :: "cycle \<Rightarrow> stream_message list res" where
  "cycle_messages c = rbind (cy_reclaimed c) (\<lambda>a. rbind (cy_consumed c) (\<lambda>b. Ret (a @ b)))"

definition run_once ::
    "settings \<Rightarrow> handler \<Rightarrow> cycle \<Rightarrow> worker \<Rightarrow> database \<Rightarrow> worker \<times> database \<times> string list \<times> nat res" where
  "run_once s handler c wk db =
     (case cycle_messages c of
        Inl e \<Rightarrow> (wk, db, [], Raise e)
      | Inr msgs \<Rightarrow>
          if msgs = [] then (wk, db, [], Ret 0)
          else if concurrency wk = 1 \<or> length msgs = 1
          then (wk, handle_all s (cy_clock c) (cy_ack c) handler msgs 0 db [])
          else (case dispatch_all s (cy_clock c) (cy_ack c) handler (cy_order c msgs) 0 0 db [] of
              (db', ids, n) \<Rightarrow> (wk\<lparr>pool_started := True\<rparr>, db', ids, Ret n)))"


section \<open>The loop\<close>

datatype loop_end = Stopped | Died exc | Running

record loop_state =
  lp_worker :: worker
  lp_stop :: bool
  last_heartbeat :: rat
  last_reconcile :: rat
  acked :: "string list"

text \<open>
  The periodic reconciliation; its exceptions are logged, and its session can fail to open. The
  heartbeat asks Redis for the pending count, whose failure is not caught.
\<close>

definition reconcile_due :: "settings \<Rightarrow> cycle \<Rightarrow> loop_state \<Rightarrow> bool" where
  "reconcile_due s c l \<longleftrightarrow> cy_monotonic c - last_reconcile l \<ge> reconcile_interval_s s"

definition reconcile_in_session :: "cycle \<Rightarrow> ingest_world \<Rightarrow> ingest_world \<times> nat res" where
  "reconcile_in_session c w = (case cy_session c of
       Inl e \<Rightarrow> (w, Raise e)
     | Inr _ \<Rightarrow> reconcile_pending (cy_now c) (cy_xadd c) (cy_ids c) w)"

definition heartbeat :: "cycle \<Rightarrow> loop_state \<Rightarrow> loop_state res" where
  "heartbeat c l = (if cy_monotonic c - last_heartbeat l > 30
     then rbind (cy_pending c) (\<lambda>_. Ret (l\<lparr>last_heartbeat := cy_monotonic c\<rparr>)) else Ret l)"

definition loop_cycle ::
    "settings \<Rightarrow> handler \<Rightarrow> cycle \<Rightarrow> loop_state \<Rightarrow> ingest_world \<Rightarrow> ingest_world \<times> loop_state res" where
  "loop_cycle s handler c l w =
     (case run_once s handler c (lp_worker l) (idb w) of
        (wk, db, ids, r) \<Rightarrow>
          (let w = w\<lparr>idb := db\<rparr>;
               l = l\<lparr>lp_worker := wk, acked := acked l @ ids, lp_stop := lp_stop l \<or> cy_signal c\<rparr> in
           case r of
             Inl e \<Rightarrow> (w, Raise e)
           | Inr _ \<Rightarrow>
               if reconcile_due s c l
               then (fst (reconcile_in_session c w), heartbeat c (l\<lparr>last_reconcile := cy_monotonic c\<rparr>))
               else (w, heartbeat c l)))"

fun run_loop ::
    "settings \<Rightarrow> handler \<Rightarrow> cycle list \<Rightarrow> loop_state \<Rightarrow> ingest_world \<Rightarrow> ingest_world \<times> loop_state \<times> loop_end" where
  "run_loop s handler cs l w =
     (if lp_stop l then (w, l\<lparr>lp_worker := (lp_worker l)\<lparr>pool_started := False\<rparr>\<rparr>, Stopped)
      else (case cs of
          [] \<Rightarrow> (w, l, Running)
        | c # cs' \<Rightarrow>
            (case loop_cycle s handler c l w of
               (w', Inl e) \<Rightarrow> (w', l, Died e)
             | (w', Inr l') \<Rightarrow> run_loop s handler cs' l' w')))"

declare run_loop.simps [simp del]

text \<open>
  Start-up: the consumer group, and a reconciliation whose failure ends the process, unlike that of the
  later ones. The first cycle record holds what this one meets.
\<close>

definition run_forever ::
    "settings \<Rightarrow> handler \<Rightarrow> unit res \<Rightarrow> cycle \<Rightarrow> cycle list \<Rightarrow> worker \<Rightarrow> ingest_world \<Rightarrow>
     ingest_world \<times> loop_state \<times> loop_end" where
  "run_forever s handler group_created c0 cs wk w =
     (let l = \<lparr>lp_worker = wk, lp_stop = False, last_heartbeat = 0, last_reconcile = cy_monotonic c0,
               acked = []\<rparr> in
      case ensure_group group_created of
        Inl e \<Rightarrow> (w, l, Died e)
      | Inr _ \<Rightarrow>
          (case reconcile_in_session c0 w of
             (w', Inl e) \<Rightarrow> (w', l, Died e)
           | (w', Inr _) \<Rightarrow> run_loop s handler cs (l\<lparr>lp_stop := cy_signal c0\<rparr>) w'))"

text \<open>The process: nothing is touched before the schema is known to be there.\<close>

definition worker_main ::
    "settings \<Rightarrow> string list \<Rightarrow> handler \<Rightarrow> unit res \<Rightarrow> string \<Rightarrow> int \<Rightarrow> cycle \<Rightarrow> cycle list \<Rightarrow> ingest_world \<Rightarrow>
     ingest_world \<times> loop_end" where
  "worker_main s tables handler group_created host pid c0 cs w =
     (case assert_schema_ready s tables of
        Inl e \<Rightarrow> (w, Died e)
      | Inr _ \<Rightarrow> (case run_forever s handler group_created c0 cs (new_worker s host pid None None) w of
          (w', _, r) \<Rightarrow> (w', r)))"


section \<open>Facts\<close>

subsection \<open>Reconciliation\<close>

text \<open>A Redis that takes every entry.\<close>

definition accepting :: "xadd \<Rightarrow> bool" where
  "accepting x \<longleftrightarrow> (\<forall>fs. \<exists>m. publish x fs = (True, Ret m))"

lemma claim_others:
  assumes "k \<noteq> i"
  shows "get_job (idb (fst (claim_and_publish now x cid i w))) k = get_job (idb w) k"
  using assms by (auto simp: claim_and_publish_def Let_def map_option.id [unfolded id_def]
      split: prod.split sum.split option.split)

lemma claim_accepted:
  assumes "wf_db (idb w)" and "get_job (idb w) i = Some job" and "job_status job = JOB_PENDING" and "accepting x"
  shows "\<exists>w' job'. claim_and_publish now x cid i w = (w', Ret True) \<and> wf_db (idb w') \<and>
    get_job (idb w') i = Some job' \<and> job_status job' = QUEUED \<and>
    stream w' = stream w @ [stringify (job_fields cid job)]"
proof -
  obtain w' r where run: "claim_and_publish now x cid i w = (w', r)"
    by (cases "claim_and_publish now x cid i w")
  obtain m where m: "publish x (job_fields cid job) = (True, Ret m)"
    using assms(4) by (auto simp: accepting_def)
  show ?thesis
    using claim_result [OF assms(1-3) run] wf_publish [OF assms(1), of now x cid i] run by (simp add: m)
qed

lemma reconcile_jobs_all:
  assumes "wf_db (idb w)" and "accepting x" and "distinct is"
    and "\<forall>i\<in>set is. \<exists>j. get_job (idb w) i = Some j \<and> job_status j = JOB_PENDING"
  shows "\<exists>w'. reconcile_jobs now x cids is w n = (w', Ret (n + length is)) \<and> wf_db (idb w') \<and>
    length (stream w') = length (stream w) + length is \<and>
    (\<forall>k. if k \<in> set is then \<exists>j. get_job (idb w') k = Some j \<and> job_status j = QUEUED
         else get_job (idb w') k = get_job (idb w) k)"
  using assms
proof (induction "is" arbitrary: cids w n)
  case (Cons i "is")
  let ?c = "if cids = [] then [] else hd cids"
  obtain job where job: "get_job (idb w) i = Some job" "job_status job = JOB_PENDING" using Cons.prems(4) by auto
  obtain w1 job1 where c: "claim_and_publish now x ?c i w = (w1, Ret True)" "wf_db (idb w1)"
    "get_job (idb w1) i = Some job1" "job_status job1 = QUEUED" "length (stream w1) = Suc (length (stream w))"
    using claim_accepted [OF Cons.prems(1) job Cons.prems(2), of now ?c] by auto
  have others: "get_job (idb w1) k = get_job (idb w) k" if "k \<noteq> i" for k
    using claim_others [OF that, of now x ?c w] c(1) by simp
  have "\<forall>k\<in>set is. \<exists>j. get_job (idb w1) k = Some j \<and> job_status j = JOB_PENDING"
    using Cons.prems(3,4) others by (metis distinct.simps(2) list.set_intros(2))
  with Cons.IH [OF c(2) Cons.prems(2), of "drop 1 cids" "n + 1"] Cons.prems(3) obtain w' where w':
    "reconcile_jobs now x (drop 1 cids) is w1 (n + 1) = (w', Ret (n + 1 + length is))" "wf_db (idb w')"
    "length (stream w') = length (stream w1) + length is"
    "\<forall>k. if k \<in> set is then \<exists>j. get_job (idb w') k = Some j \<and> job_status j = QUEUED
         else get_job (idb w') k = get_job (idb w1) k" by auto
  have "if k \<in> set (i # is) then \<exists>j. get_job (idb w') k = Some j \<and> job_status j = QUEUED
      else get_job (idb w') k = get_job (idb w) k" for k
    using w'(4) c(3,4) others [of k] Cons.prems(3) by (cases "k = i") auto
  then show ?case using w'(1,2,3) c(1,5) by simp
qed simp

lemma pending_selected:
  assumes "wf_db db"
  shows "i \<in> set (map job_id (select_all (\<lambda>j. job_status j = JOB_PENDING) (pr_jobs db))) \<longleftrightarrow>
    (\<exists>j. get_job db i = Some j \<and> job_status j = JOB_PENDING)"
  using get_job_iff [OF assms] by (auto simp: select_all_def)

lemma pending_distinct:
  assumes "wf_db db"
  shows "distinct (map job_id (select_all (\<lambda>j. job_status j = JOB_PENDING) (pr_jobs db)))"
  using wf_dbD(1) [OF assms] by (auto simp: wf_table_def select_all_def intro: distinct_map_filter)

text \<open>The jobs that are committed and not confirmed on the stream.\<close>

definition stranded :: "database \<Rightarrow> int set" where
  "stranded db = {i. \<exists>j. get_job db i = Some j \<and> job_status j = JOB_PENDING}"

lemma reconcile_recovers:
  assumes "wf_db (idb w)" and "accepting x"
  shows "\<exists>w'. reconcile_pending now x cids w = (w', Ret (card (stranded (idb w)))) \<and> wf_db (idb w') \<and>
    stranded (idb w') = {} \<and> length (stream w') = length (stream w) + card (stranded (idb w)) \<and>
    (\<forall>k. k \<notin> stranded (idb w) \<longrightarrow> get_job (idb w') k = get_job (idb w) k)"
proof -
  let ?is = "map job_id (select_all (\<lambda>j. job_status j = JOB_PENDING) (pr_jobs (idb w)))"
  have st: "set ?is = stranded (idb w)" using pending_selected [OF assms(1)] by (auto simp: stranded_def)
  have card: "card (stranded (idb w)) = length ?is"
    using distinct_card [OF pending_distinct [OF assms(1)]] st by simp
  have pend: "\<forall>i\<in>set ?is. \<exists>j. get_job (idb w) i = Some j \<and> job_status j = JOB_PENDING"
    using st by (auto simp: stranded_def)
  obtain w' where w': "reconcile_jobs now x cids ?is w 0 = (w', Ret (0 + length ?is))" "wf_db (idb w')"
    "length (stream w') = length (stream w) + length ?is"
    "\<And>k. if k \<in> set ?is then \<exists>j. get_job (idb w') k = Some j \<and> job_status j = QUEUED
         else get_job (idb w') k = get_job (idb w) k"
    using reconcile_jobs_all [OF assms pending_distinct [OF assms(1)] pend, of now cids 0] by blast
  have "k \<notin> stranded (idb w')" for k
    using w'(4) [of k] unfolding st by (auto simp: stranded_def split: if_splits)
  then show ?thesis
    using w'(1,2,3) w'(4) unfolding reconcile_pending_def st card by (auto split: if_splits)
qed


subsection \<open>Cycles\<close>

lemma ack_failure_run:
  assumes "wf_db db" and "get_job db i = Some job" and "message_job m = Ret i"
    and "job_status job = QUEUED" and "attempts job + 1 < max_attempts s"
    and "handler (take_claim now job) (update_job i (claimable s now) (take_claim now) db) = (db2, Ret summ)"
    and "wf_db db2" and "get_job db2 i = Some job2" and "attempts job2 = attempts job + 1"
    and "ack (msg_id m) = Raise e"
  shows "\<exists>db3 job3. handle_message s now later ack handler m db = (db3, Ret False) \<and>
    i \<in> set (map result_job_id (job_results db3)) \<and>
    get_job db3 i = Some job3 \<and> job_status job3 = QUEUED \<and> attempts job3 = attempts job + 1 \<and>
    process_job s now' later' handler' i db3 =
      (case handler' (take_claim now' job3) (update_job i (claimable s now') (take_claim now') db3) of
         (db4, Inl e) \<Rightarrow> (release_job now' later' e db4 i, Raise e)
       | (db4, Inr summ) \<Rightarrow> (finish_job later' summ db4 i, Ret True))"
proof -
  let ?db3 = "update_job i (\<lambda>_. True) (mark_retry later e) (finish_job later summ db2 i)"
  let ?job3 = "mark_retry later e (job2\<lparr>job_status := DONE, job_updated_at := later\<rparr>)"
  have run: "process_job s now later handler i db = (finish_job later summ db2 i, Ret True)"
    using assms(4,5,6) by (simp add: process_job_branches [OF assms(1,2)] claimable_def)
  have wf: "wf_db ?db3" using assms(7) by (simp add: wf_update_job wf_finish)
  have got: "get_job ?db3 i = Some ?job3" by (simp add: get_finish assms(8))
  have q: "job_status ?job3 = QUEUED" "attempts ?job3 = attempts job + 1"
    using assms(9) by (simp_all add: mark_retry_def)
  have led: "i \<in> set (map result_job_id (job_results ?db3))"
    by (simp add: results_finish record_result_def)
  have "handle_message s now later ack handler m db = (?db3, Ret False)"
    by (simp add: handle_message_def assms(3,10) run)
  moreover have "process_job s now' later' handler' i ?db3 =
      (case handler' (take_claim now' ?job3) (update_job i (claimable s now') (take_claim now') ?db3) of
         (db4, Inl e) \<Rightarrow> (release_job now' later' e db4 i, Raise e)
       | (db4, Inr summ) \<Rightarrow> (finish_job later' summ db4 i, Ret True))"
    using q assms(5) by (simp add: process_job_branches [OF wf got] claimable_def)
  ultimately show ?thesis using got q led by blast
qed

text \<open>
  C38. A lost acknowledgement undoes a finished job: when the acknowledgement raises after a successful run,
  the job is \<open>QUEUED\<close> again although its result is in the ledger, and the next delivery of the
  message runs the handler once more.
\<close>

theorem ack_failure_repeats_work:
  assumes "wf_db db" and "get_job db i = Some job" and "message_job m = Ret i"
    and "job_status job = QUEUED" and "attempts job + 1 < max_attempts s"
    and "handler (take_claim now job) (update_job i (claimable s now) (take_claim now) db) = (db2, Ret summ)"
    and "wf_db db2" and "get_job db2 i = Some job2" and "attempts job2 = attempts job + 1"
    and "ack (msg_id m) = Raise e"
  shows "\<exists>db3 job3. handle_message s now later ack handler m db = (db3, Ret False) \<and>
    i \<in> set (map result_job_id (job_results db3)) \<and>
    get_job db3 i = Some job3 \<and> job_status job3 = QUEUED \<and> attempts job3 = attempts job + 1 \<and>
    process_job s now' later' handler' i db3 =
      (case handler' (take_claim now' job3) (update_job i (claimable s now') (take_claim now') db3) of
         (db4, Inl e) \<Rightarrow> (release_job now' later' e db4 i, Raise e)
       | (db4, Inr summ) \<Rightarrow> (finish_job later' summ db4 i, Ret True))"
  using assms by (rule ack_failure_run)

text \<open>Only a message without a usable job id raises.\<close>

lemma handle_message_raises:
  "(\<exists>e. snd (handle_message s now later ack handler m db) = Raise e) \<longleftrightarrow> (\<exists>e. message_job m = Raise e)"
  by (auto simp: handle_message_def split: sum.split prod.split)

lemma dispatch_count:
  "snd (snd (dispatch_all s clock ack handler ms k n db ids)) =
     n + length (filter (\<lambda>m. \<exists>i. message_job m = Ret i) ms)"
proof (induction ms arbitrary: k n db ids)
  case (Cons m ms)
  obtain db' r where h: "handle_message s (clock (2 * k)) (clock (2 * k + 1)) ack handler m db = (db', r)"
    by (cases "handle_message s (clock (2 * k)) (clock (2 * k + 1)) ack handler m db")
  have "(\<exists>e. r = Raise e) \<longleftrightarrow> (\<exists>e. message_job m = Raise e)"
    using handle_message_raises [of s "clock (2 * k)" "clock (2 * k + 1)" ack handler m db] h by simp
  then show ?case using h Cons.IH by (cases r; cases "message_job m") auto
qed simp

lemma handle_all_total:
  assumes "\<forall>m\<in>set ms. \<exists>i. message_job m = Ret i"
  shows "\<exists>db' ids'. handle_all s clock ack handler ms n db ids = (db', ids', Ret (n + length ms))"
  using assms
proof (induction ms arbitrary: n db ids)
  case (Cons m ms)
  obtain db' r where h: "handle_message s (clock (2 * n)) (clock (2 * n + 1)) ack handler m db = (db', r)"
    by (cases "handle_message s (clock (2 * n)) (clock (2 * n + 1)) ack handler m db")
  have "\<not> (\<exists>e. r = Raise e)"
    using handle_message_raises [of s "clock (2 * n)" "clock (2 * n + 1)" ack handler m db] h Cons.prems by auto
  then obtain a where "r = Ret a" by (cases r) auto
  then show ?case using h Cons.IH [of "n + 1"] Cons.prems by simp
qed simp

lemma handle_all_stops:
  assumes "message_job m = Raise e"
  shows "handle_all s clock ack handler (m # ms) n db ids = (db, ids, Raise e)"
  using assms by (simp add: handle_message_def)

text \<open>
  Every message of a pooled cycle is dispatched, whatever the others do: the cycle does not raise, and
  it counts the messages with a usable job id, in whatever order the threads handle them.
\<close>

theorem pool_survives_messages:
  assumes "cycle_messages c = Ret msgs" and "concurrency wk \<noteq> 1" and "1 < length msgs"
    and "mset (cy_order c msgs) = mset msgs"
  shows "snd (snd (snd (run_once s handler c wk db))) =
    Ret (length (filter (\<lambda>m. \<exists>i. message_job m = Ret i) msgs))"
proof -
  have "length (filter (\<lambda>m. \<exists>i. message_job m = Ret i) (cy_order c msgs)) =
      length (filter (\<lambda>m. \<exists>i. message_job m = Ret i) msgs)"
    by (metis (no_types, lifting) assms(4) mset_filter size_mset)
  then show ?thesis
    using assms(1-3) dispatch_count [of s "cy_clock c" "cy_ack c" handler "cy_order c msgs" 0 0 db "[]"]
    by (auto simp: run_once_def split: prod.split)
qed

text \<open>
  The worker dies of one malformed entry: when it is the only message of a cycle, or the worker has a
  concurrency of one and it comes first, the exception leaves the loop; nothing was acknowledged, so
  the entry stays pending and is delivered again to the next worker that reclaims it.
\<close>

theorem malformed_entry_stops_worker:
  assumes "cycle_messages c = Ret (m # ms)" and "message_job m = Raise e"
    and "concurrency (lp_worker l) = 1 \<or> ms = []" and "\<not> lp_stop l"
  shows "run_loop s handler (c # cs) l w = (w, l, Died e)"
proof -
  have "run_once s handler c (lp_worker l) (idb w) = (lp_worker l, idb w, [], Raise e)"
    using assms(1,3) handle_all_stops [OF assms(2)]
    by (auto simp: run_once_def simp del: handle_all.simps)
  then show ?thesis
    using assms(4) by (simp add: run_loop.simps [of s handler "c # cs"] loop_cycle_def)
qed

subsection \<open>The loop\<close>

text \<open>One cycle that does not end the process.\<close>

lemma loop_cycle_ret:
  assumes "loop_cycle s handler c l w = (w', Ret l')"
  shows "\<exists>wk db ids n. run_once s handler c (lp_worker l) (idb w) = (wk, db, ids, Ret n) \<and>
    w' = (if reconcile_due s c l then fst (reconcile_in_session c (w\<lparr>idb := db\<rparr>)) else w\<lparr>idb := db\<rparr>) \<and>
    last_reconcile l' = (if reconcile_due s c l then cy_monotonic c else last_reconcile l) \<and>
    lp_stop l' = (lp_stop l \<or> cy_signal c) \<and> acked l' = acked l @ ids \<and> lp_worker l' = wk"
proof -
  obtain wk db ids r where r: "run_once s handler c (lp_worker l) (idb w) = (wk, db, ids, r)"
    by (metis prod_cases4)
  then obtain n where n: "r = Ret n" using assms by (cases r) (auto simp: loop_cycle_def)
  show ?thesis
    using assms unfolding loop_cycle_def r n
    by (auto simp: reconcile_due_def heartbeat_def Let_def split: if_splits)
qed

text \<open>A handler that leaves the database well formed, like every operation of the service.\<close>

definition keeps_wf :: "handler \<Rightarrow> bool" where
  "keeps_wf h \<longleftrightarrow> (\<forall>j d. wf_db d \<longrightarrow> wf_db (fst (h j d)))"

lemma wf_handle_message:
  assumes "wf_db db" and "keeps_wf handler"
  shows "wf_db (fst (handle_message s now later ack handler m db))"
proof (cases "message_job m")
  case (Inr i)
  obtain db' r where p: "process_job s now later handler i db = (db', r)"
    by (cases "process_job s now later handler i db")
  have "wf_db db'" using wf_process_job [of db handler s now later i] assms by (simp add: p keeps_wf_def)
  then show ?thesis
    by (auto simp: handle_message_def Inr p wf_update_job split: sum.split)
qed (simp add: handle_message_def assms(1))

lemma wf_handle_all:
  assumes "wf_db db" and h: "keeps_wf handler"
  shows "wf_db (fst (handle_all s clock ack handler ms n db ids))"
  using assms(1)
proof (induction ms arbitrary: n db ids)
  case (Cons m ms)
  then show ?case
    using wf_handle_message [OF Cons.prems h, where s = s and now = "clock (2 * n)" and later = "clock (2 * n + 1)" and ack = ack and m = m]
    by (auto split: prod.split sum.split)
qed simp

lemma wf_dispatch_all:
  assumes "wf_db db" and h: "keeps_wf handler"
  shows "wf_db (fst (dispatch_all s clock ack handler ms k n db ids))"
  using assms(1)
proof (induction ms arbitrary: k n db ids)
  case (Cons m ms)
  then show ?case
    using wf_handle_message [OF Cons.prems h, where s = s and now = "clock (2 * k)" and later = "clock (2 * k + 1)" and ack = ack and m = m]
    by (auto split: prod.split sum.split)
qed simp

lemma wf_run_once:
  assumes "wf_db db" and h: "keeps_wf handler"
  shows "wf_db (fst (snd (run_once s handler c wk db)))"
proof (cases "cycle_messages c")
  case (Inr msgs)
  have "wf_db (fst (handle_all s (cy_clock c) (cy_ack c) handler msgs 0 db []))"
    "wf_db (fst (dispatch_all s (cy_clock c) (cy_ack c) handler (cy_order c msgs) 0 0 db []))"
    using assms by (auto intro: wf_handle_all wf_dispatch_all)
  then show ?thesis using assms(1) Inr by (auto simp: run_once_def split: prod.split)
qed (simp add: run_once_def assms(1))

text \<open>
  C29. A job whose publication failed does not wait for a restart: once the reconciliation interval has passed
  since the last one, the cycle ends with no job left \<open>PENDING\<close>, provided the database can be reached
  and Redis takes entries. And no cycle ends with an overdue reconciliation.
\<close>

theorem due_cycle_recovers:
  assumes "loop_cycle s handler c l w = (w', Ret l')" and "wf_db (idb w)"
    and "keeps_wf handler"
    and "reconcile_due s c l" and "cy_session c = Ret ()" and "accepting (cy_xadd c)"
    and "0 < reconcile_interval_s s"
  shows "stranded (idb w') = {} \<and> wf_db (idb w') \<and> \<not> reconcile_due s c l'"
proof -
  obtain wk db ids n where c: "run_once s handler c (lp_worker l) (idb w) = (wk, db, ids, Ret n)"
    "w' = fst (reconcile_in_session c (w\<lparr>idb := db\<rparr>))" "last_reconcile l' = cy_monotonic c"
    using loop_cycle_ret [OF assms(1)] assms(4) by auto
  have "wf_db (idb (w\<lparr>idb := db\<rparr>))"
    using wf_run_once [OF assms(2,3), where s = s and c = c and wk = "lp_worker l"] c(1) by simp
  from reconcile_recovers [OF this assms(6), of "cy_now c" "cy_ids c"] show ?thesis
    using c(2,3) assms(5,7) by (auto simp: reconcile_in_session_def reconcile_due_def)
qed

text \<open>The cadence over a whole run: however the cycles went, the last reconciliation is never overdue.\<close>

lemma run_loop_cadence:
  assumes "run_loop s handler cs l w = (w', l', Running)" and "0 < reconcile_interval_s s" and "cs \<noteq> []"
  shows "\<not> reconcile_due s (last cs) l'"
  using assms(1,3)
proof (induction cs arbitrary: l w)
  case (Cons c cs)
  obtain w1 r where c: "loop_cycle s handler c l w = (w1, r)" by (cases "loop_cycle s handler c l w")
  then obtain l1 where l1: "loop_cycle s handler c l w = (w1, Ret l1)" "run_loop s handler cs l1 w1 = (w', l', Running)"
    using Cons.prems(1) by (cases r) (simp_all add: run_loop.simps [of s handler "c # cs"] split: if_splits)
  show ?case
  proof (cases "cs = []")
    case True
    then have "l' = l1" using l1(2) by (simp add: run_loop.simps split: if_splits)
    then show ?thesis
      using loop_cycle_ret [OF l1(1)] assms(2) True by (auto simp: reconcile_due_def split: if_splits)
  next
    case False
    with Cons.IH [OF l1(2)] show ?thesis by simp
  qed
qed simp

text \<open>
  A signal ends the loop at the cycle in which it arrives: that cycle is completed, no further one is
  started and the pool is shut down; only an exception ends it otherwise.
\<close>

theorem stop_ends_loop:
  assumes "cy_signal c" and "\<not> lp_stop l"
  shows "run_loop s handler (c # cs) l w = (case loop_cycle s handler c l w of
      (w', Inl e) \<Rightarrow> (w', l, Died e)
    | (w', Inr l') \<Rightarrow> (w', l'\<lparr>lp_worker := (lp_worker l')\<lparr>pool_started := False\<rparr>\<rparr>, Stopped))"
proof -
  obtain w1 r where c: "loop_cycle s handler c l w = (w1, r)" by (cases "loop_cycle s handler c l w")
  show ?thesis
  proof (cases r)
    case (Inr l1)
    then have "lp_stop l1" using loop_cycle_ret [of s handler c l w w1 l1] c assms(1) by auto
    then show ?thesis
      using c Inr assms(2) by (simp add: run_loop.simps [of s handler "c # cs"] run_loop.simps [of s handler cs l1])
  qed (use c assms(2) in \<open>simp add: run_loop.simps [of s handler "c # cs"]\<close>)
qed

text \<open>Without a migrated schema the worker does nothing.\<close>

theorem unmigrated_worker_idle:
  assumes "t \<in> set expected_tables" and "t \<notin> set tables"
  shows "\<exists>e. worker_main s tables handler g host pid c0 cs w = (w, Died e)"
proof -
  have "filter (\<lambda>t. t \<notin> set tables) expected_tables \<noteq> []" using assms by (auto simp: filter_empty_conv)
  then show ?thesis by (simp add: worker_main_def assert_schema_ready_def Let_def)
qed


section \<open>Witnesses\<close>

definition quiet_cycle :: cycle where
  "quiet_cycle = \<lparr>cy_reclaimed = Ret [], cy_consumed = Ret [], cy_clock = int, cy_ack = (\<lambda>_. Ret 1),
     cy_order = rev, cy_monotonic = 100, cy_session = Ret (), cy_now = 9,
     cy_xadd = (\<lambda>_. (True, Ret (RText ''1-0''))), cy_ids = [], cy_pending = Ret 0, cy_signal = False\<rparr>"

definition demo_worker :: worker where
  "demo_worker = new_worker default_settings ''host'' 7 None None"

lemma demo_worker_concurrency [simp]: "concurrency demo_worker = 4"
  by (simp add: demo_worker_def new_worker_def default_settings_def)

definition demo_loop :: loop_state where
  "demo_loop = \<lparr>lp_worker = demo_worker, lp_stop = False, last_heartbeat = 0, last_reconcile = 0, acked = []\<rparr>"

definition bad_message :: stream_message where
  "bad_message = \<lparr>msg_id = ''2-0'', msg_fields = [(''repo'', ''o/r'')]\<rparr>"

lemma bad_message_job: "message_job bad_message = Raise (Exc KeyError ''job_id'')"
  by (simp add: message_job_def bad_message_def)

lemma quiet_accepts [simp]: "accepting (cy_xadd quiet_cycle)"
  by (simp add: accepting_def quiet_cycle_def publish_def as_str_def raw_text_def)

theorem pool_survives_messages_witness:
  "snd (snd (snd (run_once default_settings failing_handler
     (quiet_cycle\<lparr>cy_consumed := Ret [bad_message, demo_message]\<rparr>) demo_worker (worker_db QUEUED)))) = Ret 1"
proof -
  let ?c = "quiet_cycle\<lparr>cy_consumed := Ret [bad_message, demo_message]\<rparr>"
  have "cycle_messages ?c = Ret [bad_message, demo_message]" by (simp add: cycle_messages_def quiet_cycle_def)
  from pool_survives_messages [OF this, of demo_worker] show ?thesis
    by (simp add: bad_message_job) (simp add: quiet_cycle_def)
qed

theorem malformed_entry_stops_worker_witness:
  "snd (snd (run_loop default_settings failing_handler
     [quiet_cycle\<lparr>cy_consumed := Ret [bad_message]\<rparr>, quiet_cycle] demo_loop \<lparr>idb = empty_db, stream = []\<rparr>)) =
   Died (Exc KeyError ''job_id'')"
proof -
  have "cycle_messages (quiet_cycle\<lparr>cy_consumed := Ret [bad_message]\<rparr>) = Ret [bad_message]"
    by (simp add: cycle_messages_def quiet_cycle_def)
  from malformed_entry_stops_worker [OF this bad_message_job] show ?thesis by (simp add: demo_loop_def)
qed

theorem due_cycle_recovers_witness:
  "stranded (worker_db JOB_PENDING) = {1} \<and> (\<exists>w' l'. loop_cycle default_settings failing_handler quiet_cycle
     demo_loop \<lparr>idb = worker_db JOB_PENDING, stream = []\<rparr> = (w', Ret l') \<and> stranded (idb w') = {})"
proof -
  let ?w = "\<lparr>idb = worker_db JOB_PENDING, stream = []\<rparr> :: ingest_world"
  have one: "get_job (worker_db JOB_PENDING) i = (if i = 1 then Some (worker_job JOB_PENDING) else None)" for i
    by (auto simp: get_job_def select_one_def worker_db_def worker_job_def demo_job_def with_job_id_def new_job_def)
  have due: "reconcile_due default_settings quiet_cycle demo_loop"
    by (simp add: reconcile_due_def quiet_cycle_def demo_loop_def default_settings_def)
  have "snd (loop_cycle default_settings failing_handler quiet_cycle demo_loop ?w) =
      heartbeat quiet_cycle (demo_loop\<lparr>last_reconcile := 100\<rparr>)"
    using due by (simp add: loop_cycle_def run_once_def cycle_messages_def quiet_cycle_def demo_loop_def reconcile_due_def)
  also have "\<dots> = Ret (demo_loop\<lparr>last_reconcile := 100, last_heartbeat := 100\<rparr>)"
    by (simp add: heartbeat_def quiet_cycle_def demo_loop_def)
  finally obtain w' l' where run: "loop_cycle default_settings failing_handler quiet_cycle demo_loop ?w = (w', Ret l')"
    by (metis prod.collapse)
  have "keeps_wf failing_handler" by (simp add: keeps_wf_def failing_handler_def)
  moreover have "cy_session quiet_cycle = Ret ()" "0 < reconcile_interval_s default_settings"
    by (simp_all add: quiet_cycle_def default_settings_def)
  ultimately have "stranded (idb w') = {}"
    using due_cycle_recovers [OF run _ _ due _ quiet_accepts] by simp
  moreover have "stranded (worker_db JOB_PENDING) = {1}" by (simp add: stranded_def one)
  ultimately show ?thesis using run by blast
qed

theorem stop_ends_loop_witness:
  "snd (snd (run_loop default_settings failing_handler (quiet_cycle\<lparr>cy_signal := True\<rparr> # cs) demo_loop
     \<lparr>idb = empty_db, stream = []\<rparr>)) = Stopped"
  by (subst stop_ends_loop)
     (simp_all add: demo_loop_def loop_cycle_def run_once_def cycle_messages_def quiet_cycle_def reconcile_due_def
       default_settings_def heartbeat_def)

theorem unmigrated_worker_idle_witness:
  "\<exists>e. worker_main default_settings [''pr_jobs''] failing_handler (Ret ()) ''h'' 1 quiet_cycle []
     \<lparr>idb = empty_db, stream = []\<rparr> = (\<lparr>idb = empty_db, stream = []\<rparr>, Died e)"
  by (rule unmigrated_worker_idle [of "''job_results''"]) (simp_all add: expected_tables_def)

theorem ack_failure_repeats_work_witness:
  "\<exists>db3 job3. handle_message default_settings 4 6 (\<lambda>_. Raise (Exc RedisError ''gone'')) default_handler demo_message
       (worker_db QUEUED) = (db3, Ret False) \<and>
     1 \<in> set (map result_job_id (job_results db3)) \<and> get_job db3 1 = Some job3 \<and> job_status job3 = QUEUED"
proof -
  let ?db1 = "update_job 1 (claimable default_settings 4) (take_claim 4) (worker_db QUEUED)"
  have wf: "wf_db ?db1" by (simp add: wf_update_job)
  have got: "get_job ?db1 1 = Some (take_claim 4 (worker_job QUEUED))" by (simp add: claimable_def)
  obtain summ where run: "default_handler (take_claim 4 (worker_job QUEUED)) ?db1 = (?db1, Ret summ)"
    by (simp add: default_handler_def)
  have at: "attempts (take_claim 4 (worker_job QUEUED)) = attempts (worker_job QUEUED) + 1"
    "attempts (worker_job QUEUED) + 1 < max_attempts default_settings"
    by (simp_all add: take_claim_def default_settings_def)
  from ack_failure_repeats_work [where ack = "\<lambda>_. Raise (Exc RedisError ''gone'')" and later = 6 and
      handler = default_handler and s = default_settings and now = 4,
      OF worker_db_facts(1,2) demo_message_job worker_db_facts(3) at(2) run wf got at(1) refl]
  show ?thesis by blast
qed

end
