(* ===== verification/Service.thy ===== *)
theory Service
  imports Api Send_Pr Graph Worker_Loop
begin

text \<open>
  The service as a whole: one step relation over everything that writes the database, whatever process
  does it. A step is a delivery to the webhook, an approval or a rejection by an operator, a message
  handled by a worker that runs the pipeline, a reconciliation, or a restart of the API. The steps of
  different processes interleave at this granularity; the settings and the pipeline are fixed.
\<close>

section \<open>References between the tables\<close>

text \<open>What identifies a piece of work in each table.\<close>

definition job_owners :: "database \<Rightarrow> owner set" where
  "job_owners db = work_owner ` set (rows (pr_jobs db))"

definition job_ids :: "database \<Rightarrow> int set" where
  "job_ids db = job_id ` set (rows (pr_jobs db))"

definition job_tenants :: "database \<Rightarrow> int option set" where
  "job_tenants db = job_installation_id ` set (rows (pr_jobs db))"

definition tenant_ids :: "database \<Rightarrow> int set" where
  "tenant_ids db = installation_id ` set (rows (installations db))"

definition ledger_ids :: "database \<Rightarrow> int set" where
  "ledger_ids db = set (map result_job_id (job_results db))"

text \<open>Every decision and every ledger entry has its job, and in the multi-tenant service a job its tenant.\<close>

definition integrity :: "settings \<Rightarrow> database \<Rightarrow> bool" where
  "integrity s db \<longleftrightarrow> owners db \<subseteq> job_owners db \<and> ledger_ids db \<subseteq> job_ids db \<and>
     (multi_tenant_enabled s \<longrightarrow> (\<forall>i. Some i \<in> job_tenants db \<longrightarrow> i \<in> tenant_ids db))"

lemmas reference_defs = owners_def job_owners_def job_ids_def job_tenants_def tenant_ids_def ledger_ids_def

text \<open>What most operations do: no new job, decision or ledger entry, and no tenant lost.\<close>

definition frame :: "database \<Rightarrow> database \<Rightarrow> bool" where
  "frame db db' \<longleftrightarrow> owners db' = owners db \<and> job_owners db' = job_owners db \<and> job_ids db' = job_ids db \<and>
     job_tenants db' = job_tenants db \<and> ledger_ids db' = ledger_ids db \<and> tenant_ids db \<subseteq> tenant_ids db'"

lemma frame_refl [simp]: "frame db db"
  by (simp add: frame_def)

lemma frame_trans: "frame a b \<Longrightarrow> frame b c \<Longrightarrow> frame a c"
  by (auto simp: frame_def)

lemma integrity_frame: "integrity s db \<Longrightarrow> frame db db' \<Longrightarrow> integrity s db'"
  by (auto simp: integrity_def frame_def)

lemma integrity_empty: "integrity s empty_db"
  by (simp add: integrity_def reference_defs empty_db_def empty_table_def)


section \<open>Operations that stay in the frame\<close>

lemma image_update_where:
  assumes "\<And>r. g (f r) = g r"
  shows "g ` set (rows (update_where P f t)) = g ` set (rows t)"
  unfolding rows_update_where set_map image_image by (rule image_cong) (auto simp: assms)

lemma frame_set_job:
  assumes "\<And>j. job_id (f j) = job_id j" "\<And>j. work_owner (f j) = work_owner j"
    "\<And>j. job_installation_id (f j) = job_installation_id j"
  shows "frame db (update_job i P f db)"
  using image_update_where [of job_id f] image_update_where [of work_owner f]
    image_update_where [of job_installation_id f] assms
  by (simp add: frame_def reference_defs update_job_def del: rows_update_where)

lemma frame_set_decision:
  assumes "\<And>r. owner_of (f r) = owner_of r"
  shows "frame db (update_decision i P f db)"
  using owners_update [OF assms, where db = db and i = i and P = P]
  by (simp add: frame_def job_owners_def job_ids_def job_tenants_def tenant_ids_def ledger_ids_def)

lemma frame_status [simp]:
  "frame db (update_decision i P (\<lambda>r. r\<lparr>dec_status := st, dec_updated_at := t\<rparr>) db)"
  "frame db (update_decision i P (\<lambda>r. r\<lparr>dec_status := st, result_url := u, dec_updated_at := t\<rparr>) db)"
  "frame db (update_decision i P (\<lambda>r. r\<lparr>dec_status := st, dec_last_error := e, dec_updated_at := t\<rparr>) db)"
  by (intro frame_set_decision; simp add: owner_of_def)+

lemma frame_claim: "frame db (fst (claim_approval now db i))"
proof -
  have c: "fst (claim_from st now d i) = update_decision i (\<lambda>r. dec_status r = st)
      (\<lambda>r. r\<lparr>dec_status := APPROVED, dec_updated_at := now\<rparr>) d" for st d
    by (simp add: claim_from_def)
  have f: "frame d (fst (claim_from st now d i))" for st d by (simp add: c)
  show ?thesis
    using f [of db PENDING] frame_trans [OF f [of db PENDING] f [of "fst (claim_from PENDING now db i)" FAILED]]
    by (auto simp: claim_approval_def Let_def case_prod_beta split: option.split)
qed

lemma frame_reject: "frame db (fst (reject_pending now db i))"
  by (auto simp: reject_pending_def Let_def split: option.split)

lemma frame_marks [simp]: "frame db (mark_executed now db i u)" "frame db (mark_failed now db i d)"
  by (simp_all add: mark_executed_def mark_failed_def)

lemma frame_sweep: "frame db (fst (sweep_interrupted now db))"
proof -
  have "owner_of (r\<lparr>dec_status := FAILED, dec_last_error := e, dec_updated_at := now\<rparr>) = owner_of r" for r e
    by (simp add: owner_of_def)
  then show ?thesis
    by (simp add: sweep_interrupted_def Let_def frame_def reference_defs
        image_update_where del: rows_update_where)
qed

lemma tenant_ids_update:
  assumes "\<And>r. installation_id (f r) = installation_id r"
  shows "tenant_ids (update_installation i f db) = tenant_ids db"
  using image_update_where [of installation_id f] assms
  by (simp add: tenant_ids_def update_installation_def del: rows_update_where)

lemma frame_update_installation:
  assumes "\<And>r. installation_id (f r) = installation_id r"
  shows "frame db (update_installation i f db)"
  using tenant_ids_update [OF assms]
  by (simp add: frame_def update_installation_def owners_def job_owners_def job_ids_def job_tenants_def ledger_ids_def)

lemma frame_upsert:
  assumes "Tenancy.upsert now db inst = Ret (db', r)" shows "frame db db'"
proof -
  obtain f where f: "installation_fields_of inst = Ret f"
    using assms by (auto simp: Tenancy.upsert_def upsert_at_def)
  note run = assms [unfolded Tenancy.upsert_def upsert_at_def, simplified f rbind_simps]
  have ins: "frame db (db\<lparr>installations := insert_row mk (installations db)\<rparr>)" for mk
    by (auto simp: frame_def reference_defs)
  have upd: "frame db (update_installation i (refresh_metadata now f) db)" for i
    by (rule frame_update_installation) simp
  show ?thesis
  proof (cases "f_installation_id f")
    case (Some i)
    with run ins upd show ?thesis by (auto simp: Let_def split: option.splits if_splits)
  qed (use run in simp)
qed

lemma frame_apply_action: "frame db (fst (apply_action now act row db))"
  by (auto simp: apply_action_def Let_def intro!: frame_update_installation)

lemma frame_apply_event:
  assumes "apply_event now db act payload = Ret (db', st)" shows "frame db db'"
proof -
  have act: "apply_action now act r d = (db', st) \<Longrightarrow> frame d db'" for d r
    using frame_apply_action [of d now act r] by simp
  show ?thesis
    using assms by (auto simp: apply_event_def split: option.splits dest!: frame_upsert act intro: frame_trans)
qed

lemma frame_repositories: "frame db (fst (apply_repositories_event now db payload))"
  by (auto simp: apply_repositories_event_def dest: frame_upsert split: sum.split option.split)

lemma frame_approve_command: "frame (wdb w) (wdb (fst (approve_command now client row rp pr actor w)))"
proof -
  obtain db o1 oc where claim: "claim_approval now (wdb w) (dec_id row) = (db, o1, oc)"
    by (cases "claim_approval now (wdb w) (dec_id row)")
  have f: "frame (wdb w) db" using frame_claim [of "wdb w" now "dec_id row"] claim by simp
  have ex: "wdb w' = db" if "execute_decision (Some client) p x y (w\<lparr>wdb := db\<rparr>) = (w', r)" for p x y w' r
    using execute_decision_db [of "Some client" p x y "w\<lparr>wdb := db\<rparr>"] that by simp
  have rep: "wdb w' = wdb v" if "reply client rp pr b v = (w', r)" for b v w' r
    using reply_db [of client rp pr b v] that by simp
  show ?thesis using f frame_trans [OF f frame_marks(1)] frame_trans [OF f frame_marks(2)]
    by (auto simp: approve_command_def claim Let_def dest!: ex rep split: option.split sum.split prod.split)
qed

lemma frame_reject_command: "frame (wdb w) (wdb (fst (reject_command now client row rp pr actor w)))"
  using frame_reject [of "wdb w" now "dec_id row"]
  by (auto simp: reject_command_def Let_def split: option.split prod.split)

lemma frame_issue_comment: "frame (wdb w) (wdb (fst (handle_issue_comment s now auth payload w)))"
proof -
  have run: "frame (wdb w) (wdb (fst (run_command now client cmd rp pr inst actor w)))" for client cmd rp pr inst actor
    by (auto simp: run_command_def frame_approve_command frame_reject_command split: option.split)
  have "frame (wdb w) (wdb (fst (authorised now au cmd rp pr inst actor w)))" for au cmd rp pr inst actor
    by (auto simp: authorised_def run split: sum.split)
  then show ?thesis by (auto simp: handle_issue_comment_def split: sum.split option.split)
qed

lemma frame_approve_review: "frame (wdb w) (wdb (fst (approve_review s now stamp client i w)))"
proof -
  obtain db o1 oc where claim: "claim_approval now (wdb w) i = (db, o1, oc)"
    by (cases "claim_approval now (wdb w) i")
  have f: "frame (wdb w) db" using frame_claim [of "wdb w" now i] claim by simp
  have ex: "wdb w' = wdb v" if "execute_decision (Some client) p x y v = (w', r)" for p x y v w' r
    using execute_decision_db [of "Some client" p x y v] that by simp
  have "frame (wdb v) (wdb (fst (carry_out s now stamp client row v)))" for v row
    by (auto simp: carry_out_def Let_def dest!: ex split: sum.split prod.split)
  from frame_trans [OF f] this [of "w\<lparr>wdb := db\<rparr>"] show ?thesis using f
    by (auto simp: approve_review_def claim Let_def split: option.split)
qed

lemma frame_reject_review: "frame (wdb w) (wdb (fst (reject_review s now stamp i w)))"
  using frame_reject [of "wdb w" now i]
  by (auto simp: reject_review_def Let_def split: option.split prod.split)


section \<open>Operations that add work\<close>

lemma frame_publish: "frame (idb w) (idb (fst (claim_and_publish now x cid i w)))"
proof -
  have f: "frame d (update_job k P (\<lambda>j. j\<lparr>job_status := st, job_updated_at := t\<rparr>) d)"
    "frame d (update_job k P (record_published now m) d)" "frame d (update_job k P (release_claim now e) d)"
    for d k P st t m e
    by (intro frame_set_job; simp add: work_owner_def record_published_def release_claim_def)+
  show ?thesis
    by (auto simp: claim_and_publish_def Let_def f intro: frame_trans f split: prod.split sum.split option.split)
qed

lemma frame_reconcile: "frame (idb w) (idb (fst (reconcile_pending now x cids w)))"
proof -
  have "frame (idb w) (idb (fst (reconcile_jobs now x cids is w n)))" for "is" cids n w
  proof (induction "is" arbitrary: cids n w)
    case (Cons i "is")
    obtain w1 r where c: "claim_and_publish now x (if cids = [] then [] else hd cids) i w = (w1, r)"
      by (cases "claim_and_publish now x (if cids = [] then [] else hd cids) i w")
    have f: "frame (idb w) (idb w1)" using frame_publish [of w now x _ i] c by (metis fst_conv)
    show ?case using f c Cons.IH [of w1] by (cases r) (auto intro: frame_trans)
  qed simp
  then show ?thesis by (simp add: reconcile_pending_def)
qed

text \<open>Accepting a job: its tenant is enrolled first.\<close>

lemma ingest_grows:
  assumes "wf_db (idb w)" and "ingest now x cid p w = (w', r)"
  shows "owners (idb w') = owners (idb w)" "ledger_ids (idb w') = ledger_ids (idb w)"
    "tenant_ids (idb w) \<subseteq> tenant_ids (idb w')" "job_owners (idb w) \<subseteq> job_owners (idb w')"
    "job_ids (idb w) \<subseteq> job_ids (idb w')" "job_tenants (idb w') \<subseteq> insert (pl_installation_id p) (job_tenants (idb w))"
proof -
  have grow: "owners (admitted now p db) = owners db" "ledger_ids (admitted now p db) = ledger_ids db"
    "tenant_ids (admitted now p db) = tenant_ids db" "job_owners db \<subseteq> job_owners (admitted now p db)"
    "job_ids db \<subseteq> job_ids (admitted now p db)"
    "job_tenants (admitted now p db) \<subseteq> insert (pl_installation_id p) (job_tenants db)" for db
    by (auto simp: admitted_def reference_defs new_job_def with_job_id_def)
  have fp: "frame (admitted now p (idb w)) (idb v)"
    if "claim_and_publish now x cid i (w\<lparr>idb := admitted now p (idb w)\<rparr>) = (v, b)" for i v b
    using frame_publish [of "w\<lparr>idb := admitted now p (idb w)\<rparr>" now x cid i] that by simp
  have "frame (admitted now p (idb w)) (idb w')"
    using assms(2) unfolding ingest_unfold [OF assms(1)] Let_def
    by (auto dest: fp split: if_splits prod.splits sum.splits)
  with grow [of "idb w"] show "owners (idb w') = owners (idb w)" "ledger_ids (idb w') = ledger_ids (idb w)"
    "tenant_ids (idb w) \<subseteq> tenant_ids (idb w')" "job_owners (idb w) \<subseteq> job_owners (idb w')"
    "job_ids (idb w) \<subseteq> job_ids (idb w')" "job_tenants (idb w') \<subseteq> insert (pl_installation_id p) (job_tenants (idb w))"
    by (simp_all add: frame_def)
qed

lemma integrity_accept:
  assumes "integrity s (sv_db sv)" and "wf_db (sv_db sv)"
    and "multi_tenant_enabled s \<Longrightarrow> (case pl_installation_id p of None \<Rightarrow> True | Some i \<Rightarrow> i \<in> tenant_ids (sv_db sv))"
  shows "integrity s (sv_db (fst (accept_job s now x cid p sv)))"
proof -
  let ?w = "\<lparr>idb = sv_db sv, stream = sv_stream sv\<rparr>"
  obtain w' r where run: "ingest now x cid p ?w = (w', r)" by (cases "ingest now x cid p ?w")
  have wf: "wf_db (idb ?w)" using assms(2) by simp
  note g = ingest_grows [OF wf run, simplified]
  have "i \<in> tenant_ids (idb w')" if "multi_tenant_enabled s" "Some i \<in> job_tenants (idb w')" for i
  proof (cases "Some i \<in> job_tenants (sv_db sv)")
    case True
    then show ?thesis using assms(1) that(1) g(3) unfolding integrity_def by blast
  next
    case False
    then have "pl_installation_id p = Some i" using g(6) that(2) by auto
    then show ?thesis using assms(3) [OF that(1)] g(3) by auto
  qed
  moreover have "owners (idb w') \<subseteq> job_owners (idb w')" "ledger_ids (idb w') \<subseteq> job_ids (idb w')"
    using assms(1) g(1,2,4,5) unfolding integrity_def by simp_all blast+
  ultimately have "integrity s (idb w')" unfolding integrity_def by blast
  then show ?thesis by (simp add: accept_job_def run)
qed

text \<open>The enrolment puts the tenant of the delivery into the table, or the delivery is ignored.\<close>

lemma enrol_registers:
  assumes "enrol s now payload p db = Ret (db', act)" and "wf_db db"
  shows "frame db db'" and "act \<Longrightarrow> multi_tenant_enabled s \<Longrightarrow>
    (case pl_installation_id p of None \<Rightarrow> True | Some i \<Rightarrow> i \<in> tenant_ids db')"
proof -
  have wf: "wf_db db'" using wf_enrol [OF assms(2,1)] .
  show "frame db db'"
    using assms(1) by (auto simp: enrol_def dest: frame_upsert split: option.splits if_splits)
  have reg: "i \<in> tenant_ids db'" if act: "get_active db' i \<noteq> None" for i
  proof -
    obtain r where "get_installation db' i = Some r"
      using act by (cases "get_installation db' i") (simp_all add: get_active_def)
    then show ?thesis using get_installation_iff [OF wf, of i r] by (auto simp: tenant_ids_def)
  qed
  show "case pl_installation_id p of None \<Rightarrow> True | Some i \<Rightarrow> i \<in> tenant_ids db'"
    if "act" "multi_tenant_enabled s"
    using assms(1) that reg by (auto simp: enrol_def split: option.splits)
qed

lemma integrity_webhook_job:
  assumes "integrity s (sv_db sv)" and "wf_db (sv_db sv)"
  shows "integrity s (sv_db (fst (webhook_job s now x cid payload p sv)))"
proof (cases "enrol s now payload p (sv_db sv)")
  case (Inr q)
  obtain db act where q: "q = (db, act)" by (cases q)
  note e = enrol_registers [OF Inr [unfolded q] assms(2)]
  have base: "integrity s db" using integrity_frame [OF assms(1) e(1)] .
  have wf: "wf_db db" using wf_enrol [OF assms(2) Inr [unfolded q]] .
  have acc: "integrity s (sv_db (fst (accept_job s now x cid p (sv\<lparr>sv_db := db\<rparr>))))" if act
    by (rule integrity_accept) (use base wf e(2) [OF that] in \<open>simp_all split: option.splits\<close>)
  show ?thesis using base acc unfolding webhook_job_def Inr q
    by (auto simp: Let_def split: sum.split option.split)
qed (simp add: webhook_job_def assms(1))

lemma integrity_webhook:
  assumes "integrity s (sv_db sv)" and "wf_db (sv_db sv)"
  shows "integrity s (sv_db (fst (webhook s env now t up auth x cid r sv)))"
proof -
  have ten: "frame (sv_db v) (sv_db (fst (webhook_tenancy now e payload v)))" for e payload v
    using frame_repositories [of "sv_db v" now payload]
    by (auto simp: webhook_tenancy_def Let_def dest: frame_apply_event split: sum.split prod.split)
  have com: "frame (sv_db v) (sv_db (fst (webhook_comment s now auth payload v)))" for payload v
    using frame_issue_comment [of "\<lparr>wdb = sv_db v, calls = sv_calls v\<rparr>" s now auth payload]
    by (auto simp: webhook_comment_def split: prod.split)
  have ev: "integrity s (sv_db (fst (webhook_event s now auth x cid e payload v)))"
    if "integrity s (sv_db v)" "wf_db (sv_db v)" for e payload v
    using that integrity_frame [OF that(1) ten] integrity_frame [OF that(1) com] integrity_webhook_job [OF that]
    by (auto simp: webhook_event_def split: sum.split option.split)
  show ?thesis using assms ev
    by (auto simp: webhook_def Let_def split: sum.split option.split prod.split)
qed

lemma integrity_guarded:
  assumes "\<And>v. sv_db v = sv_db sv \<Longrightarrow> frame (sv_db v) (sv_db (fst (endpoint v)))"
  shows "frame (sv_db sv) (sv_db (fst (guarded_mutation s t r endpoint sv)))"
  using assms by (auto simp: guarded_mutation_def split: sum.split option.split prod.split)

lemma frame_endpoints:
  "frame (sv_db sv) (sv_db (fst (approve_endpoint s now t stamp client i r sv)))"
  "frame (sv_db sv) (sv_db (fst (reject_endpoint s now t stamp i r sv)))"
  using frame_approve_review [of "\<lparr>wdb = sv_db sv, calls = sv_calls sv\<rparr>" s now stamp client i]
    frame_reject_review [of "\<lparr>wdb = sv_db sv, calls = sv_calls sv\<rparr>" s now stamp i]
  by (auto simp: approve_endpoint_def reject_endpoint_def guarded_mutation_def on_world_def
      split: sum.split option.split prod.split)

section \<open>What the worker asks of its handler\<close>

lemma frame_job_updates:
  "frame db (update_job i P (escalate t) db)" "frame db (update_job i P (take_claim t) db)"
  "frame db (update_job i P (mark_retry t e) db)" "frame db (release_job stamp t e db i)"
  "frame db (update_job i P (\<lambda>j. j\<lparr>job_status := st, job_updated_at := t\<rparr>) db)"
  unfolding release_job_def
  by (intro frame_set_job; simp add: work_owner_def escalate_def take_claim_def mark_retry_def)+

lemma integrity_finish:
  assumes "integrity s db" and "i \<in> job_ids db"
  shows "integrity s (finish_job t summ db i)"
proof -
  have "integrity s (db\<lparr>job_results := record_result t i summ (job_results db)\<rparr>)"
    using assms by (auto simp: integrity_def reference_defs record_result_def)
  from integrity_frame [OF this frame_job_updates(5)] show ?thesis by (simp add: finish_job_def)
qed

text \<open>
  The contract between the worker and the handler it is given: the handler may write on behalf of its job
  only, and does not touch the jobs themselves. Everything the worker does to the tables around a run of the
  handler follows from it.
\<close>

locale job_handler =
  fixes handler :: handler
  assumes handler_wf: "wf_db d \<Longrightarrow> wf_db (fst (handler j d))"
    and handler_jobs: "job_ids (fst (handler j d)) = job_ids d"
    and handler_references: "integrity s d \<Longrightarrow> work_owner j \<in> job_owners d \<Longrightarrow> integrity s (fst (handler j d))"
begin

lemma process_integrity:
  assumes "integrity s db" and "wf_db db"
  shows "integrity s (fst (process_job s now later handler i db))"
proof (cases "get_job db i")
  case None
  then show ?thesis using assms(1) by (simp add: process_job_def pre_check_def)
next
  case (Some job)
  let ?db1 = "update_job i (claimable s now) (take_claim now) db"
  have i1: "integrity s ?db1" using integrity_frame [OF assms(1) frame_job_updates(2)] .
  have mem: "job \<in> set (rows (pr_jobs db))" "job_id job = i" using Some get_job_iff [OF assms(2)] by simp_all
  have same: "job_owners ?db1 = job_owners db" "job_ids ?db1 = job_ids db"
    using frame_job_updates(2) [of db i "claimable s now" now] by (simp_all add: frame_def)
  have own: "work_owner (take_claim now job) \<in> job_owners ?db1" "i \<in> job_ids ?db1"
    using mem unfolding same by (auto simp: job_owners_def job_ids_def work_owner_def take_claim_def intro!: image_eqI)
  obtain db2 r where run: "handler (take_claim now job) ?db1 = (db2, r)" by (cases "handler (take_claim now job) ?db1")
  have i2: "integrity s db2" "i \<in> job_ids db2"
    using handler_references [OF i1 own(1)] handler_jobs [of "take_claim now job" ?db1] own(2) by (simp_all add: run)
  show ?thesis
    using assms(1) integrity_frame [OF assms(1) frame_job_updates(1)] integrity_finish [OF i2]
      integrity_frame [OF i2(1) frame_job_updates(4)]
    by (simp add: process_job_branches [OF assms(2) Some] run split: sum.split)
qed

lemma message_integrity:
  assumes "integrity s db" and "wf_db db"
  shows "integrity s (fst (handle_message s now later ack handler m db))"
proof (cases "message_job m")
  case (Inr i)
  obtain db1 r where run: "process_job s now later handler i db = (db1, r)"
    by (cases "process_job s now later handler i db")
  have "integrity s db1" using process_integrity [OF assms, of now later i] by (simp add: run)
  then show ?thesis
    using integrity_frame [OF _ frame_job_updates(3)] by (auto simp: handle_message_def Inr run split: sum.split)
qed (simp add: handle_message_def assms(1))

lemma message_wf: "wf_db db \<Longrightarrow> wf_db (fst (handle_message s now later ack handler m db))"
  by (rule wf_handle_message) (simp_all add: keeps_wf_def handler_wf)

end


section \<open>The pipeline as a handler\<close>

text \<open>A job run by the pipeline touches the database through one run of the router at most.\<close>

lemma handler_database:
  "fst (graph_handler lf sn (invoke_for_worker limit p w) j d) = d \<or>
   (\<exists>st. fst (graph_handler lf sn (invoke_for_worker limit p w) j d) =
      wdb (fst (router_node (pl_settings p) (pl_now p) (pl_github p) (pl_sessions p) st ((out_world w)\<lparr>wdb := d\<rparr>))))"
proof (cases "lf (job_repo j) (job_pr_number j)")
  case (Inr files)
  show ?thesis
  proof (cases "seed_state j files (sn (job_repo j) (job_commit_sha j))")
    case (Inr st)
    let ?v = "w\<lparr>out_world := (out_world w)\<lparr>wdb := d\<rparr>\<rparr>"
    obtain tr w' r where g: "run_graph limit p st ?v = (tr, w', r)" by (cases "run_graph limit p st ?v")
    have "flag_inv p (entry_router st) st" using seed_facts(2) [OF Inr] by (simp add: flag_inv_def)
    from run_from_router [OF g [unfolded run_graph_def] this]
    have "out_world w' = out_world ?v \<or> (\<exists>st2. out_world w' =
        fst (router_node (pl_settings p) (pl_now p) (pl_github p) (pl_sessions p) st2 (out_world ?v)))"
      by (elim disjE exE conjE) (simp, metis fst_conv)
    moreover have "fst (graph_handler lf sn (invoke_for_worker limit p w) j d) = wdb (out_world w')"
      using Inr \<open>lf _ _ = Inr files\<close> g
      by (simp add: graph_handler_def invoke_for_worker_def invoke_def split: run_end.split)
    ultimately show ?thesis by auto
  qed (simp add: graph_handler_def Inr)
qed (simp add: graph_handler_def)

lemma pipeline_writes:
  "owners (fst (graph_handler lf sn (invoke_for_worker limit p w) j db)) \<subseteq> insert (work_owner j) (owners db)"
  "pr_jobs (fst (graph_handler lf sn (invoke_for_worker limit p w) j db)) = pr_jobs db"
  "installations (fst (graph_handler lf sn (invoke_for_worker limit p w) j db)) = installations db"
  "job_results (fst (graph_handler lf sn (invoke_for_worker limit p w) j db)) = job_results db"
  using handler_adds [OF surjective_pairing [of "graph_handler lf sn (invoke_for_worker limit p w) j db"]] by simp_all

interpretation piped: job_handler "graph_handler lf sn (invoke_for_worker limit p w)" for lf sn limit p w
proof
  fix j d
  assume "wf_db d"
  then have "wf_db (wdb (fst (router_node (pl_settings p) (pl_now p) (pl_github p) (pl_sessions p) st
      ((out_world w)\<lparr>wdb := d\<rparr>))))" for st by (simp add: wf_router)
  with \<open>wf_db d\<close> handler_database [of lf sn limit p w j d]
  show "wf_db (fst (graph_handler lf sn (invoke_for_worker limit p w) j d))" by auto
next
  fix j d s
  show "job_ids (fst (graph_handler lf sn (invoke_for_worker limit p w) j d)) = job_ids d"
    by (simp add: job_ids_def pipeline_writes)
  assume "integrity s d" "work_owner j \<in> job_owners d"
  moreover define d' where "d' = fst (graph_handler lf sn (invoke_for_worker limit p w) j d)"
  moreover have "job_owners d' = job_owners d" "job_ids d' = job_ids d" "job_tenants d' = job_tenants d"
    "tenant_ids d' = tenant_ids d" "ledger_ids d' = ledger_ids d"
    by (simp_all add: reference_defs d'_def pipeline_writes)
  moreover have "owners d' \<subseteq> insert (work_owner j) (owners d)" by (simp add: d'_def pipeline_writes)
  ultimately show "integrity s (fst (graph_handler lf sn (invoke_for_worker limit p w) j d))"
    unfolding integrity_def by auto
qed


section \<open>The step relation\<close>

inductive service_step :: "settings \<Rightarrow> ('l, 'b) pipeline \<Rightarrow> service \<Rightarrow> service \<Rightarrow> bool"
  for s :: settings and p :: "('l, 'b) pipeline" where
  Delivery: "service_step s p sv (fst (webhook s env now t up auth x cid r sv))"
| Approval: "service_step s p sv (fst (approve_endpoint s now t stamp client i r sv))"
| Rejection: "service_step s p sv (fst (reject_endpoint s now t stamp i r sv))"
| Message: "service_step s p sv (sv\<lparr>sv_db := fst (handle_message s now later ack
    (graph_handler lf sn (invoke_for_worker limit (p\<lparr>pl_now := started\<rparr>) w)) m (sv_db sv))\<rparr>)"
| Reconciliation: "reconcile_pending now x cids \<lparr>idb = sv_db sv, stream = sv_stream sv\<rparr> = (w, r) \<Longrightarrow>
    service_step s p sv (sv\<lparr>sv_db := idb w, sv_stream := stream w\<rparr>)"
| Restart: "lifespan s tables now queue (sv_db sv) = Ret (db, up) \<Longrightarrow> service_step s p sv (sv\<lparr>sv_db := db\<rparr>)"

inductive service_run :: "settings \<Rightarrow> ('l, 'b) pipeline \<Rightarrow> service \<Rightarrow> service \<Rightarrow> bool"
  for s :: settings and p :: "('l, 'b) pipeline" where
  Start: "service_run s p sv sv"
| Step: "service_run s p sv sv1 \<Longrightarrow> service_step s p sv1 sv2 \<Longrightarrow> service_run s p sv sv2"

inductive_cases service_stepE: "service_step s p sv sv'"

lemma wf_reconcile: "wf_db (idb w) \<Longrightarrow> wf_db (idb (fst (reconcile_pending now x cids w)))"
proof -
  assume w: "wf_db (idb w)"
  have "wf_db (idb (fst (reconcile_jobs now x cids is w n)))" if "wf_db (idb w)" for "is" cids n w
    using that
  proof (induction "is" arbitrary: cids n w)
    case (Cons i "is")
    obtain w1 r where c: "claim_and_publish now x (if cids = [] then [] else hd cids) i w = (w1, r)"
      by (cases "claim_and_publish now x (if cids = [] then [] else hd cids) i w")
    then have "wf_db (idb w1)" using wf_publish [OF Cons.prems, of now x _ i] by (metis fst_conv)
    then show ?case using c Cons.IH [of w1] by (cases r) auto
  qed simp
  with w show ?thesis by (simp add: reconcile_pending_def)
qed

lemma wf_endpoints:
  assumes "wf_db (sv_db sv)"
  shows "wf_db (sv_db (fst (approve_endpoint s now t stamp client i r sv)))"
    "wf_db (sv_db (fst (reject_endpoint s now t stamp i r sv)))"
proof -
  have c: "wf_db (wdb (fst (approve_review s now stamp client i w)))" if "wf_db (wdb w)" for w
  proof -
    obtain db o1 oc where claim: "claim_approval now (wdb w) i = (db, o1, oc)" by (cases "claim_approval now (wdb w) i")
    have wf: "wf_db db" using wf_claim [OF that, of now i] claim by simp
    have ex: "wdb w' = wdb v" if "execute_decision (Some client) q y z v = (w', b)" for q y z v w' b
      using execute_decision_db [of "Some client" q y z v] that by simp
    have "wf_db (wdb (fst (carry_out s now stamp client row v)))" if "wf_db (wdb v)" for row v
      using that by (auto simp: carry_out_def Let_def wf_marks dest!: ex split: sum.split prod.split)
    then show ?thesis using that wf by (auto simp: approve_review_def claim Let_def split: option.split)
  qed
  have r: "wf_db (wdb (fst (reject_review s now stamp i w)))" if "wf_db (wdb w)" for w
    using wf_reject [OF that, of now i] that
    by (auto simp: reject_review_def Let_def split: option.split prod.split)
  show "wf_db (sv_db (fst (approve_endpoint s now t stamp client i r sv)))"
    "wf_db (sv_db (fst (reject_endpoint s now t stamp i r sv)))"
    using c [of "\<lparr>wdb = sv_db sv, calls = sv_calls sv\<rparr>"] r [of "\<lparr>wdb = sv_db sv, calls = sv_calls sv\<rparr>"] assms
    by (auto simp: approve_endpoint_def reject_endpoint_def guarded_mutation_def on_world_def
        split: sum.split option.split prod.split)
qed

lemma lifespan_db: "lifespan s tables now queue db = Ret (db', up) \<Longrightarrow> db' = fst (sweep_interrupted now db)"
  by (auto simp: lifespan_def)

lemma service_step_wf:
  assumes "service_step s p sv sv'" and "wf_db (sv_db sv)"
  shows "wf_db (sv_db sv')"
  using assms
proof cases
  case (Message now later ack lf sn limit started w m)
  then show ?thesis using assms(2) by (simp add: piped.message_wf)
next
  case (Reconciliation now x cids w r)
  then show ?thesis using assms(2) wf_reconcile [of "\<lparr>idb = sv_db sv, stream = sv_stream sv\<rparr>" now x cids] by simp
next
  case (Restart tables now queue db up)
  then show ?thesis using assms(2) lifespan_db [OF Restart(2)] by (simp add: wf_sweep)
qed (use assms(2) in \<open>simp_all add: wf_webhook wf_endpoints\<close>)

lemma step_integrity:
  assumes "service_step s p sv sv'" and "wf_db (sv_db sv)" and "integrity s (sv_db sv)"
  shows "integrity s (sv_db sv')"
  using assms(1)
proof cases
  case (Approval now t stamp client i r)
  then show ?thesis using integrity_frame [OF assms(3) frame_endpoints(1)] by simp
next
  case (Rejection now t stamp i r)
  then show ?thesis using integrity_frame [OF assms(3) frame_endpoints(2)] by simp
next
  case (Reconciliation now x cids w r)
  then show ?thesis
    using integrity_frame [OF assms(3)] frame_reconcile [of "\<lparr>idb = sv_db sv, stream = sv_stream sv\<rparr>" now x cids] by simp
next
  case (Restart tables now queue db up)
  then show ?thesis using lifespan_db [OF Restart(2)] integrity_frame [OF assms(3) frame_sweep] by simp
qed (use assms(2,3) in \<open>simp_all add: integrity_webhook piped.message_integrity\<close>)

lemma run_wf: "service_run s p sv sv' \<Longrightarrow> wf_db (sv_db sv) \<Longrightarrow> wf_db (sv_db sv')"
  by (induction rule: service_run.induct) (auto intro: service_step_wf)

lemma run_integrity:
  "service_run s p sv sv' \<Longrightarrow> wf_db (sv_db sv) \<Longrightarrow> integrity s (sv_db sv) \<Longrightarrow> integrity s (sv_db sv')"
  by (induction rule: service_run.induct) (auto intro: step_integrity run_wf)

end
