(* ===== verification/Evolution.thy ===== *)
theory Evolution
  imports Service
begin

text \<open>
  What the whole service may do to a decision once it is written: the columns that say what is posted,
  where and for whom never change, the row is never removed, and a row that was executed or rejected is
  never touched again. One lemma per operation, then one per step of the service.
\<close>

section \<open>How decisions evolve\<close>

abbreviation settled :: "review_decision \<Rightarrow> bool" where
  "settled r \<equiv> dec_status r \<in> {EXECUTED, REJECTED}"

definition evolves :: "database \<Rightarrow> database \<Rightarrow> bool" where
  "evolves db db' \<longleftrightarrow> (\<forall>i r. get_decision db i = Some r \<longrightarrow>
     (\<exists>r'. get_decision db' i = Some r' \<and> same_proposal r r' \<and> (settled r \<longrightarrow> r' = r)))"

lemma same_proposal_trans: "same_proposal a b \<Longrightarrow> same_proposal b c \<Longrightarrow> same_proposal a c"
  by (simp add: same_proposal_def)

lemma evolves_refl [simp]: "evolves db db"
  by (simp add: evolves_def)

lemma evolves_trans:
  assumes "evolves a b" and "evolves b c" shows "evolves a c"
  unfolding evolves_def
proof (intro allI impI)
  fix i r
  assume "get_decision a i = Some r"
  with assms(1) obtain r1 where r1: "get_decision b i = Some r1" "same_proposal r r1" "settled r \<longrightarrow> r1 = r"
    unfolding evolves_def by blast
  from r1(1) assms(2) obtain r2 where r2: "get_decision c i = Some r2" "same_proposal r1 r2" "settled r1 \<longrightarrow> r2 = r1"
    unfolding evolves_def by blast
  have "same_proposal r r2" using r1(2) r2(2) by (rule same_proposal_trans)
  moreover have "settled r \<longrightarrow> r2 = r" using r1(3) r2(3) by auto
  ultimately show "\<exists>r'. get_decision c i = Some r' \<and> same_proposal r r' \<and> (settled r \<longrightarrow> r' = r)"
    using r2(1) by blast
qed

lemma evolvesI:
  assumes "\<And>k. get_decision db' k = map_option (g k) (get_decision db k)"
    and "\<And>k r. get_decision db k = Some r \<Longrightarrow> same_proposal r (g k r) \<and> (settled r \<longrightarrow> g k r = r)"
  shows "evolves db db'"
  using assms by (simp add: evolves_def)

lemma evolves_same: "(\<And>i. get_decision db' i = get_decision db i) \<Longrightarrow> evolves db db'"
  by (simp add: evolves_def)

lemma evolves_tables: "review_decisions db' = review_decisions db \<Longrightarrow> evolves db db'"
  by (simp add: evolves_def get_decision_def)

lemma evolves_claim: "wf_db db \<Longrightarrow> evolves db (fst (claim_approval now db i))"
  by (rule evolvesI, rule claim_approval_get) (auto simp: same_proposal_def)

lemma evolves_reject: "evolves db (fst (reject_pending now db i))"
  by (rule evolvesI, rule reject_pending_get) (auto simp: same_proposal_def)

lemma evolves_requeue: "evolves db (fst (requeue_failed now db i))"
  by (rule evolvesI, rule requeue_get) (auto simp: same_proposal_def)

lemma evolves_sweep: "evolves db (fst (sweep_interrupted now db))"
  by (rule evolvesI, rule sweep_get) (auto simp: same_proposal_def)

lemma evolves_marks:
  assumes "get_decision db i = Some r" and "\<not> settled r"
  shows "evolves db (mark_executed now db i u)" "evolves db (mark_failed now db i d)"
proof -
  show "evolves db (mark_executed now db i u)"
    by (rule evolvesI, rule mark_get(1)) (use assms in \<open>auto simp: same_proposal_def\<close>)
  show "evolves db (mark_failed now db i d)"
    by (rule evolvesI, rule mark_get(2)) (use assms in \<open>auto simp: same_proposal_def\<close>)
qed

text \<open>A new decision takes a fresh id.\<close>

lemma evolves_enqueue:
  assumes "wf_db db"
  shows "evolves db (fst (enqueue_tracked now db d st))"
proof -
  have wf: "wf_db (fst (enqueue_tracked now db d st))" using assms by (rule wf_enqueue)
  have "set (rows (review_decisions db)) \<subseteq> set (rows (review_decisions (fst (enqueue_tracked now db d st))))"
    by (auto simp: enqueue_tracked_def enqueue_tracked_at_def split: option.split)
  then have "get_decision (fst (enqueue_tracked now db d st)) i = Some r" if "get_decision db i = Some r" for i r
    using that get_decision_iff [OF assms] get_decision_iff [OF wf] by blast
  then show ?thesis by (simp add: evolves_def)
qed


section \<open>Approvals\<close>

lemma claimed_row:
  assumes "wf_db db" and "claim_approval now db i = (db', Some row, Claimed)"
  shows "get_decision db' i = Some row" "dec_id row = i" "dec_status row = APPROVED"
proof -
  obtain r where r: "get_decision db i = Some r" "dec_status r \<in> {PENDING, FAILED}"
    "row = r\<lparr>dec_status := APPROVED, dec_updated_at := now\<rparr>"
    using assms(2) unfolding claim_approval_cases [OF assms(1)]
    by (auto split: option.splits decision_status.splits)
  show "get_decision db' i = Some row"
    using claim_approval_get [OF assms(1), of now i i] assms(2) r by simp
  show "dec_id row = i" "dec_status row = APPROVED" using r get_decision_id [OF r(1)] by simp_all
qed

lemma outcome_claimed:
  "oc \<noteq> AlreadyExecuted \<Longrightarrow> oc \<noteq> Rejected \<Longrightarrow> oc \<noteq> InProgress \<Longrightarrow> wf_db db \<Longrightarrow>
    claim_approval now db i = (db', Some row, oc) \<Longrightarrow> oc = Claimed"
  by (auto simp: claim_approval_cases split: option.splits decision_status.splits)

lemma evolves_mark_claimed:
  assumes "wf_db db" and "claim_approval now db i = (db', Some row, Claimed)"
  shows "evolves db (mark_executed t db' (dec_id row) u)" "evolves db (mark_failed t db' (dec_id row) d)"
proof -
  note c = claimed_row [OF assms]
  have e: "evolves db db'" using evolves_claim [OF assms(1), of now i] assms(2) by simp
  have "get_decision db' (dec_id row) = Some row" using c by simp
  from evolves_marks [OF this] c(3) evolves_trans [OF e]
  show "evolves db (mark_executed t db' (dec_id row) u)" "evolves db (mark_failed t db' (dec_id row) d)" by simp_all
qed

lemma evolves_approve_review:
  assumes "wf_db (wdb w)"
  shows "evolves (wdb w) (wdb (fst (approve_review s now stamp client i w)))"
proof -
  obtain db o1 oc where claim: "claim_approval now (wdb w) i = (db, o1, oc)"
    by (cases "claim_approval now (wdb w) i")
  have e: "evolves (wdb w) db" using evolves_claim [OF assms, of now i] claim by simp
  have ex: "wdb w' = wdb v" if "execute_decision (Some client) p x y v = (w', r)" for p x y v w' r
    using execute_decision_db [of "Some client" p x y v] that by simp
  have "evolves (wdb w) (wdb (fst (carry_out s now stamp client row (w\<lparr>wdb := db\<rparr>))))"
    if o1: "o1 = Some row" and oc: "oc = Claimed" for row
    using e evolves_mark_claimed [OF assms claim [unfolded o1 oc]]
    by (auto simp: carry_out_def Let_def dest!: ex split: sum.split prod.split)
  then show ?thesis
    using e outcome_claimed [of oc "wdb w" now i db] assms claim
    by (auto simp: approve_review_def claim Let_def split: option.split)
qed

lemma evolves_reject_review: "evolves (wdb w) (wdb (fst (reject_review s now stamp i w)))"
  using evolves_reject [of "wdb w" now i]
  by (auto simp: reject_review_def Let_def split: option.split prod.split)

lemma evolves_approve_command:
  assumes "wf_db (wdb w)"
  shows "evolves (wdb w) (wdb (fst (approve_command now client row rp pr actor w)))"
proof -
  obtain db o1 oc where claim: "claim_approval now (wdb w) (dec_id row) = (db, o1, oc)"
    by (cases "claim_approval now (wdb w) (dec_id row)")
  have e: "evolves (wdb w) db" using evolves_claim [OF assms, of now "dec_id row"] claim by simp
  have ex: "wdb w' = wdb v" if "execute_decision (Some client) p x y v = (w', r)" for p x y v w' r
    using execute_decision_db [of "Some client" p x y v] that by simp
  have rep: "wdb w' = wdb v" if "reply client rp pr b v = (w', r)" for b v w' r
    using reply_db [of client rp pr b v] that by simp
  have m: "evolves (wdb w) (mark_executed now db (dec_id c) u)" "evolves (wdb w) (mark_failed now db (dec_id c) d)"
    if "o1 = Some c" "oc \<noteq> AlreadyExecuted" "oc \<noteq> Rejected" "oc \<noteq> InProgress" for c u d
    using that outcome_claimed [of oc "wdb w" now "dec_id row" db c] evolves_mark_claimed [OF assms, of now "dec_id row" db c]
      assms claim by simp_all
  show ?thesis using e m
    by (auto simp: approve_command_def claim Let_def dest!: ex rep split: option.split sum.split prod.split)
qed

lemma evolves_reject_command: "evolves (wdb w) (wdb (fst (reject_command now client row rp pr actor w)))"
  using evolves_reject [of "wdb w" now "dec_id row"]
  by (auto simp: reject_command_def Let_def split: option.split prod.split)

lemma evolves_issue_comment:
  assumes "wf_db (wdb w)"
  shows "evolves (wdb w) (wdb (fst (handle_issue_comment s now auth payload w)))"
proof -
  have run: "evolves (wdb w) (wdb (fst (run_command now client cmd rp pr inst actor w)))" for client cmd rp pr inst actor
    by (auto simp: run_command_def evolves_approve_command [OF assms] evolves_reject_command split: option.split)
  have "evolves (wdb w) (wdb (fst (authorised now au cmd rp pr inst actor w)))" for au cmd rp pr inst actor
    by (auto simp: authorised_def run split: sum.split)
  then show ?thesis by (auto simp: handle_issue_comment_def split: sum.split option.split)
qed


section \<open>The pipeline\<close>

text \<open>The row the router works on is pending or failed when it marks it.\<close>

lemma enqueued_row:
  assumes "wf_db db" and "enqueue_tracked now db d st = (db', Some (row, c))"
  shows "get_decision db' (dec_id row) = Some row" "c \<Longrightarrow> dec_status row = PENDING"
proof -
  show "get_decision db' (dec_id row) = Some row"
    using find_after_insert [OF assms] by (simp add: find_decision_get)
  show "dec_status row = PENDING" if c
    using enqueue_created(2) [of now db d st db' row] assms(2) that by simp
qed

lemma evolves_queue:
  assumes "wf_db (wdb w)"
  shows "evolves (wdb w) (wdb (fst (queue_for_human now github fac d st w)))"
proof (cases fac)
  case Sessions
  obtain db x where enq: "enqueue_tracked now (wdb w) d st = (db, x)" by (cases "enqueue_tracked now (wdb w) d st")
  have e: "evolves (wdb w) db" using evolves_enqueue [OF assms, of now d st] enq by simp
  then show ?thesis using evolves_trans [OF e evolves_requeue]
    by (auto simp: queue_for_human_def Sessions enq Let_def split: option.split)
qed (simp_all add: queue_for_human_def Let_def)

lemma evolves_auto:
  assumes "wf_db (wdb w)"
  shows "evolves (wdb w) (wdb (fst (auto_post now github fac d st w)))"
proof (cases fac)
  case Sessions
  obtain db x where enq: "enqueue_tracked now (wdb w) d st = (db, x)" by (cases "enqueue_tracked now (wdb w) d st")
  have e: "evolves (wdb w) db" using evolves_enqueue [OF assms, of now d st] enq by simp
  have run: "evolves (wdb w) (wdb (fst (auto_execute now github d st row base (w\<lparr>wdb := db\<rparr>))))"
    if x: "x = Some (row, c)" and "\<not> settled row" for row c base
  proof -
    have "get_decision db (dec_id row) = Some row" using enqueued_row(1) [OF assms] enq x by blast
    then have m: "evolves (wdb w) (mark_executed now db (dec_id row) u)"
      "evolves (wdb w) (mark_failed now db (dec_id row) t)" for u t
      using evolves_marks [of db "dec_id row" row] that(2) e by (auto intro: evolves_trans)
    obtain w1 r where ex: "execute_decision github (FromPolicy d) (repo st) (pr_number st) (w\<lparr>wdb := db\<rparr>) = (w1, r)"
      by (cases "execute_decision github (FromPolicy d) (repo st) (pr_number st) (w\<lparr>wdb := db\<rparr>)")
    have "wdb w1 = db" using execute_same [OF ex] by simp
    then show ?thesis using e m by (cases r) (simp_all add: auto_execute_def ex)
  qed
  show ?thesis
  proof (cases x)
    case None
    then show ?thesis using e by (simp add: auto_post_def Sessions enq Let_def)
  next
    case (Some y)
    obtain row c where y: "y = (row, c)" by (cases y)
    have pend: "c \<Longrightarrow> dec_status row = PENDING" using enqueued_row(2) [OF assms] enq Some y by blast
    have "wdb (fst (auto_post now github fac d st w)) = db \<or> (\<not> settled row \<and>
        (\<exists>base. fst (auto_post now github fac d st w) = fst (auto_execute now github d st row base (w\<lparr>wdb := db\<rparr>))))"
      using pend by (auto simp: auto_post_def Sessions enq Some y Let_def)
    then show ?thesis using e run [OF Some [unfolded y]] by auto
  qed
next
  case NoFactory
  then show ?thesis
    by (auto simp: auto_post_def Let_def dest!: execute_same split: prod.split sum.split)
qed (simp add: auto_post_def Let_def)

lemma evolves_router:
  assumes "wf_db (wdb w)"
  shows "evolves (wdb w) (wdb (fst (router_node s now github fac st w)))"
  using evolves_queue [OF assms, of now github fac] evolves_auto [OF assms, of now github fac]
  by (auto simp: router_node_def split: sum.split)

text \<open>A handler that also lets decisions only evolve.\<close>

locale proposing_handler = job_handler +
  assumes handler_evolves: "wf_db d \<Longrightarrow> evolves d (fst (handler j d))"
begin

lemma message_evolves:
  assumes "wf_db db"
  shows "evolves db (fst (handle_message s now later ack handler m db))"
proof (cases "message_job m")
  case (Inr i)
  obtain db1 r where run: "process_job s now later handler i db = (db1, r)" by (cases "process_job s now later handler i db")
  have "evolves db db1"
  proof (cases "get_job db i")
    case None
    then show ?thesis using run by (simp add: process_job_def pre_check_def)
  next
    case (Some job)
    let ?db1 = "update_job i (claimable s now) (take_claim now) db"
    obtain db2 x where h: "handler (take_claim now job) ?db1 = (db2, x)" by (cases "handler (take_claim now job) ?db1")
    have "evolves ?db1 db2" using handler_evolves [of ?db1 "take_claim now job"] assms h
      by (simp add: wf_update_job)
    then have e: "evolves db db2" by (rule evolves_trans [rotated]) (rule evolves_tables, simp)
    have t: "evolves d (update_job i P f d)" "evolves d (finish_job later summ d i)" "evolves d (release_job now later e d i)"
      for d P f summ e
      by (rule evolves_tables, simp add: finish_job_def release_job_def)+
    from run t evolves_trans [OF e t(2)] evolves_trans [OF e t(3)] show ?thesis
      unfolding process_job_branches [OF assms Some] h
      by (auto split: if_splits sum.splits)
  qed
  moreover have "evolves db1 (update_job i P f db1)" for P f by (rule evolves_tables) simp
  ultimately show ?thesis
    using evolves_trans by (auto simp: handle_message_def Inr run split: sum.split)
qed (simp add: handle_message_def)

end

lemma evolves_pipeline:
  assumes "wf_db db"
  shows "evolves db (fst (graph_handler lf sn (invoke_for_worker limit p w) j db))"
proof -
  have "evolves db (wdb (fst (router_node (pl_settings p) (pl_now p) (pl_github p) (pl_sessions p) st
      ((out_world w)\<lparr>wdb := db\<rparr>))))" for st
    using evolves_router [of "(out_world w)\<lparr>wdb := db\<rparr>"] assms by simp
  with handler_database [of lf sn limit p w j db] show ?thesis by (metis evolves_refl)
qed

interpretation piped_proposals: proposing_handler "graph_handler lf sn (invoke_for_worker limit p w)" for lf sn limit p w
  by unfold_locales (rule evolves_pipeline)


section \<open>Deliveries and the other steps\<close>

lemma upsert_decisions:
  assumes "Tenancy.upsert now db inst = Ret (db', r)"
  shows "review_decisions db' = review_decisions db"
proof -
  obtain f where f: "installation_fields_of inst = Ret f"
    using assms by (auto simp: Tenancy.upsert_def upsert_at_def)
  note run = assms [unfolded Tenancy.upsert_def upsert_at_def, simplified f rbind_simps]
  have upd: "review_decisions (update_installation i g db) = review_decisions db" for i g
    by (simp add: update_installation_def)
  show ?thesis
  proof (cases "f_installation_id f")
    case (Some i)
    with run upd show ?thesis by (auto simp: Let_def split: option.splits if_splits)
  qed (use run in simp)
qed

lemma apply_event_decisions:
  assumes "apply_event now db act payload = Ret (db', st)"
  shows "review_decisions db' = review_decisions db"
proof -
  have upd: "review_decisions (update_installation i g d) = review_decisions d" for i g d
    by (simp add: update_installation_def)
  have act: "apply_action now act r d = (db', st) \<Longrightarrow> review_decisions db' = review_decisions d" for d r
    by (auto simp: apply_action_def Let_def upd split: if_splits)
  show ?thesis
    using assms by (auto simp: apply_event_def split: option.splits dest!: upsert_decisions act)
qed

lemma publish_decisions:
  "review_decisions (idb (fst (claim_and_publish now x cid i w))) = review_decisions (idb w)"
  by (auto simp: claim_and_publish_def Let_def split: prod.split sum.split option.split)

lemma ingest_decisions:
  assumes "wf_db (idb w)"
  shows "review_decisions (idb (fst (ingest now x cid p w))) = review_decisions (idb w)"
proof -
  have adm: "review_decisions (admitted now p db) = review_decisions db" for db by (simp add: admitted_def)
  have fp: "review_decisions (idb v) = review_decisions (idb w)"
    if "claim_and_publish now x cid i (w\<lparr>idb := admitted now p (idb w)\<rparr>) = (v, b)" for i v b
    using publish_decisions [of now x cid i "w\<lparr>idb := admitted now p (idb w)\<rparr>"] that by (simp add: adm)
  show ?thesis unfolding ingest_unfold [OF assms] Let_def
    by (auto simp: adm dest: fp split: prod.split sum.split)
qed

lemma reconcile_decisions:
  "review_decisions (idb (fst (reconcile_pending now x cids w))) = review_decisions (idb w)"
proof -
  have "review_decisions (idb (fst (reconcile_jobs now x cids is w n))) = review_decisions (idb w)" for "is" cids n w
  proof (induction "is" arbitrary: cids n w)
    case (Cons i "is")
    obtain w1 r where c: "claim_and_publish now x (if cids = [] then [] else hd cids) i w = (w1, r)"
      by (cases "claim_and_publish now x (if cids = [] then [] else hd cids) i w")
    have "review_decisions (idb w1) = review_decisions (idb w)"
      using publish_decisions [of now x _ i w] c by (metis fst_conv)
    then show ?case using c Cons.IH [of _ w1] by (cases r) simp_all
  qed simp
  then show ?thesis by (simp add: reconcile_pending_def)
qed

lemma evolves_webhook_job:
  assumes "wf_db (sv_db sv)"
  shows "evolves (sv_db sv) (sv_db (fst (webhook_job s now x cid payload p sv)))"
proof (cases "enrol s now payload p (sv_db sv)")
  case (Inr q)
  obtain db act where q: "q = (db, act)" by (cases q)
  have wf: "wf_db db" using wf_enrol [OF assms Inr [unfolded q]] .
  have d: "review_decisions db = review_decisions (sv_db sv)"
    using Inr q by (auto simp: enrol_def dest: upsert_decisions split: option.splits if_splits)
  have "review_decisions (sv_db (fst (accept_job s now x cid p (sv\<lparr>sv_db := db\<rparr>)))) = review_decisions db"
    using ingest_decisions [of "\<lparr>idb = db, stream = sv_stream sv\<rparr>" now x cid p] wf
    by (auto simp: accept_job_def split: prod.split)
  then show ?thesis unfolding webhook_job_def Inr q
    by (intro evolves_tables) (auto simp: Let_def d split: sum.split option.split)
qed (simp add: webhook_job_def)

lemma evolves_webhook:
  assumes "wf_db (sv_db sv)"
  shows "evolves (sv_db sv) (sv_db (fst (webhook s env now t up auth x cid r sv)))"
proof -
  have ten: "evolves (sv_db v) (sv_db (fst (webhook_tenancy now e payload v)))" for e payload v
    by (rule evolves_tables)
      (auto simp: webhook_tenancy_def apply_repositories_event_def Let_def
        dest: apply_event_decisions upsert_decisions split: sum.split prod.split option.split)
  have com: "evolves (sv_db v) (sv_db (fst (webhook_comment s now auth payload v)))" if "wf_db (sv_db v)" for payload v
    using evolves_issue_comment [of "\<lparr>wdb = sv_db v, calls = sv_calls v\<rparr>" s now auth payload] that
    by (auto simp: webhook_comment_def split: prod.split)
  have ev: "evolves (sv_db v) (sv_db (fst (webhook_event s now auth x cid e payload v)))" if "wf_db (sv_db v)" for e payload v
    using ten com [OF that] evolves_webhook_job [OF that]
    by (auto simp: webhook_event_def split: sum.split option.split)
  have "evolves (sv_db sv) (sv_db (fst (webhook_event s now auth x cid e payload (sv\<lparr>webhook_limiter := l\<rparr>))))" for e payload l
    using ev [of "sv\<lparr>webhook_limiter := l\<rparr>"] assms by simp
  then show ?thesis
    by (auto simp: webhook_def Let_def split: sum.split option.split prod.split)
qed

lemma evolves_endpoints:
  assumes "wf_db (sv_db sv)"
  shows "evolves (sv_db sv) (sv_db (fst (approve_endpoint s now t stamp client i r sv)))"
    "evolves (sv_db sv) (sv_db (fst (reject_endpoint s now t stamp i r sv)))"
  using evolves_approve_review [of "\<lparr>wdb = sv_db sv, calls = sv_calls sv\<rparr>" s now stamp client i]
    evolves_reject_review [of "\<lparr>wdb = sv_db sv, calls = sv_calls sv\<rparr>" s now stamp i] assms
  by (auto simp: approve_endpoint_def reject_endpoint_def guarded_mutation_def on_world_def
      split: sum.split option.split prod.split)

lemma step_evolves:
  assumes "service_step s p sv sv'" and "wf_db (sv_db sv)"
  shows "evolves (sv_db sv) (sv_db sv')"
  using assms
proof cases
  case (Reconciliation now x cids w r)
  then show ?thesis
    using reconcile_decisions [of now x cids "\<lparr>idb = sv_db sv, stream = sv_stream sv\<rparr>"] by (intro evolves_tables) simp
next
  case (Restart tables now queue db up)
  then show ?thesis using lifespan_db [OF Restart(2)] evolves_sweep by simp
qed (use assms(2) in \<open>simp_all add: evolves_webhook evolves_endpoints piped_proposals.message_evolves\<close>)

lemma run_evolves:
  assumes "service_run s p sv sv'" and "wf_db (sv_db sv)"
  shows "evolves (sv_db sv) (sv_db sv')"
  using assms
proof (induction rule: service_run.induct)
  case (Step a b c)
  have "wf_db (sv_db b)" using run_wf [OF Step.hyps(1) Step.prems] .
  from evolves_trans [OF Step.IH [OF Step.prems] step_evolves [OF Step.hyps(2) this]] show ?case .
qed simp

end
