(* ===== verification/Job_Claims.thy ===== *)
theory Job_Claims
  imports Worker
begin

text \<open>
  Concurrent workers. The threads of one worker and the workers of other processes handle messages of the
  same stream, which may deliver a job several times, so \<open>process_job\<close> and \<open>_handle_message\<close> of
  \<^verbatim>\<open>src/app/worker.py\<close> and \<open>claim_and_publish\<close> of \<^verbatim>\<open>src/app/ingest.py\<close> interleave statement by statement. Here each
  committed statement is one step; any thread may be given any job at any time.

  A worker owns a job between its claim and the statement that ends it. The claim is a lease: a row that has
  been \<open>PROCESSING\<close> for longer than \<open>reclaim_idle_ms\<close> may be claimed again. The last statements of an error path
  are no compare-and-set; \<open>overridden\<close> counts, per job, those that hit a row somebody was running.
\<close>

section \<open>The protocol\<close>

text \<open>
  Where a thread is: it has read a row that may be claimed or that has used its attempts, it runs the handler
  under the claim stamped with a time, the handler has raised, the claim was handed back, or only the
  acknowledgement is left.
\<close>

datatype wphase = Free | Checked int | Escalating int pr_job | Running int int | Raised int int exc
  | Failing int exc | Done int

record fleet =
  fdb :: database
  thread :: "nat \<Rightarrow> wphase"
  publisher :: "nat \<Rightarrow> int option"
  clk :: int
  overridden :: "int \<Rightarrow> nat"

definition in_run :: "wphase \<Rightarrow> int \<Rightarrow> int \<Rightarrow> bool" where
  "in_run p i t \<longleftrightarrow> p = Running i t \<or> (\<exists>e. p = Raised i t e)"

lemma in_run_simps [simp]:
  "in_run (Running k u) i t \<longleftrightarrow> k = i \<and> u = t" "in_run (Raised k u e) i t \<longleftrightarrow> k = i \<and> u = t"
  "\<not> in_run Free i t" "\<not> in_run (Checked k) i t" "\<not> in_run (Escalating k j) i t"
  "\<not> in_run (Failing k e) i t" "\<not> in_run (Done k) i t"
  by (auto simp: in_run_def)

definition enter :: "nat \<Rightarrow> wphase \<Rightarrow> database \<Rightarrow> fleet \<Rightarrow> fleet" where
  "enter a p db s = s\<lparr>thread := (thread s)(a := p), fdb := db\<rparr>"

definition hit :: "int \<Rightarrow> fleet \<Rightarrow> fleet" where
  "hit i s = s\<lparr>overridden := (overridden s)
     (i := overridden s i + (if \<exists>b t. in_run (thread s b) i t then 1 else 0))\<rparr>"

lemma enter_simps [simp]:
  "fdb (enter a p db s) = db" "thread (enter a p db s) = (thread s)(a := p)"
  "publisher (enter a p db s) = publisher s" "clk (enter a p db s) = clk s"
  "overridden (enter a p db s) = overridden s"
  "fdb (hit i s) = fdb s" "thread (hit i s) = thread s" "publisher (hit i s) = publisher s" "clk (hit i s) = clk s"
  by (simp_all add: enter_def hit_def)

text \<open>The escalation writes what was read before: the error text is that of the row as it was then.\<close>

definition escalate_read :: "int \<Rightarrow> pr_job \<Rightarrow> pr_job \<Rightarrow> pr_job" where
  "escalate_read now seen j = j\<lparr>job_status := DEAD,
     job_last_error := Some (get_default [] (job_last_error seen) @ '' | exceeded max attempts''),
     job_updated_at := now\<rparr>"

inductive wstep :: "settings \<Rightarrow> fleet \<Rightarrow> fleet \<Rightarrow> bool" for cfg :: settings where
  tick: "0 \<le> d \<Longrightarrow> wstep cfg s (s\<lparr>clk := clk s + d\<rparr>)"
| accept: "job_status v = JOB_PENDING \<Longrightarrow> insert_ignore_duplicates job_dedup_key (with_job_id v) (pr_jobs (fdb s)) = (t, got) \<Longrightarrow>
    wstep cfg s (s\<lparr>fdb := (fdb s)\<lparr>pr_jobs := t\<rparr>\<rparr>)"
| read_over: "thread s a = Free \<Longrightarrow> (\<forall>j. get_job (fdb s) i = Some j \<longrightarrow> job_status j \<in> {DONE, DEAD}) \<Longrightarrow>
    wstep cfg s (enter a (Done i) (fdb s) s)"
| read_spent: "thread s a = Free \<Longrightarrow> get_job (fdb s) i = Some j \<Longrightarrow> job_status j \<notin> {DONE, DEAD} \<Longrightarrow>
    max_attempts cfg \<le> attempts j \<Longrightarrow> wstep cfg s (enter a (Escalating i j) (fdb s) s)"
| read_open: "thread s a = Free \<Longrightarrow> get_job (fdb s) i = Some j \<Longrightarrow> job_status j \<notin> {DONE, DEAD} \<Longrightarrow>
    attempts j < max_attempts cfg \<Longrightarrow> wstep cfg s (enter a (Checked i) (fdb s) s)"
| escalated: "thread s a = Escalating i j \<Longrightarrow>
    wstep cfg s (enter a (Done i) (update_job i (\<lambda>_. True) (escalate_read (clk s) j) (fdb s)) s)"
| claim: "thread s a = Checked i \<Longrightarrow> now \<le> clk s \<Longrightarrow> claim_job cfg now (fdb s) i = (db', won) \<Longrightarrow>
    wstep cfg s (enter a (if won then Running i now else Done i) db' s)"
| work: "thread s a = Running i t \<Longrightarrow> wf_db db' \<Longrightarrow> pr_jobs db' = pr_jobs (fdb s) \<Longrightarrow>
    job_results db' = job_results (fdb s) \<Longrightarrow> wstep cfg s (s\<lparr>fdb := db'\<rparr>)"
| finish: "thread s a = Running i t \<Longrightarrow> wstep cfg s (enter a (Done i) (finish_job (clk s) summ (fdb s) i) s)"
| raises: "thread s a = Running i t \<Longrightarrow> wstep cfg s (enter a (Raised i t e) (fdb s) s)"
| release: "thread s a = Raised i t e \<Longrightarrow>
    wstep cfg s (enter a (Failing i e) (release_job t (clk s) e (fdb s) i) s)"
| release_fails: "thread s a = Raised i t e \<Longrightarrow> wstep cfg s (enter a (Failing i e) (fdb s) s)"
| mark: "thread s a = Failing i e \<Longrightarrow>
    wstep cfg s (hit i (enter a Free (update_job i (\<lambda>_. True) (mark_retry (clk s) e) (fdb s)) s))"
| mark_fails: "thread s a = Failing i e \<Longrightarrow> wstep cfg s (enter a Free (fdb s) s)"
| acked: "thread s a = Done i \<Longrightarrow> wstep cfg s (enter a Free (fdb s) s)"
| ack_fails: "thread s a = Done i \<Longrightarrow> wstep cfg s (enter a (Failing i e) (fdb s) s)"
| dies: "wstep cfg s (enter a Free (fdb s) s)"
| publishing: "publisher s k = None \<Longrightarrow>
    exec_job i (\<lambda>j. job_status j = JOB_PENDING) (\<lambda>j. j\<lparr>job_status := QUEUED, job_updated_at := clk s\<rparr>) (fdb s) = (db', n) \<Longrightarrow>
    wstep cfg s (s\<lparr>fdb := db', publisher := (publisher s)(k := if n = 0 then None else Some i)\<rparr>)"
| published: "publisher s k = Some i \<Longrightarrow>
    wstep cfg s (s\<lparr>fdb := update_job i (\<lambda>_. True) (record_published (clk s) m) (fdb s), publisher := (publisher s)(k := None)\<rparr>)"
| unpublished: "publisher s k = Some i \<Longrightarrow>
    wstep cfg s (hit i (s\<lparr>fdb := update_job i (\<lambda>_. True) (release_claim (clk s) e) (fdb s), publisher := (publisher s)(k := None)\<rparr>))"

inductive_cases wstepE: "wstep cfg s s'"

definition fresh_fleet :: "fleet \<Rightarrow> bool" where
  "fresh_fleet s \<longleftrightarrow> wf_db (fdb s) \<and> (\<forall>a. thread s a = Free) \<and> (\<forall>k. publisher s k = None) \<and> (\<forall>i. overridden s i = 0) \<and>
     (\<forall>j \<in> set (rows (pr_jobs (fdb s))). job_status j = DONE \<longrightarrow> job_id j \<in> set (map result_job_id (job_results (fdb s))))"

inductive fleet_run :: "settings \<Rightarrow> fleet \<Rightarrow> bool" for cfg where
  fresh: "fresh_fleet s \<Longrightarrow> fleet_run cfg s"
| step: "fleet_run cfg s \<Longrightarrow> wstep cfg s s' \<Longrightarrow> fleet_run cfg s'"

text \<open>Nobody runs a job for longer than the lease.\<close>

definition timely :: "settings \<Rightarrow> fleet \<Rightarrow> bool" where
  "timely cfg s \<longleftrightarrow> (\<forall>a i t. in_run (thread s a) i t \<longrightarrow> lease_cutoff cfg (clk s) \<le> t)"

inductive timely_run :: "settings \<Rightarrow> fleet \<Rightarrow> bool" for cfg where
  fresh: "fresh_fleet s \<Longrightarrow> timely_run cfg s"
| step: "timely_run cfg s \<Longrightarrow> wstep cfg s s' \<Longrightarrow> timely cfg s' \<Longrightarrow> timely_run cfg s'"



section \<open>The ledger\<close>

text \<open>Every statement leaves the tables well formed, and a \<open>DONE\<close> row has its entry in the ledger.\<close>

definition ledger_complete :: "database \<Rightarrow> bool" where
  "ledger_complete db \<longleftrightarrow> (\<forall>j \<in> set (rows (pr_jobs db)). job_status j = DONE \<longrightarrow> job_id j \<in> set (map result_job_id (job_results db)))"

definition never_done :: "(pr_job \<Rightarrow> pr_job) \<Rightarrow> bool" where
  "never_done f \<longleftrightarrow> (\<forall>j. job_id (f j) = job_id j \<and> job_dedup_key (f j) = job_dedup_key j \<and> (job_status (f j) = DONE \<longrightarrow> job_status j = DONE))"

lemma never_done_ops [simp]:
  "never_done (escalate_read now seen)" "never_done (take_claim now)" "never_done (mark_retry now e)"
  "never_done (record_published now m)" "never_done (release_claim now e)"
  "never_done (\<lambda>j. j\<lparr>job_status := QUEUED, job_updated_at := now\<rparr>)"
  "never_done (\<lambda>j. j\<lparr>job_status := QUEUED, job_last_error := x, job_updated_at := now\<rparr>)"
  by (simp_all add: never_done_def escalate_read_def take_claim_def mark_retry_def record_published_def release_claim_def)

definition sound_tables :: "database \<Rightarrow> bool" where
  "sound_tables db \<longleftrightarrow> wf_db db \<and> ledger_complete db"

lemma sound_update: "sound_tables db \<Longrightarrow> never_done f \<Longrightarrow> sound_tables (update_job i P f db)"
  by (force simp: sound_tables_def ledger_complete_def never_done_def update_job_def keeps_job_keys_def
      intro: wf_update_job [unfolded update_job_def])

lemma sound_claim: "sound_tables db \<Longrightarrow> sound_tables (fst (claim_job s now db i))"
  by (simp add: claim_job_def Let_def sound_update)

lemma sound_release: "sound_tables db \<Longrightarrow> sound_tables (release_job t later e db i)"
  by (simp add: release_job_def sound_update)

lemma sound_finish:
  assumes "sound_tables db" shows "sound_tables (finish_job later summ db i)"
proof -
  have "ledger_complete (finish_job later summ db i)"
    using assms by (auto simp: sound_tables_def ledger_complete_def finish_job_def update_job_def record_result_def)
  then show ?thesis using assms by (simp add: sound_tables_def wf_finish)
qed

lemma sound_accept:
  assumes "sound_tables db" and "job_status v = JOB_PENDING"
    and "insert_ignore_duplicates job_dedup_key (with_job_id v) (pr_jobs db) = (t, got)"
  shows "sound_tables (db\<lparr>pr_jobs := t\<rparr>)"
proof -
  have key: "job_dedup_key (with_job_id v i) = job_dedup_key v" "job_status (with_job_id v i) = JOB_PENDING" for i
    using assms(2) by (simp_all add: with_job_id_def)
  have "wf_table job_id job_dedup_key t"
    using assms(1,3) jobs.wf_insert [of "pr_jobs db" v]
    by (auto simp: insert_ignore_duplicates_def sound_tables_def key wf_dbD split: if_splits)
  then have "wf_db (db\<lparr>pr_jobs := t\<rparr>)" using assms(1) by (simp add: sound_tables_def wf_db_jobs)
  moreover have "ledger_complete (db\<lparr>pr_jobs := t\<rparr>)"
    using assms(1,3) by (auto simp: insert_ignore_duplicates_def sound_tables_def ledger_complete_def key split: if_splits)
  ultimately show ?thesis by (simp add: sound_tables_def)
qed

lemma step_sound:
  assumes "wstep cfg s s'" and "sound_tables (fdb s)"
  shows "sound_tables (fdb s')"
  using assms(1)
proof cases
  case (accept v t got)
  then show ?thesis using sound_accept [OF assms(2)] by simp
next
  case (claim a i now db' won)
  then show ?thesis using sound_claim [OF assms(2), of cfg now i] by simp
next
  case (work a i t db')
  then show ?thesis using assms(2) by (simp add: sound_tables_def ledger_complete_def)
qed (use assms(2) in \<open>auto simp: sound_update sound_release sound_finish\<close>)

lemma run_sound: "fleet_run cfg s \<Longrightarrow> sound_tables (fdb s)"
proof (induction rule: fleet_run.induct)
  case (fresh s)
  then show ?case by (simp add: fresh_fleet_def sound_tables_def ledger_complete_def)
qed (rule step_sound)

lemma timely_is_run: "timely_run cfg s \<Longrightarrow> fleet_run cfg s"
  by (induction rule: timely_run.induct) (auto intro: fleet_run.intros)


section \<open>The lease\<close>

text \<open>What a claim stamped \<open>t\<close> needs of its row so that nobody else can claim it in time.\<close>

definition guarded :: "int \<Rightarrow> pr_job \<Rightarrow> bool" where
  "guarded t j \<longleftrightarrow> job_status j = DEAD \<or> (job_status j = PROCESSING \<and> t \<le> job_updated_at j)"

lemma guarded_not_claimable: "guarded t j \<Longrightarrow> lease_cutoff cfg now \<le> t \<Longrightarrow> \<not> claimable cfg now j"
  by (auto simp: guarded_def claimable_def)

definition guards :: "database \<Rightarrow> int \<Rightarrow> int \<Rightarrow> bool" where
  "guards db i t \<longleftrightarrow> (\<exists>j. get_job db i = Some j \<and> guarded t j)"

definition leased :: "fleet \<Rightarrow> int \<Rightarrow> bool" where
  "leased s i \<longleftrightarrow> (\<forall>a b t u. in_run (thread s a) i t \<longrightarrow> in_run (thread s b) i u \<longrightarrow> a = b) \<and>
     (\<forall>a t. in_run (thread s a) i t \<longrightarrow> t \<le> clk s \<and> guards (fdb s) i t)"

lemma leasedD:
  assumes "leased s i" and "in_run (thread s a) i t"
  shows "in_run (thread s b) i u \<Longrightarrow> b = a" and "t \<le> clk s" and "guards (fdb s) i t"
  using assms unfolding leased_def by blast+

text \<open>A step that starts no run keeps the lease if it keeps the guard of those that go on.\<close>

lemma leased_keep:
  assumes "leased s i" and "\<And>a t. in_run (thread s' a) i t \<Longrightarrow> in_run (thread s a) i t" and "clk s \<le> clk s'"
    and "\<And>a t. in_run (thread s' a) i t \<Longrightarrow> guards (fdb s) i t \<Longrightarrow> t \<le> clk s \<Longrightarrow> guards (fdb s') i t"
  shows "leased s' i"
  using assms unfolding leased_def by (meson order_trans)

lemma guards_update:
  assumes "keeps_job_keys f" and "guards db i t" and "\<And>j. k = i \<Longrightarrow> P j \<Longrightarrow> guarded t j \<Longrightarrow> guarded t (f j)"
  shows "guards (update_job k P f db) i t"
proof -
  obtain j where j: "get_job db i = Some j" "guarded t j" using assms(2) by (auto simp: guards_def)
  then have "guarded t (if i = k \<and> P j then f j else j)" using assms(3) by auto
  then show ?thesis using j(1) assms(1) by (simp add: guards_def)
qed

lemma guards_other:
  assumes "keeps_job_keys f" and "k \<noteq> i"
  shows "guards (update_job k P f db) i t = guards db i t"
  using assms by (auto simp: guards_def)

lemma keys_read [simp]: "keeps_job_keys (escalate_read now j)"
  by (simp add: keeps_job_keys_def escalate_read_def)

lemma guards_results [simp]: "guards (db\<lparr>job_results := rs\<rparr>) i t = guards db i t"
  by (simp add: guards_def get_job_def)

lemma in_run_other: "in_run (((thread s)(a := p)) b) i t \<Longrightarrow> (\<And>u. \<not> in_run p i u) \<Longrightarrow> in_run (thread s b) i t \<and> b \<noteq> a"
  by (auto split: if_splits)

text \<open>The claim is the one step that starts a run; it cannot win a row somebody runs in time.\<close>

lemma leased_claim:
  assumes "leased s i" and "wf_db (fdb s)" and "timely cfg s" and "now \<le> clk s"
    and "claim_job cfg now (fdb s) k = (db', won)"
  shows "leased (enter a (if won then Running k now else Done k) db' s) i"
proof (cases "won \<and> k = i")
  case True
  obtain j where j: "get_job (fdb s) i = Some j" "claimable cfg now j"
    and db': "db' = update_job i (claimable cfg now) (take_claim now) (fdb s)"
    using assms(5) True rowcount_job [OF assms(2), of i "claimable cfg now"]
    by (auto simp: claim_job_def Let_def split: if_splits)
  have none: "\<not> in_run (thread s b) i t" for b t
  proof
    assume run: "in_run (thread s b) i t"
    have "lease_cutoff cfg now \<le> lease_cutoff cfg (clk s)" using assms(4) by (simp add: lease_cutoff_def)
    also have "\<dots> \<le> t" using assms(3) run by (simp add: timely_def)
    finally have "\<not> claimable cfg now j"
      using leasedD(3) [OF assms(1) run] j(1) guarded_not_claimable by (auto simp: guards_def)
    then show False using j(2) by contradiction
  qed
  have "guards db' i now"
    using j by (simp add: db' guards_def guarded_def take_claim_def)
  then show ?thesis using none True assms(4) by (auto simp: leased_def split: if_splits)
next
  case False
  show ?thesis
  proof (rule leased_keep [OF assms(1)])
    fix b t
    assume "in_run (thread (enter a (if won then Running k now else Done k) db' s) b) i t"
    then show "in_run (thread s b) i t" using False by (auto split: if_splits)
  next
    fix b t
    assume run: "guards (fdb s) i t" "t \<le> clk s"
      "in_run (thread (enter a (if won then Running k now else Done k) db' s) b) i t"
    then have old: "in_run (thread s b) i t" using False by (auto split: if_splits)
    have "lease_cutoff cfg now \<le> lease_cutoff cfg (clk s)" using assms(4) by (simp add: lease_cutoff_def)
    also have "\<dots> \<le> t" using assms(3) old by (simp add: timely_def)
    finally have "guarded t j \<Longrightarrow> \<not> claimable cfg now j" for j by (rule guarded_not_claimable [rotated])
    then show "guards (fdb (enter a (if won then Running k now else Done k) db' s)) i t"
      using run(1) assms(5) guards_update [of "take_claim now" "fdb s" i t k "claimable cfg now"]
      by (auto simp: claim_job_def Let_def split: if_splits)
  qed simp
qed

text \<open>A run that ends frees its row: nobody else was running it.\<close>

lemma leased_end:
  assumes "leased s i" and "in_run (thread s a) k t" and "\<And>x u. \<not> in_run p x u"
    and "\<And>u. k \<noteq> i \<Longrightarrow> guards (fdb s) i u \<Longrightarrow> guards db i u"
  shows "leased (enter a p db s) i"
proof (rule leased_keep [OF assms(1)])
  fix b u
  assume "in_run (thread (enter a p db s) b) i u"
  then have b: "in_run (thread s b) i u" "b \<noteq> a" using assms(3) by (auto split: if_splits)
  then show "in_run (thread s b) i u" by simp
  assume "guards (fdb s) i u"
  moreover have "k \<noteq> i" using leasedD(1) [OF assms(1) _ b(1)] assms(2) b by blast
  ultimately show "guards (fdb (enter a p db s)) i u" using assms(4) by simp
qed simp

lemma leased_quiet:
  assumes "leased s i" and "\<And>x u. \<not> in_run p x u"
    and "\<And>u. guards (fdb s) i u \<Longrightarrow> u \<le> clk s \<Longrightarrow> guards db i u"
  shows "leased (enter a p db s) i"
  by (rule leased_keep [OF assms(1)]) (use assms(2,3) in \<open>auto split: if_splits\<close>)

lemma leased_idle: "leased s i \<Longrightarrow> (\<And>x u. \<not> in_run p x u) \<Longrightarrow> leased (enter a p (fdb s) s) i"
  by (rule leased_quiet)

lemma hit_free: "overridden (hit i s) i = 0 \<Longrightarrow> \<not> in_run (thread s b) i t"
  by (auto simp: hit_def split: if_splits)

lemma leased_hit:
  assumes "overridden (hit k s) i = 0" and "k \<noteq> i \<Longrightarrow> leased s i"
  shows "leased (hit k s) i"
proof (cases "k = i")
  case True
  then show ?thesis using hit_free assms(1) by (auto simp: leased_def)
qed (use assms(2) in \<open>simp add: leased_def\<close>)

lemma overridden_hit: "k \<noteq> i \<Longrightarrow> overridden (hit k s) i = overridden s i"
  by (simp add: hit_def)

lemma guards_finish: "k \<noteq> i \<Longrightarrow> guards (finish_job later summ db k) i t = guards db i t"
  by (simp add: finish_job_def guards_other keeps_job_keys_def)

lemma guards_release: "k \<noteq> i \<Longrightarrow> guards (release_job u later e db k) i t = guards db i t"
  by (simp add: release_job_def guards_other)

lemma guards_accept:
  assumes "wf_db db" and "insert_ignore_duplicates job_dedup_key (with_job_id v) (pr_jobs db) = (t, got)" and "guards db i u"
  shows "guards (db\<lparr>pr_jobs := t\<rparr>) i u"
proof -
  obtain j where j: "get_job db i = Some j" "guarded u j" using assms(3) by (auto simp: guards_def)
  have "job_id j < seq (pr_jobs db)" "job_id j = i"
    using j(1) get_job_iff [OF assms(1)] wf_dbD(1) [OF assms(1)] by (auto simp: wf_table_def)
  then have "i \<noteq> seq (pr_jobs db)" by simp
  then have "get_job (db\<lparr>pr_jobs := insert_row (with_job_id v) (pr_jobs db)\<rparr>) i = Some j"
    using j(1) jobs.lookup_insert [OF wf_dbD(1) [OF assms(1)], of i v] by (simp add: get_job_def)
  moreover have "t = pr_jobs db \<or> t = insert_row (with_job_id v) (pr_jobs db)"
    using assms(2) by (simp add: insert_ignore_duplicates_def split: if_splits)
  ultimately have "get_job (db\<lparr>pr_jobs := t\<rparr>) i = Some j"
    using j(1) by (elim disjE) (simp_all add: get_job_def)
  then show ?thesis using j(2) by (simp add: guards_def)
qed

lemma step_leased:
  assumes "wstep cfg s s'" and "sound_tables (fdb s)" and "timely cfg s"
    and inv: "overridden s i = 0 \<Longrightarrow> leased s i" and zero: "overridden s' i = 0"
  shows "leased s' i"
proof -
  have wf: "wf_db (fdb s)" using assms(2) by (simp add: sound_tables_def)
  have same: "leased s i" if "overridden s' = overridden s" using that inv zero by simp
  from assms(1) show ?thesis
  proof cases
    case (tick d)
    show ?thesis by (rule leased_keep [OF same]) (simp_all add: tick)
  next
    case (accept v t got)
    show ?thesis by (rule leased_keep [OF same]) (simp_all add: accept(1) guards_accept [OF wf accept(3)])
  next
    case (escalated a k j)
    show ?thesis unfolding escalated(1)
      by (rule leased_quiet [OF same])
        (simp_all add: escalated(1) guards_update guarded_def escalate_read_def)
  next
    case (claim a k now db' won)
    show ?thesis unfolding claim(1)
      by (rule leased_claim [OF same wf assms(3) claim(3,4)]) (simp add: claim(1))
  next
    case (work a k t db')
    show ?thesis by (rule leased_keep [OF same]) (simp_all add: work(1,4) guards_def get_job_def)
  next
    case (finish a k t summ)
    show ?thesis unfolding finish(1)
      by (rule leased_end [OF same, of a k t]) (simp_all add: finish(1,2) guards_finish)
  next
    case (raises a k t e)
    have run: "in_run (thread s b) i u" if "in_run (thread s' b) i u" for b u
      using that raises(2) by (simp add: raises(1) split: if_splits)
    show ?thesis by (rule leased_keep [OF same]) (use run in \<open>simp_all add: raises(1)\<close>)
  next
    case (release a k t e)
    show ?thesis unfolding release(1)
      by (rule leased_end [OF same, of a k t]) (simp_all add: release(1,2) guards_release)
  next
    case (release_fails a k t e)
    show ?thesis unfolding release_fails(1)
      by (rule leased_end [OF same, of a k t]) (simp_all add: release_fails(1,2))
  next
    case (mark a k e)
    show ?thesis unfolding mark(1)
    proof (rule leased_hit)
      assume "k \<noteq> i"
      moreover from this have "leased s i" using inv zero by (simp add: mark(1) overridden_hit)
      ultimately show "leased (enter a Free (update_job k (\<lambda>_. True) (mark_retry (clk s) e) (fdb s)) s) i"
        by (simp add: leased_quiet guards_other)
    qed (use zero in \<open>simp add: mark(1)\<close>)
  next
    case (unpublished p k e)
    show ?thesis unfolding unpublished(1)
    proof (rule leased_hit)
      assume "k \<noteq> i"
      moreover from this have "leased s i" using inv zero by (simp add: unpublished(1) overridden_hit)
      then show "leased (s\<lparr>fdb := update_job k (\<lambda>_. True) (release_claim (clk s) e) (fdb s), publisher := (publisher s)(p := None)\<rparr>) i"
        by (rule leased_keep) (simp_all add: guards_other \<open>k \<noteq> i\<close> keeps_job_keys_def release_claim_def)
    qed (use zero in \<open>simp add: unpublished(1)\<close>)
  next
    case (publishing p k db' n)
    have db': "db' = update_job k (\<lambda>j. job_status j = JOB_PENDING) (\<lambda>j. j\<lparr>job_status := QUEUED, job_updated_at := clk s\<rparr>) (fdb s)"
      using publishing(3) by simp
    show ?thesis
      by (rule leased_keep [OF same])
        (simp_all add: publishing(1) db', rule guards_update, simp_all add: keeps_job_keys_def guarded_def)
  next
    case (published p k m)
    show ?thesis
      by (rule leased_keep [OF same])
        (simp_all add: published(1), rule guards_update, auto simp: keeps_job_keys_def guarded_def record_published_def)
  next
    case (read_over a k)
    show ?thesis unfolding read_over(1) by (rule leased_idle [OF same]) (simp_all add: read_over(1))
  next
    case (read_spent a k j)
    show ?thesis unfolding read_spent(1) by (rule leased_idle [OF same]) (simp_all add: read_spent(1))
  next
    case (read_open a k j)
    show ?thesis unfolding read_open(1) by (rule leased_idle [OF same]) (simp_all add: read_open(1))
  next
    case (mark_fails a k e)
    show ?thesis unfolding mark_fails(1) by (rule leased_idle [OF same]) (simp_all add: mark_fails(1))
  next
    case (acked a k)
    show ?thesis unfolding acked(1) by (rule leased_idle [OF same]) (simp_all add: acked(1))
  next
    case (ack_fails a k e)
    show ?thesis unfolding ack_fails(1) by (rule leased_idle [OF same]) (simp_all add: ack_fails(1))
  next
    case (dies a)
    show ?thesis unfolding dies(1) by (rule leased_idle [OF same]) (simp_all add: dies(1))
  qed
qed

lemma timely_run_facts:
  assumes "timely_run cfg s"
  shows "sound_tables (fdb s)" and "timely cfg s" and "overridden s i = 0 \<Longrightarrow> leased s i"
proof -
  from assms have "timely cfg s \<and> (\<forall>i. overridden s i = 0 \<longrightarrow> leased s i)"
  proof (induction rule: timely_run.induct)
    case (fresh s)
    then show ?case by (simp add: fresh_fleet_def timely_def leased_def)
  next
    case (step s s')
    then show ?case using step_leased [OF step(2) run_sound [OF timely_is_run [OF step(1)]]] by blast
  qed
  then show "timely cfg s" "overridden s i = 0 \<Longrightarrow> leased s i" by simp_all
  show "sound_tables (fdb s)" by (rule run_sound [OF timely_is_run [OF assms]])
qed


lemma one_by_key: "distinct (map f xs) \<Longrightarrow> k \<in> set (map f xs) \<Longrightarrow> length (filter (\<lambda>x. f x = k) xs) = 1"
proof (induction xs)
  case (Cons x xs)
  show ?case
  proof (cases "f x = k")
    case True
    then have "filter (\<lambda>x. f x = k) xs = []" using Cons.prems(1) by (simp add: filter_empty_conv image_iff) metis
    then show ?thesis using True by simp
  qed (use Cons in simp)
qed simp


section \<open>Properties\<close>


text \<open>
  C23. However often a job is delivered, and however long its runs take: once it is \<open>DONE\<close>, the ledger has exactly
  one entry for it.
\<close>

theorem one_result_per_job:
  assumes "fleet_run cfg s" and "get_job (fdb s) i = Some j" and "job_status j = DONE"
  shows "length (filter (\<lambda>r. result_job_id r = i) (job_results (fdb s))) = 1"
proof -
  have wf: "wf_db (fdb s)" and led: "ledger_complete (fdb s)" using run_sound [OF assms(1)] by (simp_all add: sound_tables_def)
  have "i \<in> set (map result_job_id (job_results (fdb s)))"
    using led assms(2,3) get_job_iff [OF wf] by (auto simp: ledger_complete_def)
  then show ?thesis by (rule one_by_key [rotated]) (rule wf_dbD(4) [OF wf])
qed


section \<open>A message is a run of the protocol\<close>

abbreviation steps :: "settings \<Rightarrow> fleet \<Rightarrow> fleet \<Rightarrow> bool" where "steps cfg \<equiv> (wstep cfg)\<^sup>*\<^sup>*"

lemma steps_then: "steps cfg s s1 \<Longrightarrow> wstep cfg s1 s2 \<Longrightarrow> steps cfg s s2"
  by (rule rtranclp.rtrancl_into_rtrancl)

text \<open>From the end of the work to the next message.\<close>

lemma run_ack:
  assumes "thread s a = Done i" and c: "clk s = c" "fdb s = db"
  shows "\<exists>s'. steps cfg s s' \<and> thread s' = (thread s)(a := Free) \<and> clk s' = c \<and>
    fdb s' = (case r of Inr _ \<Rightarrow> db | Inl e \<Rightarrow> update_job i (\<lambda>_. True) (mark_retry c e) db)"
proof (cases r)
  case (Inr n)
  have "wstep cfg s (enter a Free (fdb s) s)" using assms(1) by (rule acked)
  then show ?thesis using Inr c by (intro exI [of _ "enter a Free (fdb s) s"]) auto
next
  case (Inl e)
  let ?s1 = "enter a (Failing i e) (fdb s) s"
  have "wstep cfg s ?s1" using assms(1) by (rule ack_fails)
  moreover have "wstep cfg ?s1 (hit i (enter a Free (update_job i (\<lambda>_. True) (mark_retry (clk ?s1) e) (fdb ?s1)) ?s1))"
    by (rule mark) simp
  ultimately show ?thesis using Inl c
    by (intro exI [of _ "hit i (enter a Free (update_job i (\<lambda>_. True) (mark_retry (clk ?s1) e) (fdb ?s1)) ?s1)"]) auto
qed

lemma run_failure:
  assumes "thread s a = Running i t"
  shows "\<exists>s'. steps cfg s s' \<and> thread s' = (thread s)(a := Free) \<and> clk s' = clk s \<and>
    fdb s' = update_job i (\<lambda>_. True) (mark_retry (clk s) e) (release_job t (clk s) e (fdb s) i)"
proof -
  let ?s1 = "enter a (Raised i t e) (fdb s) s"
  let ?s2 = "enter a (Failing i e) (release_job t (clk ?s1) e (fdb ?s1) i) ?s1"
  let ?s3 = "hit i (enter a Free (update_job i (\<lambda>_. True) (mark_retry (clk ?s2) e) (fdb ?s2)) ?s2)"
  have "wstep cfg s ?s1" using assms by (rule raises)
  moreover have "wstep cfg ?s1 ?s2" by (rule release) simp
  moreover have "wstep cfg ?s2 ?s3" by (rule mark) simp
  ultimately have "steps cfg s ?s3" by (meson rtranclp.rtrancl_refl steps_then)
  then show ?thesis by (intro exI [of _ ?s3]) simp
qed

lemma run_work:
  assumes "thread s a = Running i t" and c: "clk s = c" "\<And>p. (thread s)(a := p) = g(a := p)"
    and h: "wf_db db'" "pr_jobs db' = pr_jobs (fdb s)" "job_results db' = job_results (fdb s)"
  shows "\<exists>s'. steps cfg s s' \<and> clk s' = c \<and> (case r of
      Inl e \<Rightarrow> thread s' = g(a := Free) \<and>
        fdb s' = update_job i (\<lambda>_. True) (mark_retry c e) (release_job t c e db' i)
    | Inr summ \<Rightarrow> thread s' = g(a := Done i) \<and> fdb s' = finish_job c summ db' i)"
proof -
  let ?s1 = "s\<lparr>fdb := db'\<rparr>"
  have one: "wstep cfg s ?s1" by (rule work [OF assms(1) h])
  show ?thesis
  proof (cases r)
    case (Inl e)
    obtain s' where "steps cfg ?s1 s'" "thread s' = g(a := Free)" "clk s' = c"
      "fdb s' = update_job i (\<lambda>_. True) (mark_retry c e) (release_job t c e db' i)"
      using run_failure [of ?s1 a i t cfg e] assms(1) c by auto
    then show ?thesis using one Inl by (auto intro: converse_rtranclp_into_rtranclp)
  next
    case (Inr summ)
    have "wstep cfg ?s1 (enter a (Done i) (finish_job (clk ?s1) summ (fdb ?s1) i) ?s1)"
      by (rule finish) (simp add: assms(1))
    then have "steps cfg s (enter a (Done i) (finish_job (clk s) summ db' i) ?s1)"
      using one by (auto intro: converse_rtranclp_into_rtranclp)
    then show ?thesis using Inr c by (intro exI [of _ "enter a (Done i) (finish_job (clk s) summ db' i) ?s1"]) simp
  qed
qed

text \<open>The statements up to the handler, or to the end of a call that does not run it.\<close>

lemma run_claim:
  assumes "wf_db (fdb s)" and "thread s a = Free"
  shows "(\<exists>s'. steps cfg s s' \<and> clk s' = clk s \<and> thread s' = (thread s)(a := Done i) \<and>
       process_job cfg (clk s) later handler i (fdb s) = (fdb s', Ret True)) \<or>
    (\<exists>s' job. steps cfg s s' \<and> clk s' = clk s \<and> thread s' = (thread s)(a := Running i (clk s)) \<and> wf_db (fdb s') \<and>
       get_job (fdb s') i = Some job \<and>
       process_job cfg (clk s) later handler i (fdb s) = (case handler job (fdb s') of
         (db2, Inl e) \<Rightarrow> (release_job (clk s) later e db2 i, Raise e)
       | (db2, Inr summ) \<Rightarrow> (finish_job later summ db2 i, Ret True)))"
proof (cases "get_job (fdb s) i")
  case None
  then have "wstep cfg s (enter a (Done i) (fdb s) s)" using assms(2) by (intro read_over) simp_all
  then show ?thesis using None
    by (intro disjI1 exI [of _ "enter a (Done i) (fdb s) s"]) (auto simp: process_job_def pre_check_def)
next
  case (Some job)
  note code = process_job_branches [OF assms(1) Some, of cfg "clk s" later handler]
  consider (over) "job_status job \<in> {DONE, DEAD}"
    | (spent) "job_status job \<notin> {DONE, DEAD}" "max_attempts cfg \<le> attempts job"
    | (ready) "job_status job \<notin> {DONE, DEAD}" "attempts job < max_attempts cfg" by fastforce
  then show ?thesis
  proof cases
    case over
    then have "wstep cfg s (enter a (Done i) (fdb s) s)" using assms(2) Some by (intro read_over) simp_all
    then show ?thesis using over by (intro disjI1 exI [of _ "enter a (Done i) (fdb s) s"]) (auto simp: code)
  next
    case spent
    let ?s1 = "enter a (Escalating i job) (fdb s) s"
    let ?s2 = "enter a (Done i) (update_job i (\<lambda>_. True) (escalate_read (clk ?s1) job) (fdb ?s1)) ?s1"
    have "wstep cfg s ?s1" by (rule read_spent [OF assms(2) Some spent])
    moreover have "wstep cfg ?s1 ?s2" by (rule escalated) simp
    ultimately have "steps cfg s ?s2" by auto
    moreover have "update_job i (\<lambda>_. True) (escalate (clk s)) (fdb s) = update_job i (\<lambda>_. True) (escalate_read (clk s) job) (fdb s)"
    proof -
      have "j = job" if "j \<in> set (rows (pr_jobs (fdb s)))" "job_id j = i" for j
        using that Some get_job_iff [OF assms(1)] jobs.same_id [OF wf_dbD(1) [OF assms(1)]] by auto
      then show ?thesis by (auto simp: update_job_def update_where_def escalate_def escalate_read_def)
    qed
    ultimately show ?thesis using spent by (intro disjI1 exI [of _ ?s2]) (simp add: code)
  next
    case ready
    let ?s1 = "enter a (Checked i) (fdb s) s"
    let ?db = "if claimable cfg (clk s) job then update_job i (claimable cfg (clk s)) (take_claim (clk s)) (fdb s) else fdb s"
    let ?s2 = "enter a (if claimable cfg (clk s) job then Running i (clk s) else Done i) ?db ?s1"
    have "wstep cfg s ?s1" by (rule read_open [OF assms(2) Some ready])
    moreover have "wstep cfg ?s1 ?s2"
      by (rule claim) (simp_all add: claim_job_eq [OF assms(1) Some])
    ultimately have st: "steps cfg s ?s2" by auto
    show ?thesis
    proof (cases "claimable cfg (clk s) job")
      case True
      then show ?thesis using st ready Some assms(1)
        by (intro disjI2 exI [of _ ?s2] exI [of _ "take_claim (clk s) job"]) (auto simp: code wf_update_job)
    next
      case False
      then show ?thesis using st ready by (intro disjI1 exI [of _ ?s2]) (auto simp: code)
    qed
  qed
qed

text \<open>
  The code of \<open>_handle_message\<close>, whose database effect theory \<open>Worker\<close> defines as one function, is a run of this
  protocol: for every handler that leaves the jobs and the ledger alone, the statements of one thread in order
  give exactly that effect and leave every other thread where it was.
\<close>

lemma message_run:
  assumes "wf_db (fdb s)" and "thread s a = Free" and "message_job msg = Ret i" and "0 \<le> d"
    and h: "\<And>j db. wf_db db \<Longrightarrow> wf_db (fst (handler j db)) \<and> pr_jobs (fst (handler j db)) = pr_jobs db \<and>
      job_results (fst (handler j db)) = job_results db"
  shows "\<exists>s'. (wstep cfg)\<^sup>*\<^sup>* s s' \<and> thread s' = thread s \<and> clk s' = clk s + d \<and>
    fdb s' = fst (handle_message cfg (clk s) (clk s + d) ack handler msg (fdb s))"
proof -
  have idle: "(thread s)(a := Free) = thread s" using assms(2) by auto
  from run_claim [OF assms(1,2), of cfg i "clk s + d" handler] show ?thesis
  proof (elim disjE exE conjE)
    fix s1
    assume s1: "steps cfg s s1" "clk s1 = clk s" "thread s1 = (thread s)(a := Done i)"
      "process_job cfg (clk s) (clk s + d) handler i (fdb s) = (fdb s1, Ret True)"
    let ?s2 = "s1\<lparr>clk := clk s1 + d\<rparr>"
    have two: "steps cfg s ?s2" using s1(1) tick [OF assms(4)] by (rule steps_then)
    obtain s3 where s3: "steps cfg ?s2 s3" "thread s3 = thread s" "clk s3 = clk s + d"
      "fdb s3 = (case ack (msg_id msg) of Inr _ \<Rightarrow> fdb s1 | Inl e \<Rightarrow> update_job i (\<lambda>_. True) (mark_retry (clk s + d) e) (fdb s1))"
      using run_ack [of ?s2 a i "clk s + d" "fdb s1" cfg "ack (msg_id msg)"] by (auto simp: s1 idle)
    moreover have "steps cfg s s3" using two s3(1) by simp
    ultimately show ?thesis by (intro exI [of _ s3]) (simp add: handle_message_def assms(3) s1(4) split: sum.split)
  next
    fix s1 job
    assume s1: "steps cfg s s1" "clk s1 = clk s" "thread s1 = (thread s)(a := Running i (clk s))" "wf_db (fdb s1)"
      "get_job (fdb s1) i = Some job"
      and code: "process_job cfg (clk s) (clk s + d) handler i (fdb s) = (case handler job (fdb s1) of
         (db2, Inl e) \<Rightarrow> (release_job (clk s) (clk s + d) e db2 i, Raise e)
       | (db2, Inr summ) \<Rightarrow> (finish_job (clk s + d) summ db2 i, Ret True))"
    let ?s2 = "s1\<lparr>clk := clk s1 + d\<rparr>"
    have two: "steps cfg s ?s2" using s1(1) tick [OF assms(4)] by (rule steps_then)
    obtain db2 r where run: "handler job (fdb s1) = (db2, r)" by (cases "handler job (fdb s1)")
    have "wf_db db2" "pr_jobs db2 = pr_jobs (fdb s1)" "job_results db2 = job_results (fdb s1)"
      using h [OF s1(4), of job] by (simp_all add: run)
    from run_work [of ?s2 a i "clk s" "clk s + d" "thread s" db2 cfg r] obtain s3 where
      s3: "steps cfg ?s2 s3" "clk s3 = clk s + d" "case r of
        Inl e \<Rightarrow> thread s3 = (thread s)(a := Free) \<and>
          fdb s3 = update_job i (\<lambda>_. True) (mark_retry (clk s + d) e) (release_job (clk s) (clk s + d) e db2 i)
      | Inr summ \<Rightarrow> thread s3 = (thread s)(a := Done i) \<and> fdb s3 = finish_job (clk s + d) summ db2 i"
      using s1 run \<open>wf_db db2\<close> \<open>pr_jobs db2 = _\<close> \<open>job_results db2 = _\<close> by auto
    have three: "steps cfg s s3" using two s3(1) by simp
    show ?thesis
    proof (cases r)
      case (Inl e)
      then show ?thesis using three s3(2,3)
        by (intro exI [of _ s3]) (simp add: handle_message_def assms(3) code run idle)
    next
      case (Inr summ)
      then have t3: "thread s3 = (thread s)(a := Done i)" "fdb s3 = finish_job (clk s + d) summ db2 i" using s3(3) by simp_all
      obtain s4 where s4: "steps cfg s3 s4" "thread s4 = thread s" "clk s4 = clk s + d"
        "fdb s4 = (case ack (msg_id msg) of Inr _ \<Rightarrow> fdb s3 | Inl e \<Rightarrow> update_job i (\<lambda>_. True) (mark_retry (clk s + d) e) (fdb s3))"
        using run_ack [of s3 a i "clk s + d" "fdb s3" cfg "ack (msg_id msg)"] by (auto simp: t3 s3(2) idle)
      moreover have "steps cfg s s4" using three s4(1) by simp
      ultimately show ?thesis using t3(2)
        by (intro exI [of _ s4]) (simp add: handle_message_def assms(3) code run Inr split: sum.split)
    qed
  qed
qed


section \<open>What the lease does not cover\<close>

text \<open>Runs in which no time passes, for the examples.\<close>

definition live :: "fleet \<Rightarrow> bool" where
  "live s \<longleftrightarrow> timely_run default_settings s \<and> (\<forall>a i t. in_run (thread s a) i t \<longrightarrow> t = clk s)"

lemma live_step:
  assumes "live s" and "wstep default_settings s s'" and "\<And>a i t. in_run (thread s' a) i t \<Longrightarrow> t = clk s'"
  shows "live s'"
proof -
  have "timely default_settings s'"
    using assms(3) by (auto simp: timely_def lease_cutoff_def default_settings_def)
  then show ?thesis using assms by (auto simp: live_def intro: timely_run.step)
qed

lemma live_read:
  assumes "live s" and "thread s a = Free" and "get_job (fdb s) i = Some j" and "job_status j = QUEUED" and "attempts j = 0"
  obtains s' where "live s'" "thread s' = (thread s)(a := Checked i)" "fdb s' = fdb s" "clk s' = clk s" "overridden s' = overridden s"
proof -
  have "wstep default_settings s (enter a (Checked i) (fdb s) s)"
    using assms by (intro read_open [of s a i j]) (simp_all add: default_settings_def)
  then have "live (enter a (Checked i) (fdb s) s)"
    by (rule live_step [OF assms(1)]) (use assms(1) in \<open>auto simp: live_def split: if_splits\<close>)
  then show ?thesis by (rule that) simp_all
qed

lemma live_claim:
  assumes "live s" and "thread s a = Checked i" and "get_job (fdb s) i = Some j" and "job_status j = QUEUED"
  obtains s' where "live s'" "thread s' = (thread s)(a := Running i (clk s))" "get_job (fdb s') i = Some (take_claim (clk s) j)"
    "clk s' = clk s" "overridden s' = overridden s"
proof -
  let ?db = "update_job i (claimable default_settings (clk s)) (take_claim (clk s)) (fdb s)"
  have wf: "wf_db (fdb s)" using timely_run_facts(1) assms(1) by (auto simp: live_def sound_tables_def)
  have c: "claimable default_settings (clk s) j" using assms(4) by (simp add: claimable_def)
  then have "claim_job default_settings (clk s) (fdb s) i = (?db, True)" by (simp add: claim_job_eq [OF wf assms(3)])
  from claim [OF assms(2) _ this] have "wstep default_settings s (enter a (Running i (clk s)) ?db s)" by simp
  then have "live (enter a (Running i (clk s)) ?db s)"
    by (rule live_step [OF assms(1)]) (use assms(1) in \<open>auto simp: live_def split: if_splits\<close>)
  then show ?thesis by (rule that) (use assms(3) c in simp_all)
qed

lemma live_fail:
  assumes "live s" and "thread s a = Running i (clk s)" and "get_job (fdb s) i = Some j"
    and "job_status j = PROCESSING" and "job_updated_at j = clk s"
  obtains s' j' where "live s'" "thread s' = (thread s)(a := Failing i e)" "get_job (fdb s') i = Some j'" "job_status j' = QUEUED"
    "clk s' = clk s" "overridden s' = overridden s"
proof -
  let ?s1 = "enter a (Raised i (clk s) e) (fdb s) s"
  let ?s2 = "enter a (Failing i e) (release_job (clk s) (clk ?s1) e (fdb ?s1) i) ?s1"
  have "wstep default_settings s ?s1" using assms(2) by (rule raises)
  then have l1: "live ?s1"
    by (rule live_step [OF assms(1)]) (use assms(1) in \<open>auto simp: live_def split: if_splits\<close>)
  have "wstep default_settings ?s1 ?s2" by (rule release) simp
  then have "live ?s2"
    by (rule live_step [OF l1]) (use assms(1) in \<open>auto simp: live_def split: if_splits\<close>)
  moreover have "get_job (fdb ?s2) i = Some (j\<lparr>job_status := QUEUED, job_last_error := Some (exc_repr e), job_updated_at := clk s\<rparr>)"
    using assms(3-5) by (simp add: release_job_def)
  ultimately show ?thesis
    using that [of ?s2 "j\<lparr>job_status := QUEUED, job_last_error := Some (exc_repr e), job_updated_at := clk s\<rparr>"] by simp
qed

lemma live_mark:
  assumes "live s" and "thread s a = Failing i e" and "get_job (fdb s) i = Some j"
  obtains s' j' where "live s'" "thread s' = (thread s)(a := Free)" "get_job (fdb s') i = Some j'" "job_status j' = QUEUED" "clk s' = clk s"
proof -
  let ?s1 = "hit i (enter a Free (update_job i (\<lambda>_. True) (mark_retry (clk s) e) (fdb s)) s)"
  have "wstep default_settings s ?s1" using assms(2) by (rule mark)
  then have "live ?s1"
    by (rule live_step [OF assms(1)]) (use assms(1) in \<open>auto simp: live_def split: if_splits\<close>)
  moreover have "get_job (fdb ?s1) i = Some (mark_retry (clk s) e j)" using assms(3) by simp
  ultimately show ?thesis using that [of ?s1 "mark_retry (clk s) e j"] by (simp add: mark_retry_def)
qed

definition demo_fleet :: fleet where
  "demo_fleet = \<lparr>fdb = worker_db QUEUED, thread = (\<lambda>_. Free), publisher = (\<lambda>_. None), clk = 2, overridden = (\<lambda>_. 0)\<rparr>"

lemma demo_fleet_live: "live demo_fleet"
proof -
  have "fresh_fleet demo_fleet"
    by (simp add: fresh_fleet_def demo_fleet_def) (simp add: worker_db_def worker_job_def empty_db_def demo_job_def)
  then show ?thesis by (simp add: live_def timely_run.fresh) (simp add: demo_fleet_def)
qed

lemma demo_fleet_run:
  obtains s where "live s" "thread s = (\<lambda>_. Free)(2 := Checked 1, 1 := Checked 1, 0 := Running 1 2)" "clk s = 2"
    "overridden s = (\<lambda>_. 0)" "get_job (fdb s) 1 = Some (take_claim 2 (worker_job QUEUED))"
proof -
  have d: "get_job (fdb demo_fleet) 1 = Some (worker_job QUEUED)" "clk demo_fleet = 2" "thread demo_fleet = (\<lambda>_. Free)"
    "overridden demo_fleet = (\<lambda>_. 0)" by (simp_all add: demo_fleet_def)
  obtain s1 where s1: "live s1" "thread s1 = (thread demo_fleet)(2 := Checked 1)" "fdb s1 = fdb demo_fleet" "clk s1 = clk demo_fleet"
    "overridden s1 = overridden demo_fleet"
    by (rule live_read [OF demo_fleet_live, of 2 1 "worker_job QUEUED"]) (simp_all add: d)
  obtain s2 where s2: "live s2" "thread s2 = (thread s1)(1 := Checked 1)" "fdb s2 = fdb s1" "clk s2 = clk s1" "overridden s2 = overridden s1"
    by (rule live_read [OF s1(1), of 1 1 "worker_job QUEUED"]) (simp_all add: s1 d)
  obtain s3 where s3: "live s3" "thread s3 = (thread s2)(0 := Checked 1)" "fdb s3 = fdb s2" "clk s3 = clk s2" "overridden s3 = overridden s2"
    by (rule live_read [OF s2(1), of 0 1 "worker_job QUEUED"]) (simp_all add: s1 s2 d)
  obtain s4 where "live s4" "thread s4 = (thread s3)(0 := Running 1 (clk s3))" "get_job (fdb s4) 1 = Some (take_claim (clk s3) (worker_job QUEUED))"
    "clk s4 = clk s3" "overridden s4 = overridden s3"
    by (rule live_claim [OF s3(1), of 0 1 "worker_job QUEUED"]) (simp_all add: s1 s2 s3 d)
  then show ?thesis by (intro that [of s4]) (simp_all add: s1 s2 s3 d)
qed

text \<open>
  The error path undoes the exclusion without any time passing: the handler of one thread raises and its claim
  is handed back; a second thread claims the row; the first then sets it to \<open>QUEUED\<close> without looking, and a third
  claims it while the second is running it.
\<close>

theorem retry_mark_breaks_claim:
  "\<exists>s. timely_run default_settings s \<and> in_run (thread s 1) 1 2 \<and> in_run (thread s 2) 1 2"
proof -
  obtain s where s: "live s" "thread s = (\<lambda>_. Free)(2 := Checked 1, 1 := Checked 1, 0 := Running 1 2)" "clk s = 2"
    "overridden s = (\<lambda>_. 0)" "get_job (fdb s) 1 = Some (take_claim 2 (worker_job QUEUED))" by (rule demo_fleet_run)
  obtain s1 j1 where s1: "live s1" "thread s1 = (thread s)(0 := Failing 1 (Exc HTTPError []))" "get_job (fdb s1) 1 = Some j1"
    "job_status j1 = QUEUED" "clk s1 = clk s" "overridden s1 = overridden s"
    by (rule live_fail [OF s(1), of 0 1 "take_claim 2 (worker_job QUEUED)"]) (simp_all add: s take_claim_def)
  obtain s2 where s2: "live s2" "thread s2 = (thread s1)(1 := Running 1 (clk s1))" "get_job (fdb s2) 1 = Some (take_claim (clk s1) j1)"
    "clk s2 = clk s1" "overridden s2 = overridden s1"
    by (rule live_claim [OF s1(1), of 1 1 j1]) (simp_all add: s s1)
  obtain s3 j3 where s3: "live s3" "thread s3 = (thread s2)(0 := Free)" "get_job (fdb s3) 1 = Some j3" "job_status j3 = QUEUED" "clk s3 = clk s2"
    by (rule live_mark [OF s2(1), of 0 1 "Exc HTTPError []"]) (simp_all add: s s1 s2)
  obtain s4 where "live s4" "thread s4 = (thread s3)(2 := Running 1 (clk s3))"
    by (rule live_claim [OF s3(1), of 2 1 j3]) (simp_all add: s s1 s2 s3)
  then show ?thesis by (intro exI [of _ s4]) (simp add: live_def s s1 s2 s3)
qed


theorem one_result_per_job_witness:
  "\<exists>s. fleet_run default_settings s \<and> length (filter (\<lambda>r. result_job_id r = 1) (job_results (fdb s))) = 1"
proof -
  obtain s where s: "live s" "thread s = (\<lambda>_. Free)(2 := Checked 1, 1 := Checked 1, 0 := Running 1 2)" "clk s = 2"
    "overridden s = (\<lambda>_. 0)" "get_job (fdb s) 1 = Some (take_claim 2 (worker_job QUEUED))" by (rule demo_fleet_run)
  let ?s1 = "enter 0 (Done 1) (finish_job (clk s) ''ok'' (fdb s) 1) s"
  have "wstep default_settings s ?s1" by (rule finish) (simp add: s)
  moreover have "fleet_run default_settings s" by (rule timely_is_run) (use s(1) in \<open>simp add: live_def\<close>)
  ultimately have r: "fleet_run default_settings ?s1" by (rule fleet_run.step [rotated])
  have "get_job (fdb ?s1) 1 = Some ((take_claim 2 (worker_job QUEUED))\<lparr>job_status := DONE, job_updated_at := clk s\<rparr>)"
    by (simp add: get_finish s)
  then have "length (filter (\<lambda>x. result_job_id x = 1) (job_results (fdb ?s1))) = 1"
    by (rule one_result_per_job [OF r]) simp
  with r show ?thesis by (intro exI [of _ ?s1] conjI)
qed


text \<open>One delivery of a waiting job, acknowledged by a reachable queue.\<close>

lemma message_outcome:
  assumes "wf_db db" and j: "get_job db i = Some j" and "message_job msg = Ret i"
    and h: "\<And>j d. pr_jobs (fst (handler j d)) = pr_jobs d"
  shows "\<exists>db2 acked j2. handle_message s now2 later (\<lambda>_. Ret n) handler msg db = (db2, Ret acked) \<and>
    get_job db2 i = Some j2 \<and>
    (job_status j = QUEUED \<and> attempts j < max_attempts s \<longrightarrow> attempts j2 = attempts j + 1 \<and>
      (if acked then job_status j2 = DONE \<and> (\<exists>res \<in> set (job_results db2). result_job_id res = i)
       else job_status j2 = QUEUED \<and> job_last_error j2 \<noteq> None))"
proof -
  let ?db1 = "update_job i (claimable s now2) (take_claim now2) db"
  obtain db2 r where run: "handler (take_claim now2 j) ?db1 = (db2, r)" by (cases "handler (take_claim now2 j) ?db1")
  have "get_job db2 i = get_job ?db1 i"
    using h [of "take_claim now2 j" ?db1] by (simp add: run get_job_def)
  then have j2: "get_job db2 i = Some (if claimable s now2 j then take_claim now2 j else j)" using j by simp
  note code = process_job_branches [OF assms(1) j, of s now2 later handler, unfolded run]
  show ?thesis
  proof (cases "job_status j = QUEUED \<and> attempts j < max_attempts s")
    case True
    then have c: "claimable s now2 j" by (simp add: claimable_def)
    show ?thesis
    proof (cases r)
      case (Inl e)
      let ?d = "update_job i (\<lambda>_. True) (mark_retry later e) (release_job now2 later e db2 i)"
      have "handle_message s now2 later (\<lambda>_. Ret n) handler msg db = (?d, Ret False)"
        using True c by (simp add: handle_message_def assms(3) code Inl)
      moreover obtain j3 where "get_job ?d i = Some j3" "attempts j3 = attempts j + 1" "job_status j3 = QUEUED"
        "job_last_error j3 = Some (exc_repr e)"
        using j2 c by (auto simp: release_job_def mark_retry_def take_claim_def)
      ultimately show ?thesis using j True
        by - (rule exI [of _ ?d], rule exI [of _ False], rule exI [of _ j3], simp)
    next
      case (Inr summ)
      let ?d = "finish_job later summ db2 i"
      have "handle_message s now2 later (\<lambda>_. Ret n) handler msg db = (?d, Ret True)"
        using True c by (simp add: handle_message_def assms(3) code Inr)
      moreover obtain j3 where "get_job ?d i = Some j3" "attempts j3 = attempts j + 1" "job_status j3 = DONE"
        using j2 c by (simp add: get_finish take_claim_def)
      moreover have "\<exists>res \<in> set (job_results ?d). result_job_id res = i"
        by (auto simp: results_finish record_result_def)
      ultimately show ?thesis using j True
        by - (rule exI [of _ ?d], rule exI [of _ True], rule exI [of _ j3], simp)
    qed
  next
    case False
    obtain d x where p: "process_job s now2 later handler i db = (d, x)" by (cases "process_job s now2 later handler i db")
    have "get_job (fst (process_job s now2 later handler i db)) i \<noteq> None"
      using j j2 by (simp add: code get_finish release_job_def split: sum.split)
    then have d: "get_job d i \<noteq> None" by (simp add: p)
    have "\<exists>d2 acked. handle_message s now2 later (\<lambda>_. Ret n) handler msg db = (d2, Ret acked) \<and> get_job d2 i \<noteq> None"
      using d by (cases x) (auto simp: handle_message_def assms(3) p)
    then obtain d2 acked where hm: "handle_message s now2 later (\<lambda>_. Ret n) handler msg db = (d2, Ret acked)"
      "get_job d2 i \<noteq> None" by blast
    then obtain j3 where j3: "get_job d2 i = Some j3" by blast
    show ?thesis
      using hm j3 j False
      by - (rule exI [of _ d2], rule exI [of _ acked], rule exI [of _ j3], blast)
  qed
qed

end
