(* ===== verification/Verify_Installation.thy ===== *)
theory Verify_Installation
  imports Github_App
begin

text \<open>
  The deployment check, \<^verbatim>\<open>src/scripts/verify_installation.py\<close>: one check after the other against the
  real service, a report of their outcomes, and an exit code. It uses the same authenticator as the
  service (theory \<open>Github_App\<close>).

  Parameters: sending a GET and a POST with the client of the script, decoding a PEM key and a JWT, the
  probe of the deployment, and the clock of the n-th reading. An exception that no check catches ends the
  script; the report is then lost, but what was posted stays posted.
\<close>

section \<open>Reports\<close>

datatype verdict_word = PASS | FAIL | SKIP | MANUAL

fun word_text :: "verdict_word \<Rightarrow> string" where
  "word_text PASS = ''PASS''"
| "word_text FAIL = ''FAIL''"
| "word_text SKIP = ''SKIP''"
| "word_text MANUAL = ''MANUAL''"

record check =
  check_name :: string
  check_status :: verdict_word
  check_detail :: string

definition failed :: "check \<Rightarrow> bool" where
  "failed c \<longleftrightarrow> check_status c = FAIL"

definition failures :: "check list \<Rightarrow> check list" where
  "failures cs = filter failed cs"

definition ljust :: "nat \<Rightarrow> string \<Rightarrow> string" where
  "ljust n s = s @ replicate (n - length s) CHR '' ''"

definition render :: "check list \<Rightarrow> string" where
  "render cs = (let width = (if cs = [] then 10 else Max (set (map (\<lambda>c. length (check_name c)) cs))) in
     join_lines ((ljust width ''CHECK'' @ ''  STATUS  DETAIL'') #
       map (\<lambda>c. ljust width (check_name c) @ ''  '' @ ljust 6 (word_text (check_status c)) @ ''  '' @ check_detail c) cs))"

definition checks_json :: "check list \<Rightarrow> json" where
  "checks_json cs = JList (map (\<lambda>c. JDict [(''name'', JStr (check_name c)),
     (''status'', JStr (word_text (check_status c))), (''detail'', JStr (check_detail c))]) cs)"


section \<open>State and parameters\<close>

record verify_env =
  ve_app :: app_env
  ve_get :: "string \<Rightarrow> (string \<times> string) list \<Rightarrow> app_response res"
  ve_post :: "string \<Rightarrow> (string \<times> string) list \<Rightarrow> json \<Rightarrow> app_response res"
  ve_load_pem :: "string \<Rightarrow> unit res"
  ve_decode :: "string \<Rightarrow> string \<Rightarrow> json res"
  ve_probe :: "string \<Rightarrow> int res"
  ve_clock :: "nat \<Rightarrow> clock"

record verify_state =
  vs_checks :: "check list"
  vs_auth :: app_auth
  vs_posts :: "(string \<times> json) list"

type_synonym 'a step = "verify_state \<Rightarrow> verify_state \<times> 'a res"

definition andthen :: "'a step \<Rightarrow> ('a \<Rightarrow> 'b step) \<Rightarrow> 'b step" where
  "andthen m f st = (case m st of (st', Inl e) \<Rightarrow> (st', Raise e) | (st', Inr x) \<Rightarrow> f x st')"

definition give :: "'a \<Rightarrow> 'a step" where "give x st = (st, Ret x)"
definition lift :: "'a res \<Rightarrow> 'a step" where "lift r st = (st, r)"

definition add :: "string \<Rightarrow> verdict_word \<Rightarrow> string \<Rightarrow> unit step" where
  "add name status det st = (st\<lparr>vs_checks := vs_checks st @
     [\<lparr>check_name = name, check_status = status, check_detail = det\<rparr>]\<rparr>, Ret ())"

text \<open>An operation of the authenticator, and the catch of its own error.\<close>

definition with_auth :: "(app_auth \<Rightarrow> app_auth \<times> 'a res) \<Rightarrow> 'a step" where
  "with_auth f st = (case f (vs_auth st) of (a, r) \<Rightarrow> (st\<lparr>vs_auth := a\<rparr>, r))"

definition caught :: "'a step \<Rightarrow> (exc + 'a) step" where
  "caught m st = (case m st of
       (st', Inl e) \<Rightarrow> if exc_class e = GitHubAppError then (st', Ret (Inl e)) else (st', Raise e)
     | (st', Inr x) \<Rightarrow> (st', Ret (Inr x)))"

definition API_HEADERS :: "(string \<times> string) list" where
  "API_HEADERS = [(''Accept'', ''application/vnd.github+json''), (''X-GitHub-Api-Version'', ''2022-11-28'')]"

definition api_headers :: "string \<Rightarrow> (string \<times> string) list" where
  "api_headers token = API_HEADERS @ [(''Authorization'', ''Bearer '' @ token)]"

definition get_json :: "verify_env \<Rightarrow> string \<Rightarrow> string \<Rightarrow> (int \<times> json) res" where
  "get_json ve addr token = rbind (ve_get ve addr (api_headers token)) (\<lambda>r.
     case ar_json r of
       Inr v \<Rightarrow> Ret (ar_status r, v)
     | Inl e \<Rightarrow> if exc_class e \<in> {ValueError, JSONDecodeError, UnicodeDecodeError}
                then Ret (ar_status r, JStr (take 200 (ar_text r))) else Raise e)"

definition int_list_str :: "int list \<Rightarrow> string" where
  "int_list_str xs = ''['' @ join '', '' (map int_str xs) @ '']''"

text \<open>\<open>int(settings.github_app_id or -1)\<close>.\<close>

definition app_id_or :: "int \<Rightarrow> settings \<Rightarrow> int" where
  "app_id_or d s = (case github_app_id s of None \<Rightarrow> d | Some n \<Rightarrow> if n = 0 then d else n)"


section \<open>The checks\<close>

definition check_config :: "settings \<Rightarrow> verify_env \<Rightarrow> unit step" where
  "check_config s ve =
     (let key = strip (github_app_private_key s) in
      if app_id_or 0 s = 0 \<or> key = [] then
        add ''config'' FAIL ''set AUTOPR_GITHUB_APP_ID and AUTOPR_GITHUB_APP_PRIVATE_KEY (.env or environment)''
      else (case rbind (normalise_private_key key) (ve_load_pem ve) of
          Inl e \<Rightarrow> add ''config'' FAIL (''private key does not parse: '' @ exc_repr e)
        | Inr _ \<Rightarrow> add ''config'' PASS (''app_id='' @ int_str (app_id_or 0 s) @ '' | key parses | mode='' @
            (if multi_tenant_enabled s then ''multi-tenant (App)'' else ''NOT multi-tenant''))))"

definition claim_int :: "json \<Rightarrow> string \<Rightarrow> int \<Rightarrow> int res" where
  "claim_int claims k d = rbind (jget claims k) (\<lambda>v. json_int (get_default (JInt d) v))"

definition jwt_problems :: "settings \<Rightarrow> int \<Rightarrow> json \<Rightarrow> (string list \<times> int) res" where
  "jwt_problems s now claims =
     rbind (claim_int claims ''iss'' (-1)) (\<lambda>iss.
     rbind (claim_int claims ''exp'' 0) (\<lambda>expiry.
     rbind (claim_int claims ''iat'' now) (\<lambda>iat.
     rbind (jget claims ''iss'') (\<lambda>raw.
       let lifetime = expiry - iat in
       Ret ((if iss \<noteq> app_id_or (-1) s
             then [''iss='' @ json_str (get_default JNull raw) @ '' != app_id='' @
               (case github_app_id s of None \<Rightarrow> ''None'' | Some n \<Rightarrow> int_str n)] else []) @
            (if lifetime > 600 then [''lifetime '' @ int_str lifetime @ ''s exceeds GitHub's 600s limit''] else []) @
            (if iat > now + 60 then [''iat is in the future (clock skew > 60s)''] else []), lifetime)))))"

definition check_jwt :: "settings \<Rightarrow> verify_env \<Rightarrow> string \<Rightarrow> unit step" where
  "check_jwt s ve private_key =
     andthen (with_auth (jwt (ve_app ve) (ve_clock ve 0))) (\<lambda>token.
     andthen (lift (normalise_private_key private_key)) (\<lambda>pem.
     andthen (lift (ve_load_pem ve pem)) (\<lambda>_.
       case ve_decode ve pem token of
         Inl e \<Rightarrow> add ''jwt'' FAIL (''signature does not verify with the configured public key: '' @ exc_repr e)
       | Inr claims \<Rightarrow>
           andthen (lift (jwt_problems s (truncate_s (wall (ve_clock ve 1))) claims)) (\<lambda>(problems, lifetime).
             if problems \<noteq> [] then add ''jwt'' FAIL (join ''; '' problems)
             else andthen (lift (rbind (jget claims ''iss'') (\<lambda>v. case v of
                 None \<Rightarrow> Raise (Exc KeyError ''iss'') | Some x \<Rightarrow> Ret x))) (\<lambda>iss.
               add ''jwt'' PASS (''RS256 ok | iss='' @ json_str iss @ '' | lifetime='' @ int_str lifetime @ ''s''))))))"

definition opt_str :: "json option \<Rightarrow> string" where
  "opt_str v = json_str (get_default JNull v)"

definition is_missing :: "json option \<Rightarrow> bool" where
  "is_missing v \<longleftrightarrow> v = None \<or> v = Some JNull"

definition check_app_identity :: "settings \<Rightarrow> verify_env \<Rightarrow> string \<Rightarrow> unit step" where
  "check_app_identity s ve token =
     andthen (lift (get_json ve (github_api_url s @ ''/app'') token)) (\<lambda>(status, body).
       if status = 401 then add ''app_identity'' FAIL ''GitHub rejected the JWT (401): wrong key or app id''
       else if status \<ge> 300 then add ''app_identity'' FAIL (''GET /app -> HTTP '' @ int_str status @ '': '' @ json_str body)
       else (let field = (\<lambda>k. case body of JDict d \<Rightarrow> map_of d k | _ \<Rightarrow> None);
                 passed = add ''app_identity'' PASS (''slug='' @ opt_str (field ''slug'') @ '' id='' @ opt_str (field ''id'')) in
         if is_missing (field ''id'') then passed
         else andthen (lift (json_int (the (field ''id'')))) (\<lambda>got.
           if got \<noteq> app_id_or (-1) s then
             add ''app_identity'' FAIL (''GitHub says app '' @ opt_str (field ''id'') @ '', config says '' @
               (case github_app_id s of None \<Rightarrow> ''None'' | Some n \<Rightarrow> int_str n))
           else passed)))"

definition installation_ids :: "json \<Rightarrow> int list res" where
  "installation_ids body = (case body of
       JList items \<Rightarrow> rmap json_int (concat (map (\<lambda>i. case i of
           JDict d \<Rightarrow> (case map_of d ''id'' of None \<Rightarrow> [] | Some v \<Rightarrow> [v]) | _ \<Rightarrow> []) items))
     | _ \<Rightarrow> Ret [])"

definition check_installations :: "settings \<Rightarrow> verify_env \<Rightarrow> string \<Rightarrow> int option \<Rightarrow> unit step" where
  "check_installations s ve token wanted =
     andthen (lift (get_json ve (github_api_url s @ ''/app/installations'') token)) (\<lambda>(status, body).
       if status \<ge> 300 then
         add ''installations'' FAIL (''GET /app/installations -> HTTP '' @ int_str status @ '': '' @ json_str body)
       else andthen (lift (installation_ids body)) (\<lambda>ids.
         if ids = [] then add ''installations'' FAIL (''the App has no installations '' @ [CHR 0xE2, CHR 0x80, CHR 0x94] @
           '' install it: '' @ (if install_url s = [] then ''the App settings page'' else install_url s))
         else (case wanted of
             Some w \<Rightarrow>
               if w \<notin> set ids then add ''installations'' FAIL (''installation '' @ int_str w @ '' not in '' @
                 int_list_str ids @ '' (installed: '' @ int_list_str ids @ '')'')
               else add ''installations'' PASS (''using installation '' @ int_str w @ '' of '' @ int_list_str ids)
           | None \<Rightarrow> add ''installations'' PASS (''using installation '' @ int_str (hd ids) @ '' of '' @ int_list_str ids))))"

definition check_installation_token :: "verify_env \<Rightarrow> int \<Rightarrow> string option step" where
  "check_installation_token ve i =
     andthen (caught (with_auth (fetch_installation_token (ve_app ve) (ve_clock ve 2) (ve_clock ve 3) i))) (\<lambda>r.
       case r of
         Inl e \<Rightarrow> andthen (add ''installation_token'' FAIL (exc_repr e)) (\<lambda>_. give None)
       | Inr tok \<Rightarrow>
           (case it_token tok of
              JStr raw \<Rightarrow>
                (let remaining = truncate_s (it_expires_at tok - monotonic (ve_clock ve 4)) in
                 if \<not> startswith raw ''ghs_'' then
                   andthen (add ''installation_token'' FAIL (''unexpected token prefix '' @ str_repr (take 4 raw) @
                     '' (an installation token always starts ghs_)'')) (\<lambda>_. give None)
                 else if remaining \<le> 0 then
                   andthen (add ''installation_token'' FAIL (''token already expired ('' @ int_str remaining @ ''s)''))
                     (\<lambda>_. give None)
                 else andthen (add ''installation_token'' PASS (''ghs_'' @ [CHR 0xE2, CHR 0x80, CHR 0xA6] @ '' len='' @
                     nat_str (length raw) @ '' | expires in '' @ int_str remaining @ ''s'')) (\<lambda>_. give (Some raw)))
            | _ \<Rightarrow> lift (Raise (no_attr ''startswith''))))"

definition lower_of :: "json \<Rightarrow> string res" where
  "lower_of v = (case v of JStr t \<Rightarrow> Ret (lower t) | _ \<Rightarrow> Raise (no_attr ''lower''))"

definition text_of :: "json \<Rightarrow> string res" where
  "text_of v = (case v of JStr t \<Rightarrow> Ret t | _ \<Rightarrow> Raise (Exc TypeError ''sequence item: expected str instance''))"

definition check_repo_access :: "settings \<Rightarrow> verify_env \<Rightarrow> string \<Rightarrow> string option \<Rightarrow> int \<Rightarrow> bool step" where
  "check_repo_access s ve token rp i =
     andthen (lift (get_json ve (github_api_url s @ ''/installation/repositories'') token)) (\<lambda>(status, body).
       if status \<ge> 300 then
         andthen (add ''repo_access'' FAIL (''GET /installation/repositories -> HTTP '' @ int_str status @ '': '' @ json_str body))
           (\<lambda>_. give False)
       else andthen (lift (rbind (jget (if truthy body then body else JDict []) ''repositories'') (\<lambda>rs.
           rbind (json_iter (get_default (JList []) rs)) (rmap (\<lambda>r. rbind (jget r ''full_name'') (\<lambda>n.
             Ret (get_default (JStr []) n))))))) (\<lambda>repos.
         if repos = [] then andthen (add ''repo_access'' FAIL (''installation '' @ int_str i @ '' sees no repositories''))
           (\<lambda>_. give False)
         else andthen (case rp of None \<Rightarrow> give True
             | Some name \<Rightarrow> andthen (lift (rmap lower_of repos)) (\<lambda>ls. give (lower name \<in> set ls))) (\<lambda>visible.
           if \<not> visible then andthen (add ''repo_access'' FAIL (get_default [] rp @ '' is not visible to installation '' @
               int_str i @ ''; grant it in the App settings'')) (\<lambda>_. give False)
           else andthen (lift (rmap text_of (take 3 repos))) (\<lambda>shown.
             andthen (add ''repo_access'' PASS (nat_str (length repos) @ '' repo(s) visible: '' @ join '', '' shown @
               (if length repos > 3 then [CHR 0xE2, CHR 0x80, CHR 0xA6] else []))) (\<lambda>_. give True)))))"

definition check_repo_lookup :: "verify_env \<Rightarrow> string option \<Rightarrow> int \<Rightarrow> unit step" where
  "check_repo_lookup ve rp i = (case rp of
       None \<Rightarrow> add ''repo_lookup'' SKIP ''pass --repo owner/name to check it''
     | Some name \<Rightarrow>
         andthen (caught (with_auth (repo_installation (ve_app ve) (ve_clock ve 5) name))) (\<lambda>r.
           case r of
             Inl e \<Rightarrow> add ''repo_lookup'' FAIL (exc_repr e)
           | Inr None \<Rightarrow> add ''repo_lookup'' FAIL (name @ '': the App is not installed on this repo'')
           | Inr (Some found) \<Rightarrow>
               if found \<noteq> i then add ''repo_lookup'' FAIL (name @ '' maps to installation '' @ int_str found @
                 '', not '' @ int_str i)
               else add ''repo_lookup'' PASS (name @ '' -> installation '' @ int_str found)))"

definition check_permission :: "verify_env \<Rightarrow> string option \<Rightarrow> string option \<Rightarrow> int \<Rightarrow> unit step" where
  "check_permission ve rp login i = (case (rp, login) of
       (Some name, Some l) \<Rightarrow>
         andthen (caught (with_auth (collaborator_permission (ve_app ve) (ve_clock ve 6) (ve_clock ve 7) i name l))) (\<lambda>r.
           case r of
             Inl e \<Rightarrow> add ''permission'' FAIL (exc_repr e)
           | Inr level \<Rightarrow> add ''permission'' PASS (l @ '' on '' @ name @ '': '' @ (if level = [] then ''none'' else level)))
     | _ \<Rightarrow> add ''permission'' SKIP ''pass --repo and --login to check the approval gate'')"

definition COMMENT_BODY :: string where
  "COMMENT_BODY = ''AUTOPR installation check: this comment was posted by scripts/verify_installation.py.''"

definition comment_url :: "settings \<Rightarrow> string \<Rightarrow> int \<Rightarrow> string" where
  "comment_url s rp n = github_api_url s @ ''/repos/'' @ rp @ ''/issues/'' @ int_str n @ ''/comments''"

definition post_comment :: "verify_env \<Rightarrow> string \<Rightarrow> string \<Rightarrow> app_response step" where
  "post_comment ve addr token st =
     (let body = JDict [(''body'', JStr COMMENT_BODY)] in
      (st\<lparr>vs_posts := vs_posts st @ [(addr, body)]\<rparr>, ve_post ve addr (api_headers token) body))"

definition check_comment ::
    "settings \<Rightarrow> verify_env \<Rightarrow> string \<Rightarrow> string option \<Rightarrow> int option \<Rightarrow> bool \<Rightarrow> unit step" where
  "check_comment s ve token rp pr confirmed = (case (rp, pr) of
       (Some name, Some n) \<Rightarrow>
         if \<not> confirmed then add ''comment'' SKIP (''would POST '' @ comment_url s name n @ '' (re-run with --yes to actually post)'')
         else andthen (post_comment ve (comment_url s name n) token) (\<lambda>r.
           if ar_status r \<ge> 300
           then add ''comment'' FAIL (''HTTP '' @ int_str (ar_status r) @ '': '' @ take 200 (ar_text r))
           else andthen (lift (rbind (ar_json r) (\<lambda>d. jget d ''html_url''))) (\<lambda>u.
             add ''comment'' PASS (''posted: '' @ json_str (get_default (JStr []) u))))
     | _ \<Rightarrow> add ''comment'' SKIP ''pass --comment N --repo owner/name to post a real comment'')"

definition reachable_text :: "verify_env \<Rightarrow> string \<Rightarrow> string res" where
  "reachable_text ve base = (case ve_probe ve (rev (dropWhile (\<lambda>c. c = CHR ''/'') (rev base)) @ ''/healthz'') of
       Inr status \<Rightarrow> Ret (''GET '' @ base @ ''/healthz -> HTTP '' @ int_str status)
     | Inl e \<Rightarrow> if exc_class e = HTTPError then Ret (''GET '' @ base @ ''/healthz failed: '' @ exc_repr e) else Raise e)"

definition check_webhook :: "verify_env \<Rightarrow> string option \<Rightarrow> unit step" where
  "check_webhook ve base =
     andthen (case base of
         None \<Rightarrow> give ()
       | Some b \<Rightarrow> if b = [] then give ()
           else andthen (lift (reachable_text ve b)) (\<lambda>t.
             add ''webhook_endpoint'' (if contains t ''200'' then PASS else FAIL) t)) (\<lambda>_.
       add ''webhook_delivery'' MANUAL (''GitHub App -> Advanced -> Recent Deliveries -> Redeliver the Ping, and confirm '' @
         ''/webhook returned 2xx (only GitHub can trigger this)''))"


section \<open>The run\<close>

text \<open>The installation to use when none was given: the first of the list.\<close>

definition first_installation :: "settings \<Rightarrow> verify_env \<Rightarrow> string \<Rightarrow> int option res" where
  "first_installation s ve token = rbind (get_json ve (github_api_url s @ ''/app/installations'') token) (\<lambda>(_, body).
     case body of
       JList (JDict d # _) \<Rightarrow> (case map_of d ''id'' of
           None \<Rightarrow> Raise (Exc KeyError ''id'') | Some v \<Rightarrow> rbind (json_int v) (\<lambda>n. Ret (Some n)))
     | JList (_ # _) \<Rightarrow> Raise (Exc TypeError ''indices must be integers'')
     | _ \<Rightarrow> Ret None)"

record verify_args =
  va_installation :: "int option"
  va_repo :: "string option"
  va_login :: "string option"
  va_comment :: "int option"
  va_yes :: bool
  va_base_url :: "string option"
  va_json :: bool

definition check_target :: "settings \<Rightarrow> verify_env \<Rightarrow> verify_args \<Rightarrow> int option \<Rightarrow> unit step" where
  "check_target s ve args target = (case target of
       None \<Rightarrow> add ''installation_token'' SKIP ''no installation to mint a token for''
     | Some i \<Rightarrow> andthen (check_installation_token ve i) (\<lambda>token. case token of
           None \<Rightarrow> give ()
         | Some tok \<Rightarrow>
             andthen (check_repo_access s ve tok (va_repo args) i) (\<lambda>_.
             andthen (check_repo_lookup ve (va_repo args) i) (\<lambda>_.
             andthen (check_permission ve (va_repo args) (va_login args) i) (\<lambda>_.
             check_comment s ve tok (va_repo args) (va_comment args) (va_yes args))))))"

definition run_checks :: "settings \<Rightarrow> verify_env \<Rightarrow> verify_args \<Rightarrow> unit step" where
  "run_checks s ve args =
     andthen (check_jwt s ve (github_app_private_key s)) (\<lambda>_.
     andthen (with_auth (jwt (ve_app ve) (ve_clock ve 8))) (\<lambda>t1.
     andthen (check_app_identity s ve t1) (\<lambda>_.
     andthen (with_auth (jwt (ve_app ve) (ve_clock ve 9))) (\<lambda>t2.
     andthen (check_installations s ve t2 (va_installation args)) (\<lambda>_.
     andthen (case va_installation args of
         Some i \<Rightarrow> give (Some i)
       | None \<Rightarrow> andthen (with_auth (jwt (ve_app ve) (ve_clock ve 10))) (\<lambda>t3. lift (first_installation s ve t3))) (\<lambda>target.
     andthen (check_target s ve args target) (\<lambda>_.
     check_webhook ve (va_base_url args))))))))"

text \<open>The posts, and the report unless an exception escaped. Without credentials nothing is asked.\<close>

definition verify :: "settings \<Rightarrow> verify_env \<Rightarrow> verify_args \<Rightarrow> (string \<times> json) list \<times> check list res" where
  "verify s ve args =
     (let no_auth = \<lparr>aa_app_id = 0, aa_private_key = [], aa_api_url = [], aa_tokens = (\<lambda>_. None),
            aa_repos = (\<lambda>_. None), aa_jwt = None\<rparr>;
          st0 = fst (check_config s ve \<lparr>vs_checks = [], vs_auth = no_auth, vs_posts = []\<rparr>) in
      if failures (vs_checks st0) \<noteq> [] then ([], Ret (vs_checks st0))
      else (case new_app_auth s (app_id_or 0 s) (github_app_private_key s) None of
          Inl e \<Rightarrow> ([], Raise e)
        | Inr auth \<Rightarrow> (case run_checks s ve args (st0\<lparr>vs_auth := auth\<rparr>) of
            (st, Inl e) \<Rightarrow> (vs_posts st, Raise e)
          | (st, Inr _) \<Rightarrow> (vs_posts st, Ret (vs_checks st)))))"

text \<open>What is printed, the machine-readable form being indented by the library, and the exit code.\<close>

definition verify_main ::
    "settings \<Rightarrow> (json \<Rightarrow> string) \<Rightarrow> verify_env \<Rightarrow> verify_args \<Rightarrow> (string list \<times> int) res" where
  "verify_main s indented ve args = rbind (snd (verify s ve args)) (\<lambda>cs.
     let pending = map check_name (filter (\<lambda>c. check_status c = MANUAL) cs) in
     Ret (if va_json args then [indented (checks_json cs)]
          else render cs # (if pending \<noteq> [] then [newline @ ''Still needs a human: '' @ join '', '' pending] else []),
          if failures cs \<noteq> [] then 1 else 0))"


section \<open>What is posted\<close>

definition quiet :: "'a step \<Rightarrow> bool" where
  "quiet m \<longleftrightarrow> (\<forall>st. vs_posts (fst (m st)) = vs_posts st)"

named_theorems quiet_steps

lemma quiet_andthen [quiet_steps, intro]:
  "quiet m \<Longrightarrow> (\<And>x. quiet (f x)) \<Longrightarrow> quiet (andthen m f)"
  by (auto simp: quiet_def andthen_def split: prod.splits sum.splits) (metis fst_conv)+

lemma quiet_basic [quiet_steps, simp]:
  "quiet (give x)" "quiet (lift r)" "quiet (add n w d)" "quiet (with_auth f)"
  by (auto simp: quiet_def give_def lift_def add_def with_auth_def split: prod.splits)

lemma quiet_caught [quiet_steps, intro]: "quiet m \<Longrightarrow> quiet (caught m)"
  by (auto simp: quiet_def caught_def split: prod.splits sum.splits if_splits) (metis fst_conv)+

lemma quiet_choices [quiet_steps, intro]:
  "(b \<Longrightarrow> quiet m) \<Longrightarrow> (\<not> b \<Longrightarrow> quiet n) \<Longrightarrow> quiet (if b then m else n)"
  "quiet no \<Longrightarrow> (\<And>x. quiet (so x)) \<Longrightarrow> quiet (case v of None \<Rightarrow> no | Some x \<Rightarrow> so x)"
  "(\<And>e. quiet (bad e)) \<Longrightarrow> (\<And>x. quiet (good x)) \<Longrightarrow> quiet (case r of Inl e \<Rightarrow> bad e | Inr x \<Rightarrow> good x)"
  "(\<And>x y. quiet (pair x y)) \<Longrightarrow> quiet (case q of (x, y) \<Rightarrow> pair x y)"
  by (auto split: option.splits sum.splits prod.splits)

lemma quiet_config [quiet_steps]: "quiet (check_config s ve)"
  by (auto simp: check_config_def Let_def intro!: quiet_steps)

lemma quiet_jwt [quiet_steps]: "quiet (check_jwt s ve k)"
  by (auto simp: check_jwt_def intro!: quiet_steps)

lemma quiet_identity [quiet_steps]: "quiet (check_app_identity s ve k)"
  by (auto simp: check_app_identity_def Let_def intro!: quiet_steps)

lemma quiet_installations [quiet_steps]: "quiet (check_installations s ve k w)"
  by (auto simp: check_installations_def intro!: quiet_steps)

lemma quiet_token [quiet_steps]: "quiet (check_installation_token ve i)"
  by (auto simp: check_installation_token_def Let_def intro!: quiet_steps split: json.split)

lemma quiet_access [quiet_steps]: "quiet (check_repo_access s ve k rp i)"
  by (auto simp: check_repo_access_def intro!: quiet_steps)

lemma quiet_lookup [quiet_steps]: "quiet (check_repo_lookup ve rp i)"
  by (auto simp: check_repo_lookup_def intro!: quiet_steps)

lemma quiet_permission [quiet_steps]: "quiet (check_permission ve rp l i)"
  by (auto simp: check_permission_def intro!: quiet_steps)

lemma quiet_webhook [quiet_steps]: "quiet (check_webhook ve base)"
  by (auto simp: check_webhook_def intro!: quiet_steps)

text \<open>A step that posts at most one comment, and only one that was asked for.\<close>

definition asked_for :: "settings \<Rightarrow> verify_args \<Rightarrow> string \<times> json \<Rightarrow> bool" where
  "asked_for s args q \<longleftrightarrow> va_yes args \<and> (\<exists>rp n. va_repo args = Some rp \<and> va_comment args = Some n \<and>
     q = (comment_url s rp n, JDict [(''body'', JStr COMMENT_BODY)]))"

definition speaks :: "settings \<Rightarrow> verify_args \<Rightarrow> 'a step \<Rightarrow> bool" where
  "speaks s args m \<longleftrightarrow> (\<forall>st. vs_posts (fst (m st)) = vs_posts st \<or>
     (\<exists>q. asked_for s args q \<and> vs_posts (fst (m st)) = vs_posts st @ [q]))"

lemma quiet_speaks: "quiet m \<Longrightarrow> speaks s args m"
  by (simp add: quiet_def speaks_def)

lemma speaks_last: "quiet m \<Longrightarrow> (\<And>x. speaks s args (f x)) \<Longrightarrow> speaks s args (andthen m f)"
  unfolding speaks_def quiet_def andthen_def
  by (auto split: prod.splits sum.splits) (metis fst_conv)+

lemma speaks_first: "speaks s args m \<Longrightarrow> (\<And>x. quiet (f x)) \<Longrightarrow> speaks s args (andthen m f)"
  unfolding speaks_def quiet_def andthen_def
  by (auto split: prod.splits sum.splits) (metis fst_conv)+

lemma speaks_comment: "speaks s args (check_comment s ve k (va_repo args) (va_comment args) (va_yes args))"
proof (cases "va_yes args \<and> va_repo args \<noteq> None \<and> va_comment args \<noteq> None")
  case False
  then show ?thesis by (intro quiet_speaks) (auto simp: check_comment_def intro!: quiet_steps split: option.split)
next
  case True
  then obtain rp n where "va_repo args = Some rp" "va_comment args = Some n" by blast
  moreover have "speaks s args (post_comment ve (comment_url s rp n) k)"
    using True calculation by (auto simp: speaks_def asked_for_def post_comment_def Let_def)
  ultimately show ?thesis using True
    by (auto simp: check_comment_def intro!: speaks_first quiet_steps)
qed

lemma speaks_target: "speaks s args (check_target s ve args target)"
proof (cases target)
  case None
  then show ?thesis by (simp add: check_target_def quiet_speaks)
next
  case (Some i)
  have "speaks s args (case token of None \<Rightarrow> give () | Some tok \<Rightarrow>
      andthen (check_repo_access s ve tok (va_repo args) i) (\<lambda>_.
      andthen (check_repo_lookup ve (va_repo args) i) (\<lambda>_.
      andthen (check_permission ve (va_repo args) (va_login args) i) (\<lambda>_.
      check_comment s ve tok (va_repo args) (va_comment args) (va_yes args)))))" for token
    by (cases token) (simp_all add: quiet_speaks speaks_last speaks_comment quiet_steps)
  then show ?thesis using Some by (simp add: check_target_def speaks_last quiet_token)
qed

lemma speaks_checks: "speaks s args (run_checks s ve args)"
  unfolding run_checks_def
  by (intro speaks_last speaks_first [OF speaks_target] quiet_steps)

text \<open>
  C40. The deployment check writes to GitHub at most once, and then the fixed comment on the pull request that was
  named, only with \<open>--yes\<close>: whatever GitHub answers, and also when the run ends in an exception.
\<close>

theorem no_comment_unless_confirmed:
  "fst (verify s ve args) = [] \<or>
   (va_yes args \<and> (\<exists>rp n. va_repo args = Some rp \<and> va_comment args = Some n \<and>
      fst (verify s ve args) = [(comment_url s rp n, JDict [(''body'', JStr COMMENT_BODY)])]))"
proof -
  define st1 where "st1 = fst (check_config s ve \<lparr>vs_checks = [], vs_auth = \<lparr>aa_app_id = 0, aa_private_key = [],
    aa_api_url = [], aa_tokens = (\<lambda>_. None), aa_repos = (\<lambda>_. None), aa_jwt = None\<rparr>, vs_posts = []\<rparr>)"
  have start: "vs_posts st1 = []" using quiet_config by (simp add: st1_def quiet_def)
  show ?thesis
  proof (cases "new_app_auth s (app_id_or 0 s) (github_app_private_key s) None")
    case (Inl e)
    then show ?thesis by (simp add: verify_def Let_def)
  next
    case (Inr auth)
    then have "fst (verify s ve args) = [] \<or>
        fst (verify s ve args) = vs_posts (fst (run_checks s ve args (st1\<lparr>vs_auth := auth\<rparr>)))"
      by (auto simp: verify_def Let_def st1_def split: prod.splits sum.splits)
    moreover have "vs_posts (fst (run_checks s ve args (st1\<lparr>vs_auth := auth\<rparr>))) = [] \<or>
        (\<exists>q. asked_for s args q \<and> vs_posts (fst (run_checks s ve args (st1\<lparr>vs_auth := auth\<rparr>))) = [q])"
      using speaks_checks [of s args ve, unfolded speaks_def, rule_format, of "st1\<lparr>vs_auth := auth\<rparr>"] start by simp
    ultimately show ?thesis by (auto simp: asked_for_def)
  qed
qed

lemma contains_mid: "contains base needle \<Longrightarrow> contains (x @ base @ y) needle"
  unfolding contains_iff by (metis append.assoc)

text \<open>
  The probe of the deployment: its verdict is read off the text of the outcome, which contains the address.
  With a 200 anywhere in that address a failed probe is reported as a success.
\<close>

lemma probe_fooled:
  assumes "base \<noteq> []" and "contains base ''200''"
    and "ve_probe ve (rev (dropWhile (\<lambda>c. c = CHR ''/'') (rev base)) @ ''/healthz'') = Raise (Exc HTTPError e)"
  shows "\<exists>c. vs_checks (fst (check_webhook ve (Some base) st)) = vs_checks st @ c \<and> failures c = [] \<and>
    (\<exists>x \<in> set c. check_name x = ''webhook_endpoint'' \<and> check_status x = PASS)"
proof -
  have "contains (x @ base @ y) ''200''" for x y
    using assms(2) by (rule contains_mid)
  then have "contains (''GET '' @ base @ ''/healthz failed: '' @ e) ''200''" by blast
  moreover have "reachable_text ve base = Ret (''GET '' @ base @ ''/healthz failed: '' @ e)"
    using assms(3) by (simp add: reachable_text_def)
  ultimately show ?thesis using assms(1)
    by (simp del: contains.simps add: check_webhook_def andthen_def lift_def add_def failures_def failed_def)
qed

text \<open>A missing configuration ends with exit code 1; the documentation of the script promises 2.\<close>

lemma missing_config_exits_1:
  assumes "app_id_or 0 s = 0 \<or> strip (github_app_private_key s) = []"
  shows "\<exists>out. verify_main s indented ve args = Ret (out, 1)"
  using assms by (simp add: verify_main_def verify_def check_config_def add_def failures_def failed_def Let_def)
end
