(* ===== verification/Capacity.thy ===== *)
theory Capacity
  imports Graph
begin

text \<open>
  Capacity planning, \<^verbatim>\<open>src/app/capacity.py\<close>: the sizing report, its sweep over tenant counts and the
  table. The code computes in binary floating point; the model computes the same expressions in
  exact rationals, and rounds as Python does, half to even. The benchmark file is an argument (absent
  when it cannot be read), as are the conversion of a JSON number to a float and the \<open>repr\<close> of a float.
\<close>

section \<open>Numbers as text\<close>

definition half_even :: "rat \<Rightarrow> int" where
  "half_even r = (let f = \<lfloor>r\<rfloor>; d = r - of_int f in
     if d < 1 / 2 then f else if d > 1 / 2 then f + 1 else if even f then f else f + 1)"

definition round_to :: "nat \<Rightarrow> rat \<Rightarrow> rat" where
  "round_to n r = of_int (half_even (r * 10 ^ n)) / 10 ^ n"

fun group3 :: "string \<Rightarrow> string" where
  "group3 (a # b # c # d # ds) = a # b # c # CHR '','' # group3 (d # ds)"
| "group3 ds = ds"

text \<open>The format \<open>f\<close> with a number of decimals, with or without thousands separators.\<close>

definition fixed_text :: "bool \<Rightarrow> nat \<Rightarrow> rat \<Rightarrow> string" where
  "fixed_text commas n r =
     (let k = nat (half_even (\<bar>r\<bar> * 10 ^ n));
          whole = nat_str (k div 10 ^ n); frac = nat_str (k mod 10 ^ n) in
      (if r < 0 then ''-'' else []) @
      (if commas then rev (group3 (rev whole)) else whole) @
      (if n = 0 then [] else ''.'' @ replicate (n - length frac) CHR ''0'' @ frac))"


section \<open>Measured constants\<close>

definition INGEST_FALLBACK_P50_MS :: rat where "INGEST_FALLBACK_P50_MS = 24877 / 1000"
definition INGEST_FALLBACK_P95_MS :: rat where "INGEST_FALLBACK_P95_MS = 32658 / 1000"

record prompt_tokens =
  code_reviewer_tokens :: int
  test_generator_tokens :: int
  fix_agent_tokens :: int
  ci_monitor_tokens :: int

definition SYSTEM_PROMPT_TOKENS :: prompt_tokens where
  "SYSTEM_PROMPT_TOKENS = \<lparr>code_reviewer_tokens = 241, test_generator_tokens = 134,
     fix_agent_tokens = 166, ci_monitor_tokens = 256\<rparr>"

definition DIFF_TOKENS :: int where "DIFF_TOKENS = 920"
definition CI_LOG_CAP_CHARS :: int where "CI_LOG_CAP_CHARS = 12000"
definition CI_LOG_TOKENS :: int where "CI_LOG_TOKENS = 1380"
definition OUT_TOKENS_REVIEW :: int where "OUT_TOKENS_REVIEW = 400"
definition OUT_TOKENS_TESTS :: int where "OUT_TOKENS_TESTS = 700"
definition OUT_TOKENS_TRIAGE :: int where "OUT_TOKENS_TRIAGE = 200"
definition OUT_TOKENS_FIX :: int where "OUT_TOKENS_FIX = 900"
definition LLM_CALLS_PER_REVIEW :: rat where "LLM_CALLS_PER_REVIEW = 2"
definition LLM_CALLS_PER_CI_FIX :: rat where "LLM_CALLS_PER_CI_FIX = 2"
definition REDIS_OPS_PER_JOB :: rat where "REDIS_OPS_PER_JOB = 32 / 10"
definition PG_STATEMENTS_PER_JOB :: rat where "PG_STATEMENTS_PER_JOB = 12"
definition ROW_BYTES_PR_JOB :: rat where "ROW_BYTES_PR_JOB = 420"
definition ROW_BYTES_CI_JOB :: rat where "ROW_BYTES_CI_JOB = 420 + of_int CI_LOG_CAP_CHARS"
definition ROW_BYTES_DECISION :: rat where "ROW_BYTES_DECISION = 2100"
definition DECISION_RATE :: rat where "DECISION_RATE = 35 / 100"
definition SNAPSHOT_CAP_BYTES :: rat where "SNAPSHOT_CAP_BYTES = 25000000"
definition WORKER_OVERHEAD_BYTES :: rat where "WORKER_OVERHEAD_BYTES = 180000000"


section \<open>Inputs and the report\<close>

record assumptions =
  llm_latency_ms :: rat
  price_in_per_mtok :: rat
  price_out_per_mtok :: rat
  calibrated :: bool

definition default_assumptions :: assumptions where
  "default_assumptions = \<lparr>llm_latency_ms = 3500, price_in_per_mtok = 15 / 100,
     price_out_per_mtok = 60 / 100, calibrated = False\<rparr>"

definition assumption_texts :: "(rat \<Rightarrow> string) \<Rightarrow> assumptions \<Rightarrow> string list" where
  "assumption_texts float_repr a =
     [if calibrated a
      then ''llm_latency_ms='' @ fixed_text False 0 (llm_latency_ms a) @ '' was supplied by the operator '' @
        ''(calibrated - the model treats it as measured)''
      else ''llm_latency_ms='' @ fixed_text False 0 (llm_latency_ms a) @ '' is an ASSUMPTION - time 10 '' @
        ''real reviews and pass --llm-latency-ms to replace it'',
      ''price_in/out='' @ float_repr (price_in_per_mtok a) @ ''/'' @ float_repr (price_out_per_mtok a) @
        '' USD per MTok is an ASSUMPTION - check your provider's current pricing page'']"

record workload =
  wl_tenants :: int
  prs_per_tenant_per_week :: rat
  ci_failures_per_tenant_per_week :: rat
  peak_hour_share :: rat
  target_utilization :: rat
  retention_days :: int
  rag_tokens :: int

definition default_workload :: workload where
  "default_workload = \<lparr>wl_tenants = 10, prs_per_tenant_per_week = 20, ci_failures_per_tenant_per_week = 10,
     peak_hour_share = 20 / 100, target_utilization = 60 / 100, retention_days = 30, rag_tokens = 0\<rparr>"

record report =
  rp_tenants :: int
  jobs_per_day :: rat
  peak_jobs_per_hour :: rat
  service_s_per_job :: rat
  rp_workers :: int
  llm_calls_per_day :: rat
  tokens_in_per_day :: rat
  tokens_out_per_day :: rat
  cost_per_day :: rat
  cost_per_month :: rat
  cost_per_job :: rat
  redis_ops_per_s_peak :: rat
  pg_statements_per_s_peak :: rat
  rows_per_day :: rat
  storage_mb_per_month :: rat
  steady_state_storage_mb :: rat
  memory_per_worker_mb :: rat
  ingest_p50_ms :: rat
  ingest_p95_ms :: rat
  binding_constraint :: string
  binding_reason :: string
  binding_share_pct :: rat
  rp_warnings :: "string list"
  assumption_notes :: "string list"

text \<open>
  The benchmark figures: any missing key or value of the wrong shape falls back to the constants; a
  decoder that gives up on the nesting is not caught.
\<close>

definition bench_figures :: "json_env \<Rightarrow> (json \<Rightarrow> rat res) \<Rightarrow> string \<Rightarrow> (rat \<times> rat) res" where
  "bench_figures env float_of s = rbind (loads env s) (\<lambda>d. rbind (json_item d ''paths'') (\<lambda>ps.
     rbind (json_item ps ''webhook.pr_review'') (\<lambda>pr. rbind (rbind (json_item pr ''median'') float_of) (\<lambda>m.
     rbind (rbind (json_item pr ''p95'') float_of) (\<lambda>p. Ret (m, p))))))"

definition measured_ingest :: "json_env \<Rightarrow> (json \<Rightarrow> rat res) \<Rightarrow> string option \<Rightarrow> (rat \<times> rat) res" where
  "measured_ingest env float_of bench =
     (let fallback = (INGEST_FALLBACK_P50_MS, INGEST_FALLBACK_P95_MS) in
      case bench of
        None \<Rightarrow> Ret fallback
      | Some s \<Rightarrow> (case bench_figures env float_of s of
            Inr f \<Rightarrow> Ret f
          | Inl e \<Rightarrow> if exc_class e \<in> {KeyError, ValueError, JSONDecodeError, UnicodeDecodeError, TypeError}
                     then Ret fallback else Raise e))"


section \<open>The model\<close>

definition tokens_per_review :: "int \<Rightarrow> rat \<times> rat" where
  "tokens_per_review rag =
     (of_int (code_reviewer_tokens SYSTEM_PROMPT_TOKENS + DIFF_TOKENS + rag +
        test_generator_tokens SYSTEM_PROMPT_TOKENS + DIFF_TOKENS),
      of_int (OUT_TOKENS_REVIEW + OUT_TOKENS_TESTS))"

definition tokens_per_ci_fix :: "int \<Rightarrow> rat \<times> rat" where
  "tokens_per_ci_fix rag =
     (of_int (ci_monitor_tokens SYSTEM_PROMPT_TOKENS + CI_LOG_TOKENS +
        fix_agent_tokens SYSTEM_PROMPT_TOKENS + DIFF_TOKENS + rag),
      of_int (OUT_TOKENS_TRIAGE + OUT_TOKENS_FIX))"

definition prs_day :: "workload \<Rightarrow> rat" where
  "prs_day w = of_int (wl_tenants w) * prs_per_tenant_per_week w / 7"

definition ci_day :: "workload \<Rightarrow> rat" where
  "ci_day w = of_int (wl_tenants w) * ci_failures_per_tenant_per_week w / 7"

definition peak_hour :: "workload \<Rightarrow> rat" where
  "peak_hour w = (prs_day w + ci_day w) * peak_hour_share w"

definition peak_per_s :: "workload \<Rightarrow> rat" where
  "peak_per_s w = peak_hour w / 3600"

definition service_s :: "rat \<Rightarrow> assumptions \<Rightarrow> rat" where
  "service_s p50 a = (LLM_CALLS_PER_REVIEW * llm_latency_ms a) / 1000 + (p50 / 1000 + 15 / 100)"

definition workers_needed :: "rat \<Rightarrow> workload \<Rightarrow> assumptions \<Rightarrow> int" where
  "workers_needed p50 w a =
     max 1 \<lceil>peak_per_s w * service_s p50 a / max (target_utilization w) (5 / 100)\<rceil>"

definition bytes_day :: "workload \<Rightarrow> rat" where
  "bytes_day w = prs_day w * ROW_BYTES_PR_JOB + ci_day w * ROW_BYTES_CI_JOB +
     (prs_day w + ci_day w) * DECISION_RATE * ROW_BYTES_DECISION"

definition plan_warnings :: "workload \<Rightarrow> assumptions \<Rightarrow> string list" where
  "plan_warnings w a = (let jobs_day = prs_day w + ci_day w in
     (if target_utilization w > 75 / 100
      then [''target_utilization above 0.75 leaves no headroom for a provider '' @
        ''stall; queue depth grows without bound once service time is '' @ ''underestimated''] else []) @
     (if peak_hour_share w > 1 / 2
      then [''peak_hour_share above 0.5 means half of a day's work lands in one '' @
        ''hour - size for that hour, not the day, or you will queue all day''] else []) @
     (if \<not> calibrated a
      then [''llm_latency_ms is uncalibrated for your provider and model; every '' @
        ''worker count below scales linearly with it''] else []) @
     (if rag_tokens w > 2000
      then [''rag_tokens above 2,000 doubles prompt cost on its own; measure the '' @
        ''retrieved-context size before enabling RAG for every review''] else []) @
     (if jobs_day > 0 \<and> ci_day w / jobs_day > 1 / 2
      then [''CI failures are over half of the workload - they store up to '' @
        fixed_text True 0 (of_int CI_LOG_CAP_CHARS) @ '' chars of logs per row; set retention or the '' @
        ''table grows ~'' @ fixed_text False 2 (ci_day w * ROW_BYTES_CI_JOB * 30 / 1000000000) @
        '' GB/month from logs alone''] else []))"

definition ceilings :: "workload \<Rightarrow> (string \<times> rat \<times> string) list" where
  "ceilings w = [
     (''LLM provider throughput / rate limit'', (peak_per_s w * LLM_CALLS_PER_REVIEW) / 30,
      ''the provider's tokens-per-minute ceiling - workers wait on it, so '' @
      ''adding workers does not add throughput''),
     (''Postgres (quota COUNT per job)'', (peak_per_s w * PG_STATEMENTS_PER_JOB) / 1000,
      ''the per-job quota COUNTs on pr_jobs; add the (repo, created_at) and '' @
      ''(created_at) indexes before raising volume''),
     (''Redis stream ops'', (peak_per_s w * REDIS_OPS_PER_JOB) / 20000,
      ''Redis, which at these rates is not a concern'')]"

text \<open>\<open>max\<close> by the share: the first of the largest.\<close>

fun first_max :: "(string \<times> rat \<times> string) \<Rightarrow> (string \<times> rat \<times> string) list \<Rightarrow> string \<times> rat \<times> string" where
  "first_max b [] = b"
| "first_max b (c # cs) = first_max (if fst (snd c) > fst (snd b) then c else b) cs"

definition binding_of :: "workload \<Rightarrow> string \<times> rat \<times> string" where
  "binding_of w = first_max (hd (ceilings w)) (tl (ceilings w))"

definition binding_warning :: "workload \<Rightarrow> string list" where
  "binding_warning w = (let share = fst (snd (binding_of w)) in
     if share < 5 / 100
     then [''no tier is above 5% of its published ceiling (the highest is '' @
       fixed_text False 2 (share * 100) @ ''%); at this size the worker count is set by '' @
       ''Little's law, not by a hard limit - re-run for the volume you expect '' @ ''to reach'']
     else [])"

definition plan :: "rat \<times> rat \<Rightarrow> (rat \<Rightarrow> string) \<Rightarrow> workload option \<Rightarrow> assumptions option \<Rightarrow> report" where
  "plan bench float_repr wo ao =
     (let w = (case wo of None \<Rightarrow> default_workload | Some w \<Rightarrow> w);
          a = (case ao of None \<Rightarrow> default_assumptions | Some a \<Rightarrow> a);
          (p50, p95) = bench;
          jobs_day = prs_day w + ci_day w;
          (in_rev, out_rev) = tokens_per_review (rag_tokens w);
          (in_ci, out_ci) = tokens_per_ci_fix (rag_tokens w);
          calls_day = prs_day w * LLM_CALLS_PER_REVIEW + ci_day w * LLM_CALLS_PER_CI_FIX;
          tok_in_day = prs_day w * in_rev + ci_day w * in_ci;
          tok_out_day = prs_day w * out_rev + ci_day w * out_ci;
          cost_day = (tok_in_day * price_in_per_mtok a + tok_out_day * price_out_per_mtok a) / 1000000;
          rows_day = jobs_day + jobs_day * DECISION_RATE + jobs_day;
          (binding, share, why) = binding_of w
      in \<lparr>rp_tenants = wl_tenants w,
          jobs_per_day = round_to 2 jobs_day,
          peak_jobs_per_hour = round_to 2 (peak_hour w),
          service_s_per_job = round_to 2 (service_s p50 a),
          rp_workers = workers_needed p50 w a,
          llm_calls_per_day = round_to 1 calls_day,
          tokens_in_per_day = round_to 0 tok_in_day,
          tokens_out_per_day = round_to 0 tok_out_day,
          cost_per_day = round_to 2 cost_day,
          cost_per_month = round_to 2 (cost_day * 30),
          cost_per_job = (if jobs_day \<noteq> 0 then round_to 4 (cost_day / jobs_day) else 0),
          redis_ops_per_s_peak = round_to 3 (peak_per_s w * REDIS_OPS_PER_JOB),
          pg_statements_per_s_peak = round_to 3 (peak_per_s w * PG_STATEMENTS_PER_JOB),
          rows_per_day = round_to 1 rows_day,
          storage_mb_per_month = round_to 1 (bytes_day w * 30 / 1000000),
          steady_state_storage_mb = round_to 1 (bytes_day w * of_int (retention_days w) / 1000000),
          memory_per_worker_mb = round_to 0 ((SNAPSHOT_CAP_BYTES + WORKER_OVERHEAD_BYTES) / 1000000),
          ingest_p50_ms = round_to 3 p50,
          ingest_p95_ms = round_to 3 p95,
          binding_constraint = binding,
          binding_reason = why,
          binding_share_pct = round_to 3 (share * 100),
          rp_warnings = plan_warnings w a @ binding_warning w,
          assumption_notes = assumption_texts float_repr a\<rparr>)"

definition sweep :: "rat \<times> rat \<Rightarrow> (rat \<Rightarrow> string) \<Rightarrow> int list \<Rightarrow> workload option \<Rightarrow> assumptions option \<Rightarrow>
    report list" where
  "sweep bench float_repr counts wo ao =
     (let base = (case wo of None \<Rightarrow> default_workload | Some w \<Rightarrow> w) in
      map (\<lambda>n. plan bench float_repr (Some (base\<lparr>wl_tenants := n\<rparr>)) ao) counts)"

definition render_markdown :: "report list \<Rightarrow> string" where
  "render_markdown reports = join_lines (
     [''| tenants | jobs/day | peak jobs/h | workers | LLM calls/day '' @
        ''| tokens/day (in/out) | USD/day | USD/job | storage GB/mo |'',
      ''|---:|---:|---:|---:|---:|---|---:|---:|---:|''] @
     map (\<lambda>r. ''| '' @ int_str (rp_tenants r) @ '' | '' @ fixed_text True 0 (jobs_per_day r) @ '' | '' @
       fixed_text True 1 (peak_jobs_per_hour r) @ '' '' @
       ''| '' @ int_str (rp_workers r) @ '' | '' @ fixed_text True 0 (llm_calls_per_day r) @ '' '' @
       ''| '' @ fixed_text True 1 (tokens_in_per_day r / 1000000) @ ''M / '' @
         fixed_text True 2 (tokens_out_per_day r / 1000000) @ ''M '' @
       ''| '' @ fixed_text True 2 (cost_per_day r) @ '' | '' @ fixed_text True 3 (cost_per_job r) @ '' '' @
       ''| '' @ fixed_text True 2 (storage_mb_per_month r / 1000) @ '' |'') reports)"


section \<open>What the plan promises\<close>

lemma plan_workers [simp]:
  "rp_workers (plan bench fr (Some w) (Some a)) = workers_needed (fst bench) w a"
  by (simp add: plan_def Let_def split: prod.split)

lemma workers_needed_le_iff:
  "workers_needed p50 w a \<le> n \<longleftrightarrow>
     1 \<le> n \<and> peak_per_s w * service_s p50 a \<le> of_int n * max (target_utilization w) (5 / 100)"
proof -
  let ?u = "max (target_utilization w) (5 / 100)"
  have "0 < ?u" by (simp add: less_max_iff_disj)
  then have "(peak_per_s w * service_s p50 a / ?u \<le> of_int n) = (peak_per_s w * service_s p50 a \<le> of_int n * ?u)"
    by (rule pos_divide_le_eq)
  then show ?thesis
    unfolding workers_needed_def max.bounded_iff ceiling_le_iff by simp
qed

text \<open>
  The fleet is exactly the smallest one that keeps up with the peak: a number of workers is at least the
  planned one if and only if it is positive and, at the target utilisation (never taken below five
  percent), serves the jobs that arrive in the busiest hour as fast as they arrive.
\<close>

theorem planned_fleet_exact:
  "rp_workers (plan bench fr (Some w) (Some a)) \<le> n \<longleftrightarrow>
     1 \<le> n \<and> peak_per_s w * service_s (fst bench) a \<le> of_int n * max (target_utilization w) (5 / 100)"
  by (simp add: workers_needed_le_iff)

text \<open>The nodes of the pipeline that call the model.\<close>

definition model_calls :: "node list \<Rightarrow> nat" where
  "model_calls tr = length (filter (\<lambda>n. n \<in> {CodeReviewer, TestGenerator, CiMonitor, FixAgent}) tr)"

lemma model_calls_fix_rounds [simp]: "model_calls (fix_rounds k @ tr) = k + model_calls tr"
  by (induction k) (auto simp: model_calls_def)

text \<open>
  The planned calls are those of the pipeline: a finished review visits exactly
  \<open>LLM_CALLS_PER_REVIEW\<close> nodes that ask the model. A finished CI run asks once to triage and once per fix
  round, which is \<open>LLM_CALLS_PER_CI_FIX\<close> for one round and more when a fix is retried.
\<close>

theorem planned_calls_of_a_run:
  assumes "step_budget (pl_settings p) st \<le> limit" and "run_graph limit p st w = (tr, w', Finished st')"
  shows "if is_ci_failure_event st
    then \<exists>k \<le> rounds_left (pl_settings p) st. model_calls tr = Suc k \<and>
      (k \<le> 1 \<longleftrightarrow> of_nat (model_calls tr) \<le> LLM_CALLS_PER_CI_FIX)
    else of_nat (model_calls tr) = LLM_CALLS_PER_REVIEW"
proof (cases "is_ci_failure_event st")
  case True
  then obtain k where "k \<le> rounds_left (pl_settings p) st" "tr = CiMonitor # fix_rounds k @ [RouterNode]"
    using graph_run_shape [OF assms] by auto
  moreover have "model_calls (CiMonitor # fix_rounds k @ [RouterNode]) = Suc k"
    using model_calls_fix_rounds [of k "[RouterNode]"] by (simp add: model_calls_def)
  ultimately show ?thesis using True by (auto simp: LLM_CALLS_PER_CI_FIX_def)
next
  case False
  then show ?thesis
    using graph_run_shape [OF assms] by (auto simp: model_calls_def LLM_CALLS_PER_REVIEW_def)
qed

definition failing_pipeline :: "(nat, ((string \<times> string) list \<times> string \<times> string list) list) pipeline" where
  "failing_pipeline = demo_pipeline\<lparr>pl_sandbox := fake_sandbox (passing_run\<lparr>exit_code := Some 1\<rparr>)\<rparr>"

lemma failing_run:
  obtains w' st' where
    "run_graph 25 failing_pipeline demo_ci_state demo_run_world =
       ([CiMonitor, FixAgent, FixVerifier, FixAgent, FixVerifier, RouterNode], w', Finished st')"
proof -
  have "case run_graph 25 failing_pipeline demo_ci_state demo_run_world of
      (tr, w', Finished st') \<Rightarrow> tr = [CiMonitor, FixAgent, FixVerifier, FixAgent, FixVerifier, RouterNode]
    | _ \<Rightarrow> False"
    by code_simp
  then show ?thesis using that by (auto split: prod.splits run_end.splits)
qed

text \<open>With the default settings a fix that keeps failing takes more calls than the plan counts.\<close>

theorem planned_calls_of_a_run_witness:
  "\<exists>tr w' st'. run_graph 25 failing_pipeline demo_ci_state demo_run_world = (tr, w', Finished st') \<and>
     of_nat (model_calls tr) > LLM_CALLS_PER_CI_FIX"
proof -
  obtain w' st' where run: "run_graph 25 failing_pipeline demo_ci_state demo_run_world =
     ([CiMonitor, FixAgent, FixVerifier, FixAgent, FixVerifier, RouterNode], w', Finished st')"
    by (rule failing_run)
  have b: "rounds_left (pl_settings failing_pipeline) demo_ci_state = 2" "is_ci_failure_event demo_ci_state"
    by (simp_all add: rounds_left_def failing_pipeline_def demo_pipeline_def default_settings_def
        demo_ci_state_def empty_state_def is_ci_failure_event_def)
  then have "step_budget (pl_settings failing_pipeline) demo_ci_state \<le> 25" by (simp add: step_budget_def)
  from planned_calls_of_a_run [OF this run] b(2)
  have "\<not> of_nat (model_calls [CiMonitor, FixAgent, FixVerifier, FixAgent, FixVerifier, RouterNode])
     \<le> LLM_CALLS_PER_CI_FIX"
    by (auto simp: model_calls_def)
  then show ?thesis using run by (auto simp: not_le)
qed

end
