(* ===== verification/Capacity_Plan.thy ===== *)
theory Capacity_Plan
  imports Capacity "HOL-Library.List_Lexorder" "HOL-Library.Char_ord"
begin

text \<open>
  The command line of the capacity model, \<^verbatim>\<open>src/scripts/capacity_plan.py\<close>: the argument \<open>--tenants\<close>, the workload
  and assumptions made from the arguments, and the printed report. \<open>argparse\<close> is the record of its results;
  the benchmark figures and the text of a float are the parameters of theory \<open>Capacity\<close>. Warnings are sorted in
  the order of their characters.
\<close>

section \<open>Arguments\<close>

fun tenant_numbers :: "string list \<Rightarrow> int list option" where
  "tenant_numbers [] = Some []"
| "tenant_numbers (part # parts) =
     (if strip part = [] then tenant_numbers parts
      else (case py_int part of None \<Rightarrow> None
        | Some n \<Rightarrow> map_option ((#) n) (tenant_numbers parts)))"

definition tenant_counts :: "string \<Rightarrow> (string + int list)" where
  "tenant_counts s = (case tenant_numbers (split_on CHR '','' s) of
       None \<Rightarrow> Inl ''--tenants wants integers''
     | Some counts \<Rightarrow> if counts = [] \<or> list_ex (\<lambda>n. n < 1) counts then Inl ''--tenants wants positive integers'' else Inr counts)"

record plan_args =
  pa_tenants :: "int list"
  pa_prs :: rat
  pa_ci_failures :: rat
  pa_peak_share :: rat
  pa_utilization :: rat
  pa_retention :: int
  pa_rag_tokens :: int
  pa_latency :: rat
  pa_price_in :: rat
  pa_price_out :: rat

definition default_args :: plan_args where
  "default_args = \<lparr>pa_tenants = [1, 10, 100, 1000], pa_prs = 20, pa_ci_failures = 10, pa_peak_share = 20 / 100,
     pa_utilization = 60 / 100, pa_retention = 30, pa_rag_tokens = 0,
     pa_latency = llm_latency_ms default_assumptions, pa_price_in = price_in_per_mtok default_assumptions,
     pa_price_out = price_out_per_mtok default_assumptions\<rparr>"

definition args_workload :: "plan_args \<Rightarrow> workload" where
  "args_workload a = default_workload\<lparr>prs_per_tenant_per_week := pa_prs a,
     ci_failures_per_tenant_per_week := pa_ci_failures a, peak_hour_share := pa_peak_share a,
     target_utilization := pa_utilization a, retention_days := pa_retention a, rag_tokens := pa_rag_tokens a\<rparr>"

definition args_assumptions :: "plan_args \<Rightarrow> assumptions" where
  "args_assumptions a = \<lparr>llm_latency_ms = pa_latency a, price_in_per_mtok = pa_price_in a,
     price_out_per_mtok = pa_price_out a, calibrated = pa_latency a \<noteq> llm_latency_ms default_assumptions\<rparr>"


section \<open>The report\<close>

text \<open>The part of a warning before the percentage; of several warnings with the same part the last is kept.\<close>

definition warning_key :: "string \<Rightarrow> string" where
  "warning_key w = text_before '' (the highest is '' w"

definition collapsed :: "string list \<Rightarrow> string list" where
  "collapsed ws = map (\<lambda>k. the (map_of (rev (map (\<lambda>w. (warning_key w, w)) ws)) k)) (sort (remdups (map warning_key ws)))"

text \<open>\<open>max\<close> by the number of tenants: the first of the largest.\<close>

fun largest :: "report \<Rightarrow> report list \<Rightarrow> report" where
  "largest b [] = b"
| "largest b (r # rs) = largest (if rp_tenants r > rp_tenants b then r else b) rs"

definition printed_warnings :: "string list \<Rightarrow> string list" where
  "printed_warnings ws = (if ws = [] then [] else (newline @ ''Warnings'') # map (\<lambda>w. ''  - '' @ w) (collapsed ws))"

definition plan_main :: "rat \<times> rat \<Rightarrow> (rat \<Rightarrow> string) \<Rightarrow> plan_args \<Rightarrow> string list \<times> int" where
  "plan_main bench float_repr args =
     (let w = args_workload args; a = args_assumptions args;
          reports = sweep bench float_repr (pa_tenants args) (Some w) (Some a);
          one = plan bench float_repr (Some w) (Some a);
          peak = largest (hd reports) (tl reports) in
      ([render_markdown reports, [],
        ''ingest p50/p95 (measured, in-process): '' @ float_repr (ingest_p50_ms one) @ '' ms / '' @ float_repr (ingest_p95_ms one) @ '' ms'',
        ''service time per job:                 '' @ float_repr (service_s_per_job one) @ '' s'',
        ''memory per worker:                    '' @ int_str \<lfloor>memory_per_worker_mb one\<rfloor> @ '' MB'',
        ''binding constraint at '' @ int_str (rp_tenants peak) @ '' tenants: '' @ binding_constraint peak @ '' ('' @
          float_repr (binding_share_pct peak) @ ''% of its published ceiling)'',
        ''  '' @ binding_reason peak] @
       printed_warnings (concat (map rp_warnings reports)) @
       [newline @ ''Assumptions (not measured here - calibrate them)''] @
       map (\<lambda>note. ''  - '' @ note) (assumption_notes one) @
       [newline @ ''Binding constraint is the ceiling that saturates first; see app/capacity.py.''], 0))"


section \<open>What is printed\<close>

lemma tenant_counts_positive:
  "tenant_counts s = Inr counts \<Longrightarrow> counts \<noteq> [] \<and> (\<forall>n \<in> set counts. 1 \<le> n)"
  by (auto simp: tenant_counts_def list_ex_iff not_less split: option.splits if_splits)

text \<open>No warning is lost: one line for each distinct beginning, sorted, and each line is a warning with it.\<close>

lemma collapsed_keys: "map warning_key (collapsed ws) = sort (remdups (map warning_key ws))"
proof -
  have "warning_key (the (map_of (rev (map (\<lambda>w. (warning_key w, w)) ws)) k)) = k" if "k \<in> warning_key ` set ws" for k
  proof -
    have "k \<in> fst ` set (rev (map (\<lambda>w. (warning_key w, w)) ws))" using that by force
    then obtain w where w: "map_of (rev (map (\<lambda>w. (warning_key w, w)) ws)) k = Some w"
      by (metis domIff dom_map_of_conv_image_fst not_None_eq)
    then have "(k, w) \<in> set (rev (map (\<lambda>w. (warning_key w, w)) ws))" by (rule map_of_SomeD)
    then show ?thesis using w by auto
  qed
  then have "\<forall>k \<in> set (sort (remdups (map warning_key ws))). warning_key (the (map_of (rev (map (\<lambda>w. (warning_key w, w)) ws)) k)) = k"
    by simp
  then show ?thesis by (simp only: collapsed_def map_map comp_def map_idI)
qed

lemma collapsed_complete:
  "w \<in> set ws \<Longrightarrow> \<exists>v \<in> set (collapsed ws). warning_key v = warning_key w"
proof -
  assume "w \<in> set ws"
  then have "warning_key w \<in> set (map warning_key (collapsed ws))" by (simp add: collapsed_keys)
  then show ?thesis by auto
qed

lemma largest_is: "largest b rs \<in> set (b # rs) \<and> (\<forall>r \<in> set (b # rs). rp_tenants r \<le> rp_tenants (largest b rs))"
proof (induction rs arbitrary: b)
  case (Cons r rs)
  have "largest b (r # rs) = largest r rs \<and> rp_tenants b \<le> rp_tenants r \<or>
      largest b (r # rs) = largest b rs \<and> rp_tenants r \<le> rp_tenants b" by simp
  then show ?case
  proof
    assume c: "largest b (r # rs) = largest r rs \<and> rp_tenants b \<le> rp_tenants r"
    then show ?thesis using Cons [of r] by (auto intro: order_trans)
  next
    assume c: "largest b (r # rs) = largest b rs \<and> rp_tenants r \<le> rp_tenants b"
    then show ?thesis using Cons [of b] by (auto intro: order_trans)
  qed
qed simp

end
