(* ===== verification/Seed_Demo.thy ===== *)
theory Seed_Demo
  imports Service
begin

text \<open>
  The demo data, \<^verbatim>\<open>src/scripts/seed_demo.py\<close>: the row builders and the statements of \<open>main\<close>, which deletes the
  rows of the demo organisation and inserts the literal ones, \<open>JOBS\<close> and \<open>DECISIONS\<close>. Whether the database is
  SQLite is an argument and matters in two ways: its LIKE ignores the case of ASCII letters, and it gives the id
  of a deleted last row out again.
\<close>

section \<open>Rows\<close>

record demo_spec =
  spec_row :: pr_job
  spec_summary :: "string option"

definition demo_job_spec ::
    "string \<Rightarrow> int \<Rightarrow> string \<Rightarrow> string \<Rightarrow> job_status \<Rightarrow> int \<Rightarrow> string \<Rightarrow> string option \<Rightarrow> string option \<Rightarrow> int \<Rightarrow>
     demo_spec" where
  "demo_job_spec rp pr sha auth status tries event summ last_err created =
     \<lparr>spec_row = \<lparr>job_id = 0, job_dedup_key = join ''|'' [rp, int_str pr, sha, event], job_repo = rp,
        job_pr_number = pr, job_commit_sha = sha, job_author = auth, job_event = event,
        job_installation_id = None, job_status = status, attempts = tries, stream_msg_id = None,
        job_last_error = last_err, event_context = None, job_created_at = created, job_updated_at = created\<rparr>,
      spec_summary = summ\<rparr>"

definition demo_decision_row ::
    "string \<Rightarrow> int \<Rightarrow> string \<Rightarrow> string \<Rightarrow> string \<Rightarrow> string \<Rightarrow> string \<Rightarrow> string \<Rightarrow> decision_status \<Rightarrow> string option \<Rightarrow>
     string option \<Rightarrow> int \<Rightarrow> review_decision" where
  "demo_decision_row rp pr sha act risk_level why heading text_body status link last_err created =
     \<lparr>dec_id = 0, dec_dedup_key = join ''|'' [rp, int_str pr, sha, act], dec_repo = rp, dec_pr_number = pr,
      dec_commit_sha = sha, dec_installation_id = None, dec_action = act, dec_risk = risk_level,
      dec_reason = why, dec_title = heading, dec_body = text_body, dec_status = status, result_url = link,
      dec_last_error = last_err, dec_created_at = created, dec_updated_at = created\<rparr>"

definition DEMO_ORG :: string where "DEMO_ORG = ''acme/''"


section \<open>The demo rows\<close>

definition arrow :: string where "arrow = [CHR 0xE2, CHR 0x86, CHR 0x92]"

definition ago :: "int \<Rightarrow> int \<Rightarrow> int \<Rightarrow> int \<Rightarrow> int" where
  "ago now hours minutes seconds = now - ((hours * 60 + minutes) * 60 + seconds) * 1000000"

definition BODY_SQLI :: string where
  "BODY_SQLI = join_lines
    [''## AutoPR review '' @ em_dash @ '' `auth-service`'',
     [],
     ''I reviewed the 2 changed files on this PR and found **one issue worth a human's'',
     ''attention** before merge.'',
     [],
     ''### Possible SQL injection in `lookup_token`'',
     [],
     ''The token lookup interpolates the raw `token` value straight into the query:'',
     [],
     ''```diff'',
     ''-    cur.execute(f'' @ [dquote] @ ''SELECT user_id FROM sessions WHERE token = '{token}'' @ [CHR 0x27] @ [dquote] @ '')'',
     ''+    cur.execute('' @ [dquote] @ ''SELECT user_id FROM sessions WHERE token = ?'' @ [dquote] @ '', (token,))'',
     ''```'',
     [],
     ''An attacker who controls `token` could read or drop the `sessions` table.'',
     ''Parameterizing the query closes this.'',
     [],
     ''### Notes'',
     ''- The remaining diff (logging in `middleware.py`) looks fine.'',
     ''- No test currently covers a malformed token '' @ em_dash @ '' worth adding one.'',
     [],
     ''_Risk assessed as **medium** '' @ arrow @ '' routed for human approval before posting._'',
     []]"

definition BODY_ESCALATE :: string where
  "BODY_ESCALATE = join_lines
    [''## AutoPR review '' @ em_dash @ '' `mobile-app`'',
     [],
     ''This PR touches **7 files across the auth flow** (login, refresh, logout). The'',
     ''change is plausibly correct, but its blast radius is large enough that I'm'',
     ''escalating rather than auto-commenting.'',
     [],
     ''<details>'',
     ''<summary>Why this was escalated</summary>'',
     [],
     ''- Modifies shared session handling used by three entry points.'',
     ''- Removes a retry guard around token refresh:'',
     [],
     ''```diff'',
     ''-        if attempts < MAX_RETRIES:'',
     ''-            return self._refresh(token)'',
     ''```'',
     [],
     ''- No integration test exercises the logout '' @ arrow @ '' re-login sequence.'',
     [],
     ''</details>'',
     [],
     ''### Checklist for the reviewer'',
     ''- Confirm the refresh-retry removal is intentional.'',
     ''- Verify logout clears the keychain entry on iOS.'',
     [],
     ''_Risk assessed as **high** '' @ arrow @ '' human approval required._'',
     []]"

definition BODY_LOW_EXECUTED :: string where
  "BODY_LOW_EXECUTED = join_lines
    [''## AutoPR review '' @ em_dash @ '' `web-dashboard`'',
     [],
     ''Small, self-contained change '' @ em_dash @ '' looks good to merge.'',
     [],
     ''- Renames `fetchUser` '' @ arrow @ '' `loadUser` consistently across the module.'',
     ''- No behavior change; the types line up.'',
     [],
     ''_Low risk '' @ arrow @ '' auto-posted._'',
     []]"

definition BODY_TRIVIAL_EXECUTED :: string where
  "BODY_TRIVIAL_EXECUTED = join_lines
    [''## AutoPR review '' @ em_dash @ '' `payments-api`'',
     [],
     ''Docs-only change. Nothing to flag.'',
     [],
     ''- Fixes a typo in the `/charges` endpoint docstring.'',
     [],
     ''_Trivial risk '' @ arrow @ '' auto-posted._'',
     []]"

definition BODY_REJECTED :: string where
  "BODY_REJECTED = join_lines
    [''## AutoPR review '' @ em_dash @ '' `data-pipeline`'',
     [],
     ''I flagged the removal of the null check in `transform()`:'',
     [],
     ''```diff'',
     ''-    if record is None:'',
     ''-        continue'',
     ''```'',
     [],
     ''_Risk assessed as **medium** '' @ arrow @ '' routed for approval._'',
     []]"

definition BODY_FAILED :: string where
  "BODY_FAILED = join_lines
    [''## AutoPR review '' @ em_dash @ '' `legacy-monolith`'',
     [],
     ''Suggested tightening an overly-broad `except Exception:` in the billing job.'',
     [],
     ''_Risk assessed as **medium** '' @ arrow @ '' routed for approval._'',
     []]"

definition BODY_PROPOSE_FIX :: string where
  "BODY_PROPOSE_FIX = join_lines
    [''## '' @ robot @ '' AutoPR proposed fix (sandbox-verified)'',
     [],
     ''**Failure type:** `test`'',
     [],
     ''**Diagnosis:** `test_apply_discount` expects a `Decimal` but `apply_discount`'',
     ''returns a float, so the equality assertion fails on `19.99 != Decimal('19.99')`.'',
     [],
     ''This patch was applied to a snapshot of the repo and the matching check passed'',
     ''inside an isolated sandbox. A maintainer must approve before it is applied to the'',
     ''real branch.'',
     [],
     ''```diff'',
     ''--- a/checkout/pricing.py'',
     ''+++ b/checkout/pricing.py'',
     ''@@ -14,7 +14,7 @@ def apply_discount(price, pct):'',
     ''-    return float(price) * (1 - pct / 100)'',
     ''+    return (Decimal(str(price)) * (1 - Decimal(pct) / 100)).quantize(Decimal('' @ [dquote] @ ''0.01'' @ [dquote] @ ''))'',
     ''```'',
     [],
     ''_The failing `pytest` run was re-run against the patched snapshot and passed'',
     ''(exit 0). Verified fixes change code, so this is **always** human-gated._'',
     []]"

definition BODY_CI_ESCALATE :: string where
  "BODY_CI_ESCALATE = join_lines
    [''## '' @ robot @ '' AutoPR could not auto-fix this '' @ em_dash @ '' human needed'',
     [],
     ''**Failure type:** `dependency`'',
     [],
     ''**Diagnosis:** The `notifications` workflow failed resolving `aiosmtplib>=3.0`'',
     ''against a pinned `anyio==3.7` '' @ em_dash @ '' a version conflict, not a code bug.'',
     [],
     ''**Why not auto-fixed:** `not_verifiable`'',
     [],
     ''<details><summary>Sandbox output</summary>'',
     [],
     ''```'',
     ''ERROR: Cannot install aiosmtplib==3.0.1 because these package versions have'',
     ''conflicting dependencies. anyio 3.7.0 is incompatible with anyio>=4.0 (aiosmtplib).'',
     ''```'',
     ''</details>'',
     [],
     ''_Dependency changes have wide blast radius and can't be verified offline'',
     ''(`--network none`), so this is escalated rather than auto-fixed._'',
     []]"

definition JOBS :: "int \<Rightarrow> demo_spec list" where
  "JOBS now =
    [demo_job_spec ''acme/auth-service'' 77 ''9f3c1a2b4d5e6f70'' ''priya-dev'' PROCESSING 1
       ''pull_request'' None
       None (ago now 0 1 0),
     demo_job_spec ''acme/data-pipeline'' 231 ''1b2c3d4e5f60718a'' ''sam-ml'' QUEUED 1
       ''pull_request'' None
       None (ago now 0 2 0),
     demo_job_spec ''acme/mobile-app'' 305 ''abcd1234ef567890'' ''lena-mobile'' DONE 1
       ''pull_request'' (Some ''review: risk=high action=escalate (queued for approval)'')
       None (ago now 0 6 0),
     demo_job_spec ''acme/web-dashboard'' 1290 ''77aa88bb99cc00dd'' ''kenji-fe'' DONE 1
       ''pull_request'' (Some ''review: risk=low action=comment_review (auto-posted)'')
       None (ago now 0 14 0),
     demo_job_spec ''acme/payments-api'' 482 ''deadbeef0badc0de'' ''marco-pay'' DONE 1
       ''pull_request'' (Some ''review: risk=trivial action=comment_review (auto-posted)'')
       None (ago now 0 27 0),
     demo_job_spec ''acme/infra-terraform'' 58 ''5e5e5e5e6f6f6f6f'' ''ops-bot'' JOB_PENDING 1
       ''pull_request'' None
       None (ago now 0 1 20),
     demo_job_spec ''acme/legacy-monolith'' 9001 ''0f0f0f0f1a1a1a1a'' ''contractor-x'' DEAD 5
       ''pull_request'' None
       (Some ''GitHub read failed: 404 Not Found (PR may be closed or private)'') (ago now 1 5 0),
     demo_job_spec ''acme/checkout-service'' 512 ''c1c2c3c4d5d6e7f8'' ''github-actions'' DONE 1
       ''check_run'' (Some ''ci-fix pr acme/checkout-service#512: failure=test verified=True action=propose_fix'')
       None (ago now 0 4 0),
     demo_job_spec ''acme/notifications'' 143 ''a9b8c7d6e5f40312'' ''github-actions'' DONE 1
       ''workflow_run'' (Some ''ci-fix pr acme/notifications#143: failure=dependency verified=False action=escalate'')
       None (ago now 0 9 0)]"

definition DECISIONS :: "int \<Rightarrow> review_decision list" where
  "DECISIONS now =
    [demo_decision_row ''acme/checkout-service'' 512 ''c1c2c3c4d5d6e7f8'' ''propose_fix'' ''medium'' ''verified_fix_needs_promotion''
       ''Verified fix ready for maintainer approval'' BODY_PROPOSE_FIX PENDING
       None None (ago now 0 4 0),
     demo_decision_row ''acme/notifications'' 143 ''a9b8c7d6e5f40312'' ''escalate'' ''medium'' ''not_verifiable''
       ''CI failure needs human attention'' BODY_CI_ESCALATE PENDING
       None None (ago now 0 9 0),
     demo_decision_row ''acme/mobile-app'' 305 ''abcd1234ef567890'' ''escalate'' ''high'' ''elevated_risk_needs_approval''
       (''Broad refactor touches the auth flow '' @ em_dash @ '' needs human review'') BODY_ESCALATE PENDING
       None None (ago now 0 6 0),
     demo_decision_row ''acme/auth-service'' 77 ''9f3c1a2b4d5e6f70'' ''comment_review'' ''medium'' ''elevated_risk_needs_approval''
       ''Possible SQL injection in token lookup'' BODY_SQLI PENDING
       None None (ago now 0 1 0),
     demo_decision_row ''acme/web-dashboard'' 1290 ''77aa88bb99cc00dd'' ''comment_review'' ''low'' ''low_risk_auto''
       ''Consistent rename, no behavior change'' BODY_LOW_EXECUTED EXECUTED
       (Some ''https://github.com/acme/web-dashboard/pull/1290#issuecomment-2001'') None (ago now 0 14 0),
     demo_decision_row ''acme/payments-api'' 482 ''deadbeef0badc0de'' ''comment_review'' ''trivial'' ''low_risk_auto''
       ''Docstring typo fix'' BODY_TRIVIAL_EXECUTED EXECUTED
       (Some ''https://github.com/acme/payments-api/pull/482#issuecomment-1990'') None (ago now 0 27 0),
     demo_decision_row ''acme/data-pipeline'' 231 ''1b2c3d4e5f60718a'' ''comment_review'' ''medium'' ''elevated_risk_needs_approval''
       ''Removed null guard in transform()'' BODY_REJECTED REJECTED
       None None (ago now 0 40 0),
     demo_decision_row ''acme/legacy-monolith'' 9001 ''0f0f0f0f1a1a1a1a'' ''comment_review'' ''medium'' ''elevated_risk_needs_approval''
       ''Overly-broad exception handler in billing job'' BODY_FAILED FAILED
       None (Some ''GitHub API 403: resource not accessible by integration'') (ago now 1 0 0)]"


section \<open>The statements\<close>

definition is_demo :: "bool \<Rightarrow> string \<Rightarrow> bool" where
  "is_demo sqlite rp = (if sqlite then ilike rp (DEMO_ORG @ ''%'') else sql_like (DEMO_ORG @ ''%'') rp)"

text \<open>DELETE: SQLite numbers the next row after the highest one left.\<close>

definition delete_where :: "bool \<Rightarrow> ('r \<Rightarrow> int) \<Rightarrow> ('r \<Rightarrow> bool) \<Rightarrow> 'r table \<Rightarrow> 'r table" where
  "delete_where sqlite rid P t = (let left = filter (\<lambda>r. \<not> P r) (rows t) in
     \<lparr>rows = left, seq = (if sqlite then fold (\<lambda>r n. max n (rid r + 1)) left 1 else seq t)\<rparr>)"

definition clear_demo :: "bool \<Rightarrow> database \<Rightarrow> database" where
  "clear_demo sqlite db =
     (let ids = map job_id (select_all (\<lambda>j. is_demo sqlite (job_repo j)) (pr_jobs db)) in
      db\<lparr>job_results := filter (\<lambda>r. result_job_id r \<notin> set ids) (job_results db),
         pr_jobs := delete_where sqlite job_id (\<lambda>j. is_demo sqlite (job_repo j)) (pr_jobs db),
         review_decisions := delete_where sqlite dec_id (\<lambda>d. is_demo sqlite (dec_repo d)) (review_decisions db)\<rparr>)"

definition duplicate_key :: "string \<Rightarrow> exc" where
  "duplicate_key k = Exc IntegrityError (''UNIQUE constraint failed: '' @ k)"

definition seed_job :: "demo_spec \<Rightarrow> database \<Rightarrow> database res" where
  "seed_job sp db =
     (case insert_ignore_duplicates job_dedup_key (with_job_id (spec_row sp)) (pr_jobs db) of
        (_, None) \<Rightarrow> Raise (duplicate_key ''pr_jobs.dedup_key'')
      | (t, Some i) \<Rightarrow>
          (let db1 = db\<lparr>pr_jobs := t\<rparr> in
           case spec_summary sp of
             None \<Rightarrow> Ret db1
           | Some x \<Rightarrow>
               if i \<in> set (map result_job_id (job_results db1)) then Raise (duplicate_key ''job_results.job_id'')
               else Ret (db1\<lparr>job_results := job_results db1 @ [\<lparr>result_job_id = i, result_summary = x,
                 result_created_at = job_created_at (spec_row sp)\<rparr>]\<rparr>)))"

fun seed_jobs :: "demo_spec list \<Rightarrow> database \<Rightarrow> database res" where
  "seed_jobs [] db = Ret db"
| "seed_jobs (sp # sps) db = rbind (seed_job sp db) (seed_jobs sps)"

fun seed_decisions :: "review_decision list \<Rightarrow> database \<Rightarrow> database res" where
  "seed_decisions [] db = Ret db"
| "seed_decisions (d # ds) db =
     (case insert_ignore_duplicates dec_dedup_key (with_dec_id d) (review_decisions db) of
        (_, None) \<Rightarrow> Raise (duplicate_key ''review_decisions.dedup_key'')
      | (t, Some _) \<Rightarrow> seed_decisions ds (db\<lparr>review_decisions := t\<rparr>))"

text \<open>Two transactions: the deletion stays when an insertion fails.\<close>

definition seed_main ::
    "bool \<Rightarrow> demo_spec list \<Rightarrow> review_decision list \<Rightarrow> database \<Rightarrow> database \<times> string list res" where
  "seed_main sqlite specs decs db =
     (let db0 = clear_demo sqlite db in
      case rbind (seed_jobs specs db0) (seed_decisions decs) of
        Inl e \<Rightarrow> (db0, Raise e)
      | Inr db1 \<Rightarrow> (db1, Ret
          [''Seeded '' @ nat_str (rowcount (\<lambda>j. is_demo sqlite (job_repo j)) (pr_jobs db1)) @ '' jobs and '' @
             nat_str (rowcount (\<lambda>d. is_demo sqlite (dec_repo d)) (review_decisions db1)) @ '' review decisions ('' @
             nat_str (rowcount (\<lambda>d. dec_status d = PENDING) (review_decisions db1)) @ '' pending).'',
           ''Start the API (uvicorn app.main:app --reload) and the dashboard to see it.'']))"


section \<open>What a seeding leaves\<close>

lemma fold_max_mono: "(n :: int) \<le> fold (\<lambda>r m. max m (f r + 1)) rs n"
proof (induction rs arbitrary: n)
  case (Cons r rs)
  show ?case using Cons [of "max n (f r + 1)"] by simp
qed simp

lemma fold_max_upper: "r \<in> set rs \<Longrightarrow> f r < fold (\<lambda>r m. max m (f r + 1)) rs (n :: int)"
proof (induction rs arbitrary: n)
  case (Cons a rs)
  then show ?case using fold_max_mono [of "max n (f a + 1)" f rs] by auto
qed simp

lemma distinct_map_part: "distinct (map f xs) \<Longrightarrow> distinct (map f (filter P xs))"
  by (induction xs) auto

lemma wf_delete [wf_intros]: "wf_table rid rkey t \<Longrightarrow> wf_table rid rkey (delete_where sqlite rid P t)"
  using fold_max_upper [of _ "filter (\<lambda>r. \<not> P r) (rows t)" rid 1]
  by (auto simp: wf_table_def delete_where_def Let_def distinct_map_part)

lemma wf_clear: "wf_db db \<Longrightarrow> wf_db (clear_demo sqlite db)"
  by (simp add: clear_demo_def wf_db_def Let_def wf_delete distinct_map_part)

lemma like_org: "sql_like (DEMO_ORG @ ''%'') rp \<longleftrightarrow> startswith rp DEMO_ORG"
proof -
  have "sql_like ''%'' r" for r by (induction r) auto
  moreover have "DEMO_ORG = concat (map like_escape DEMO_ORG)" by (simp add: DEMO_ORG_def like_escape_def)
  ultimately show ?thesis
    unfolding startswith_iff by (metis sql_like_literal)
qed

lemma is_demo_postgres: "is_demo False rp \<longleftrightarrow> startswith rp DEMO_ORG"
  by (simp add: is_demo_def like_org)

lemma is_demo_sqlite: "is_demo True rp \<longleftrightarrow> startswith (lower rp) DEMO_ORG"
proof -
  have "lower (DEMO_ORG @ ''%'') = DEMO_ORG @ ''%''" by code_simp
  then show ?thesis by (simp add: is_demo_def ilike_def like_org)
qed

lemma is_demo_any: "is_demo False rp \<Longrightarrow> is_demo sqlite rp"
proof -
  have "lower DEMO_ORG = DEMO_ORG" by code_simp
  then show "is_demo False rp \<Longrightarrow> is_demo sqlite rp"
    by (cases sqlite) (auto simp: is_demo_postgres is_demo_sqlite startswith_iff lower_def)
qed

lemma seed_job_effect:
  assumes "seed_job sp db = Ret db'"
  shows "pr_jobs db' = insert_row (with_job_id (spec_row sp)) (pr_jobs db)"
    and "review_decisions db' = review_decisions db" and "installations db' = installations db"
    and "\<exists>rs. job_results db' = job_results db @ rs \<and> (\<forall>r \<in> set rs. result_job_id r = seq (pr_jobs db))"
    and "wf_db db \<Longrightarrow> wf_db db'"
proof -
  let ?t = "insert_row (with_job_id (spec_row sp)) (pr_jobs db)"
  have new: "insert_ignore_duplicates job_dedup_key (with_job_id (spec_row sp)) (pr_jobs db) = (?t, Some (seq (pr_jobs db)))"
    and free: "\<forall>r \<in> set (rows (pr_jobs db)). job_dedup_key r \<noteq> job_dedup_key (spec_row sp)"
    using assms by (auto simp: seed_job_def insert_ignore_duplicates_def with_job_id_def split: if_splits)
  have db': "db' = db\<lparr>pr_jobs := ?t\<rparr> \<or> (seq (pr_jobs db) \<notin> set (map result_job_id (job_results db)) \<and>
      (\<exists>x. db' = db\<lparr>pr_jobs := ?t, job_results := job_results db @ [\<lparr>result_job_id = seq (pr_jobs db), result_summary = x,
        result_created_at = job_created_at (spec_row sp)\<rparr>]\<rparr>))"
    using assms unfolding seed_job_def new by (auto simp: Let_def split: option.splits if_splits)
  then show "pr_jobs db' = ?t" "review_decisions db' = review_decisions db" "installations db' = installations db"
    "\<exists>rs. job_results db' = job_results db @ rs \<and> (\<forall>r \<in> set rs. result_job_id r = seq (pr_jobs db))"
    by auto
  assume "wf_db db"
  moreover from this have "wf_table job_id job_dedup_key ?t" using free by (auto intro: jobs.wf_insert dest: wf_dbD)
  ultimately show "wf_db db'" using db' by (auto simp: wf_db_def)
qed

lemma seed_jobs_effect:
  assumes "seed_jobs sps db = Ret db'"
  shows "\<exists>new rs. rows (pr_jobs db') = rows (pr_jobs db) @ new \<and>
    map (\<lambda>j. j\<lparr>job_id := 0\<rparr>) new = map (\<lambda>sp. (spec_row sp)\<lparr>job_id := 0\<rparr>) sps \<and>
    job_results db' = job_results db @ rs \<and> (\<forall>r \<in> set rs. seq (pr_jobs db) \<le> result_job_id r) \<and>
    review_decisions db' = review_decisions db \<and> installations db' = installations db \<and> (wf_db db \<longrightarrow> wf_db db')"
  using assms
proof (induction sps arbitrary: db)
  case (Cons sp sps)
  then obtain db1 where one: "seed_job sp db = Ret db1" and rest: "seed_jobs sps db1 = Ret db'" by auto
  note e = seed_job_effect [OF one]
  obtain rs1 where rs1: "job_results db1 = job_results db @ rs1" "\<forall>r \<in> set rs1. result_job_id r = seq (pr_jobs db)"
    using e(4) by blast
  obtain new rs where n: "rows (pr_jobs db') = rows (pr_jobs db1) @ new"
    "map (\<lambda>j. j\<lparr>job_id := 0\<rparr>) new = map (\<lambda>sp. (spec_row sp)\<lparr>job_id := 0\<rparr>) sps"
    "job_results db' = job_results db1 @ rs" "\<forall>r \<in> set rs. seq (pr_jobs db1) \<le> result_job_id r"
    "review_decisions db' = review_decisions db1" "installations db' = installations db1" "wf_db db1 \<longrightarrow> wf_db db'"
    using Cons.IH [OF rest] by blast
  have "seq (pr_jobs db) \<le> result_job_id r" if "r \<in> set (rs1 @ rs)" for r
    using that rs1(2) n(4) e(1) by (auto dest: bspec)
  then show ?case using n e rs1(1)
    by (intro exI [of _ "with_job_id (spec_row sp) (seq (pr_jobs db)) # new"] exI [of _ "rs1 @ rs"])
      (simp add: with_job_id_def)
qed simp

lemma seed_decisions_effect:
  assumes "seed_decisions ds db = Ret db'"
  shows "\<exists>new. rows (review_decisions db') = rows (review_decisions db) @ new \<and>
    map (\<lambda>d. d\<lparr>dec_id := 0\<rparr>) new = map (\<lambda>d. d\<lparr>dec_id := 0\<rparr>) ds \<and>
    pr_jobs db' = pr_jobs db \<and> job_results db' = job_results db \<and> installations db' = installations db \<and>
    (wf_db db \<longrightarrow> wf_db db')"
  using assms
proof (induction ds arbitrary: db)
  case (Cons d ds)
  let ?t = "insert_row (with_dec_id d) (review_decisions db)" and ?db = "db\<lparr>review_decisions := insert_row (with_dec_id d) (review_decisions db)\<rparr>"
  have free: "\<forall>r \<in> set (rows (review_decisions db)). dec_dedup_key r \<noteq> dec_dedup_key d"
    and rest: "seed_decisions ds ?db = Ret db'"
    using Cons.prems by (auto simp: insert_ignore_duplicates_def with_dec_id_def split: if_splits)
  obtain new where n: "rows (review_decisions db') = rows ?t @ new"
    "map (\<lambda>d. d\<lparr>dec_id := 0\<rparr>) new = map (\<lambda>d. d\<lparr>dec_id := 0\<rparr>) ds"
    "pr_jobs db' = pr_jobs db" "job_results db' = job_results db" "installations db' = installations db" "wf_db ?db \<longrightarrow> wf_db db'"
    using Cons.IH [OF rest] by auto
  have "wf_db ?db" if "wf_db db"
    using that free by (intro wf_db_decisions decisions.wf_insert) (auto dest: wf_dbD)
  then show ?case using n
    by (intro exI [of _ "with_dec_id d (seq (review_decisions db)) # new"]) (simp add: with_dec_id_def)
qed simp

text \<open>Erasing the id does not change whether a row is a demo row.\<close>

lemma part_of_new:
  assumes "map g new = map g0 specs" and "\<And>x. P x = Q (g x)" and "\<And>s. s \<in> set specs \<Longrightarrow> Q (g0 s)"
  shows "filter P new = new"
proof -
  have "P x" if "x \<in> set new" for x
  proof -
    have "g x \<in> g0 ` set specs" using that arg_cong [OF assms(1), of set] by auto
    then show ?thesis using assms(2,3) by auto
  qed
  then show ?thesis by simp
qed

text \<open>
  A seeding replaces the demo rows and nothing else, whether it succeeds or fails on a duplicate key: the rows
  of all other repositories, their ledger entries and the installations are as before; after a success the demo
  rows are exactly the given ones, in order, however often the script has run before.
\<close>

lemma seeding_effect:
  assumes "wf_db db" and "seed_main sqlite specs decs db = (db', r)"
    and "\<forall>sp \<in> set specs. is_demo sqlite (job_repo (spec_row sp))" and "\<forall>d \<in> set decs. is_demo sqlite (dec_repo d)"
  shows "wf_db db' \<and> installations db' = installations db \<and>
    filter (\<lambda>j. \<not> is_demo sqlite (job_repo j)) (rows (pr_jobs db')) = filter (\<lambda>j. \<not> is_demo sqlite (job_repo j)) (rows (pr_jobs db)) \<and>
    filter (\<lambda>d. \<not> is_demo sqlite (dec_repo d)) (rows (review_decisions db')) =
      filter (\<lambda>d. \<not> is_demo sqlite (dec_repo d)) (rows (review_decisions db)) \<and>
    (\<forall>out. r = Ret out \<longrightarrow>
      map (\<lambda>j. j\<lparr>job_id := 0\<rparr>) (filter (\<lambda>j. is_demo sqlite (job_repo j)) (rows (pr_jobs db'))) =
        map (\<lambda>sp. (spec_row sp)\<lparr>job_id := 0\<rparr>) specs \<and>
      map (\<lambda>d. d\<lparr>dec_id := 0\<rparr>) (filter (\<lambda>d. is_demo sqlite (dec_repo d)) (rows (review_decisions db'))) =
        map (\<lambda>d. d\<lparr>dec_id := 0\<rparr>) decs)"
proof -
  let ?db0 = "clear_demo sqlite db"
  have wf0: "wf_db ?db0" using assms(1) by (rule wf_clear)
  have left: "rows (pr_jobs ?db0) = filter (\<lambda>j. \<not> is_demo sqlite (job_repo j)) (rows (pr_jobs db))"
    "rows (review_decisions ?db0) = filter (\<lambda>d. \<not> is_demo sqlite (dec_repo d)) (rows (review_decisions db))"
    "installations ?db0 = installations db"
    by (simp_all add: clear_demo_def delete_where_def Let_def)
  show ?thesis
  proof (cases "rbind (seed_jobs specs ?db0) (seed_decisions decs)")
    case (Inl e)
    then have "db' = ?db0" "r = Raise e" using assms(2) by (simp_all add: seed_main_def Let_def)
    then show ?thesis using wf0 left by simp
  next
    case (Inr db2)
    have db': "db' = db2" using assms(2) unfolding seed_main_def Let_def Inr by simp
    obtain db1 where one: "seed_jobs specs ?db0 = Ret db1" and two: "seed_decisions decs db1 = Ret db2" using Inr by auto
    obtain new rs where n: "rows (pr_jobs db1) = rows (pr_jobs ?db0) @ new"
      "map (\<lambda>j. j\<lparr>job_id := 0\<rparr>) new = map (\<lambda>sp. (spec_row sp)\<lparr>job_id := 0\<rparr>) specs"
      "review_decisions db1 = review_decisions ?db0" "installations db1 = installations ?db0" "wf_db db1"
      using seed_jobs_effect [OF one] wf0 by blast
    obtain ds where d: "rows (review_decisions db2) = rows (review_decisions db1) @ ds"
      "map (\<lambda>d. d\<lparr>dec_id := 0\<rparr>) ds = map (\<lambda>d. d\<lparr>dec_id := 0\<rparr>) decs"
      "pr_jobs db2 = pr_jobs db1" "installations db2 = installations db1" "wf_db db2"
      using seed_decisions_effect [OF two] n(5) by blast
    have "filter (\<lambda>j. is_demo sqlite (job_repo j)) new = new"
      by (rule part_of_new [OF n(2), of _ "\<lambda>j. is_demo sqlite (job_repo j)"]) (use assms(3) in simp_all)
    moreover have "filter (\<lambda>x. is_demo sqlite (dec_repo x)) ds = ds"
      by (rule part_of_new [OF d(2), of _ "\<lambda>x. is_demo sqlite (dec_repo x)"]) (use assms(4) in simp_all)
    moreover from calculation have "filter (\<lambda>j. \<not> is_demo sqlite (job_repo j)) new = []"
      "filter (\<lambda>x. \<not> is_demo sqlite (dec_repo x)) ds = []" by (metis filter_False filter_id_conv)+
    ultimately show ?thesis using n d left db' by (simp add: filter_empty_conv)
  qed
qed

text \<open>The documentation promises that other repositories are left alone; SQLite also deletes these.\<close>

lemma other_case_is_demo: "is_demo True ''Acme/shop''" "\<not> is_demo False ''Acme/shop''"
  by code_simp+


section \<open>The demo rows always go in\<close>

lemma seed_jobs_succeed:
  assumes "distinct (map (\<lambda>sp. job_dedup_key (spec_row sp)) sps)"
    and "\<forall>sp \<in> set sps. \<forall>j \<in> set (rows (pr_jobs db)). job_dedup_key j \<noteq> job_dedup_key (spec_row sp)"
    and "\<forall>i \<in> ledger_ids db. i < seq (pr_jobs db)"
  shows "\<exists>db'. seed_jobs sps db = Ret db'"
  using assms
proof (induction sps arbitrary: db)
  case (Cons sp sps)
  let ?t = "insert_row (with_job_id (spec_row sp)) (pr_jobs db)"
  have new: "insert_ignore_duplicates job_dedup_key (with_job_id (spec_row sp)) (pr_jobs db) = (?t, Some (seq (pr_jobs db)))"
    using Cons.prems(2) by (auto simp: insert_ignore_duplicates_def with_job_id_def)
  have "seq (pr_jobs db) \<notin> set (map result_job_id (job_results db))"
    using Cons.prems(3) by (auto simp: ledger_ids_def)
  then obtain db1 where one: "seed_job sp db = Ret db1"
    unfolding seed_job_def new by (cases "spec_summary sp") (simp_all add: Let_def)
  note e = seed_job_effect [OF one]
  have "\<exists>db'. seed_jobs sps db1 = Ret db'"
  proof (rule Cons.IH)
    show "distinct (map (\<lambda>sp. job_dedup_key (spec_row sp)) sps)" using Cons.prems(1) by simp
    show "\<forall>sp \<in> set sps. \<forall>j \<in> set (rows (pr_jobs db1)). job_dedup_key j \<noteq> job_dedup_key (spec_row sp)"
      using Cons.prems(1,2) by (auto simp: e(1) with_job_id_def)
    show "\<forall>i \<in> ledger_ids db1. i < seq (pr_jobs db1)"
      using Cons.prems(3) e(1,4) by (fastforce simp: ledger_ids_def)
  qed
  then show ?case using one by auto
qed simp

lemma seed_decisions_succeed:
  assumes "distinct (map dec_dedup_key ds)"
    and "\<forall>d \<in> set ds. \<forall>r \<in> set (rows (review_decisions db)). dec_dedup_key r \<noteq> dec_dedup_key d"
  shows "\<exists>db'. seed_decisions ds db = Ret db'"
  using assms
proof (induction ds arbitrary: db)
  case (Cons d ds)
  let ?db = "db\<lparr>review_decisions := insert_row (with_dec_id d) (review_decisions db)\<rparr>"
  have "insert_ignore_duplicates dec_dedup_key (with_dec_id d) (review_decisions db) =
      (review_decisions ?db, Some (seq (review_decisions db)))"
    using Cons.prems(2) by (auto simp: insert_ignore_duplicates_def with_dec_id_def)
  moreover have "\<exists>db'. seed_decisions ds ?db = Ret db'"
    using Cons.prems by (intro Cons.IH) (auto simp: with_dec_id_def)
  ultimately show ?case by simp
qed simp

text \<open>The literal rows: distinct keys, all of the demo organisation, and a job for every decision.\<close>

lemma demo_keys:
  "distinct (map (\<lambda>sp. job_dedup_key (spec_row sp)) (JOBS now))" "distinct (map dec_dedup_key (DECISIONS now))"
  "\<forall>sp \<in> set (JOBS now). is_demo False (job_dedup_key (spec_row sp))"
  "\<forall>d \<in> set (DECISIONS now). is_demo False (dec_dedup_key d)"
  by (simp_all add: JOBS_def DECISIONS_def demo_job_spec_def demo_decision_row_def is_demo_postgres DEMO_ORG_def startswith_def)

lemma demo_repos:
  "\<forall>sp \<in> set (JOBS now). is_demo False (job_repo (spec_row sp))" "\<forall>d \<in> set (DECISIONS now). is_demo False (dec_repo d)"
  by (simp_all add: JOBS_def DECISIONS_def demo_job_spec_def demo_decision_row_def is_demo_postgres DEMO_ORG_def startswith_def)

lemma demo_owners: "owner_of ` set (DECISIONS now) \<subseteq> (\<lambda>sp. work_owner (spec_row sp)) ` set (JOBS now)"
  by (simp add: JOBS_def DECISIONS_def demo_job_spec_def demo_decision_row_def owner_of_def work_owner_def)

text \<open>Deleting the demo rows leaves no reference behind.\<close>

lemma cleared_ledger:
  assumes "integrity s db"
  shows "ledger_ids (clear_demo sqlite db) \<subseteq> job_ids (clear_demo sqlite db)"
proof
  fix i assume "i \<in> ledger_ids (clear_demo sqlite db)"
  then have i: "i \<in> ledger_ids db" "i \<notin> job_id ` {j \<in> set (rows (pr_jobs db)). is_demo sqlite (job_repo j)}"
    by (auto simp: ledger_ids_def clear_demo_def select_all_def Let_def)
  then have "i \<in> job_ids db" using assms by (auto simp: integrity_def)
  then obtain j where "j \<in> set (rows (pr_jobs db))" "i = job_id j" by (auto simp: job_ids_def)
  then show "i \<in> job_ids (clear_demo sqlite db)"
    using i(2) by (auto simp: job_ids_def clear_demo_def delete_where_def Let_def)
qed

lemma cleared_owners:
  assumes "integrity s db"
  shows "owners (clear_demo sqlite db) \<subseteq> job_owners (clear_demo sqlite db)"
proof
  fix ow assume "ow \<in> owners (clear_demo sqlite db)"
  then obtain d where d: "d \<in> set (rows (review_decisions db))" "\<not> is_demo sqlite (dec_repo d)" "ow = owner_of d"
    by (auto simp: owners_def clear_demo_def delete_where_def Let_def)
  then have "ow \<in> job_owners db" using assms by (auto simp: integrity_def owners_def)
  then obtain j where j: "j \<in> set (rows (pr_jobs db))" "ow = work_owner j" by (auto simp: job_owners_def)
  then have "job_repo j = dec_repo d" using d(3) by (simp add: owner_of_def work_owner_def)
  then show "ow \<in> job_owners (clear_demo sqlite db)"
    using j d(2) by (auto simp: job_owners_def clear_demo_def delete_where_def Let_def)
qed

lemma cleared_tenants: "job_tenants (clear_demo sqlite db) \<subseteq> job_tenants db"
  by (auto simp: job_tenants_def clear_demo_def delete_where_def Let_def)

lemma seed_jobs_ledger:
  "seed_jobs sps db = Ret db' \<Longrightarrow> ledger_ids db \<subseteq> job_ids db \<Longrightarrow> ledger_ids db' \<subseteq> job_ids db'"
proof (induction sps arbitrary: db)
  case (Cons sp sps)
  then obtain db1 where one: "seed_job sp db = Ret db1" and rest: "seed_jobs sps db1 = Ret db'" by auto
  note e = seed_job_effect [OF one]
  have "job_ids db1 = insert (seq (pr_jobs db)) (job_ids db)" by (simp add: job_ids_def e(1) with_job_id_def)
  moreover have "ledger_ids db1 \<subseteq> insert (seq (pr_jobs db)) (ledger_ids db)" using e(4) by (auto simp: ledger_ids_def)
  ultimately have "ledger_ids db1 \<subseteq> job_ids db1" using Cons.prems(2) by blast
  with rest show ?case by (rule Cons.IH)
qed simp

lemma image_of_new:
  assumes "map g new = map g0 specs" and "\<And>x. f x = h (g x)"
  shows "f ` set new = (\<lambda>s. h (g0 s)) ` set specs"
proof -
  have "f ` set new = h ` set (map g new)" using assms(2) by (simp add: image_image)
  also have "\<dots> = (\<lambda>s. h (g0 s)) ` set specs" unfolding assms(1) by (simp add: image_image)
  finally show ?thesis .
qed

lemma seeded_integrity:
  assumes "integrity s db" and "ledger_ids db2 \<subseteq> job_ids db2" and "installations db2 = installations db"
    and "rows (pr_jobs db2) = rows (pr_jobs (clear_demo sqlite db)) @ new"
    and "map (\<lambda>j. j\<lparr>job_id := 0\<rparr>) new = map (\<lambda>sp. (spec_row sp)\<lparr>job_id := 0\<rparr>) (JOBS now)"
    and "rows (review_decisions db2) = rows (review_decisions (clear_demo sqlite db)) @ ds"
    and "map (\<lambda>d. d\<lparr>dec_id := 0\<rparr>) ds = map (\<lambda>d. d\<lparr>dec_id := 0\<rparr>) (DECISIONS now)"
  shows "integrity s db2"
proof -
  have new: "work_owner ` set new = (\<lambda>sp. work_owner (spec_row sp)) ` set (JOBS now)"
    using image_of_new [OF assms(5), of work_owner work_owner] by (simp add: work_owner_def)
  have ds: "owner_of ` set ds = owner_of ` set (DECISIONS now)"
    using image_of_new [OF assms(7), of owner_of owner_of] by (simp add: owner_of_def)
  have "owners db2 = owners (clear_demo sqlite db) \<union> owner_of ` set ds"
    by (simp add: owners_def assms(6) image_Un)
  also have "\<dots> \<subseteq> job_owners (clear_demo sqlite db) \<union> work_owner ` set new"
    unfolding ds new by (rule Un_mono [OF cleared_owners [OF assms(1)] demo_owners])
  also have "\<dots> = job_owners db2" by (simp add: job_owners_def assms(4) image_Un)
  finally have "owners db2 \<subseteq> job_owners db2" .
  moreover have "job_installation_id ` set new \<subseteq> {None}"
  proof -
    have "job_installation_id ` set new = (\<lambda>sp. job_installation_id (spec_row sp)) ` set (JOBS now)"
      using image_of_new [OF assms(5), of job_installation_id job_installation_id] by simp
    also have "\<dots> \<subseteq> {None}" by (simp add: JOBS_def demo_job_spec_def)
    finally show ?thesis .
  qed
  moreover have "job_tenants db2 = job_tenants (clear_demo sqlite db) \<union> job_installation_id ` set new"
    by (simp add: job_tenants_def assms(4) image_Un)
  ultimately have "owners db2 \<subseteq> job_owners db2" "job_tenants db2 \<subseteq> insert None (job_tenants db)"
    using cleared_tenants [of sqlite db] by auto
  moreover have "tenant_ids db2 = tenant_ids db" by (simp add: tenant_ids_def assms(3))
  ultimately show ?thesis
    using assms(1,2) unfolding integrity_def by blast
qed

text \<open>
  The script can be run on any consistent database, again and again: it never meets a duplicate key, leaves the
  references between the tables intact, and the demo rows are the nine jobs and eight decisions of the script.
  Real rows have keys outside the demo organisation: a job's key is a hexadecimal digest.
\<close>

theorem seeding_succeeds:
  assumes "wf_db db" and "integrity s db"
    and "\<forall>j \<in> set (rows (pr_jobs db)). is_demo False (job_dedup_key j) \<longrightarrow> is_demo sqlite (job_repo j)"
    and "\<forall>d \<in> set (rows (review_decisions db)). is_demo False (dec_dedup_key d) \<longrightarrow> is_demo sqlite (dec_repo d)"
  shows "\<exists>db' out. seed_main sqlite (JOBS now) (DECISIONS now) db = (db', Ret out) \<and> wf_db db' \<and> integrity s db' \<and>
    rowcount (\<lambda>j. is_demo sqlite (job_repo j)) (pr_jobs db') = 9 \<and>
    rowcount (\<lambda>d. is_demo sqlite (dec_repo d)) (review_decisions db') = 8"
proof -
  let ?db0 = "clear_demo sqlite db"
  have wf0: "wf_db ?db0" using assms(1) by (rule wf_clear)
  have jobs0: "rows (pr_jobs ?db0) = filter (\<lambda>j. \<not> is_demo sqlite (job_repo j)) (rows (pr_jobs db))"
    and decs0: "rows (review_decisions ?db0) = filter (\<lambda>d. \<not> is_demo sqlite (dec_repo d)) (rows (review_decisions db))"
    by (simp_all add: clear_demo_def delete_where_def Let_def)
  have "\<exists>db1. seed_jobs (JOBS now) ?db0 = Ret db1"
  proof (rule seed_jobs_succeed)
    show "\<forall>sp \<in> set (JOBS now). \<forall>j \<in> set (rows (pr_jobs ?db0)). job_dedup_key j \<noteq> job_dedup_key (spec_row sp)"
      using demo_keys(3) [of now] assms(3) unfolding jobs0 by fastforce
    show "\<forall>i \<in> ledger_ids ?db0. i < seq (pr_jobs ?db0)"
      using cleared_ledger [OF assms(2)] wf_dbD(1) [OF wf0] by (auto simp: job_ids_def wf_table_def)
  qed (rule demo_keys)
  then obtain db1 where one: "seed_jobs (JOBS now) ?db0 = Ret db1" by blast
  obtain new rs where n: "rows (pr_jobs db1) = rows (pr_jobs ?db0) @ new"
    "map (\<lambda>j. j\<lparr>job_id := 0\<rparr>) new = map (\<lambda>sp. (spec_row sp)\<lparr>job_id := 0\<rparr>) (JOBS now)"
    "job_results db1 = job_results ?db0 @ rs"
    "review_decisions db1 = review_decisions ?db0" "installations db1 = installations ?db0" "wf_db db1"
    using seed_jobs_effect [OF one] wf0 by blast
  have "\<exists>db2. seed_decisions (DECISIONS now) db1 = Ret db2"
  proof (rule seed_decisions_succeed)
    show "\<forall>d \<in> set (DECISIONS now). \<forall>r \<in> set (rows (review_decisions db1)). dec_dedup_key r \<noteq> dec_dedup_key d"
      using demo_keys(4) [of now] assms(4) unfolding n(4) decs0 by fastforce
  qed (rule demo_keys)
  then obtain db2 where two: "seed_decisions (DECISIONS now) db1 = Ret db2" by blast
  obtain out where run: "seed_main sqlite (JOBS now) (DECISIONS now) db = (db2, Ret out)"
    using one two by (simp add: seed_main_def Let_def)
  have real: "\<forall>sp \<in> set (JOBS now). is_demo sqlite (job_repo (spec_row sp))" "\<forall>d \<in> set (DECISIONS now). is_demo sqlite (dec_repo d)"
    using demo_repos is_demo_any by blast+
  from seeding_effect [OF assms(1) run real]
  have wf2: "wf_db db2" and "length (filter (\<lambda>j. is_demo sqlite (job_repo j)) (rows (pr_jobs db2))) = length (JOBS now)"
    and "length (filter (\<lambda>d. is_demo sqlite (dec_repo d)) (rows (review_decisions db2))) = length (DECISIONS now)"
    by (metis length_map)+
  moreover have "integrity s db2"
  proof -
    obtain ds where d: "rows (review_decisions db2) = rows (review_decisions db1) @ ds"
      "map (\<lambda>d. d\<lparr>dec_id := 0\<rparr>) ds = map (\<lambda>d. d\<lparr>dec_id := 0\<rparr>) (DECISIONS now)"
      "pr_jobs db2 = pr_jobs db1" "job_results db2 = job_results db1" "installations db2 = installations db1"
      using seed_decisions_effect [OF two] by blast
    have "ledger_ids db2 \<subseteq> job_ids db2"
      using seed_jobs_ledger [OF one cleared_ledger [OF assms(2)]] d(3,4) by (simp add: ledger_ids_def job_ids_def)
    moreover have "installations db2 = installations db" using n(5) d(5) by (simp add: clear_demo_def Let_def)
    ultimately show ?thesis
      using n(1,4) d(1,3) by (intro seeded_integrity [OF assms(2) _ _ _ n(2) _ d(2)]) simp_all
  qed
  moreover have "length (JOBS now) = 9" "length (DECISIONS now) = 8" by (simp_all add: JOBS_def DECISIONS_def)
  ultimately show ?thesis using run by (auto simp: rowcount_def)
qed

definition shop_db :: database where
  "shop_db = empty_db\<lparr>pr_jobs := \<lparr>rows = [with_job_id (spec_row (demo_job_spec ''octo/shop'' 1 ''abc'' ''me'' QUEUED 1
     ''pull_request'' None None 3)) 1], seq = 2\<rparr>\<rparr>"

theorem seeding_succeeds_witness:
  "\<exists>db' out. seed_main True (JOBS 5) (DECISIONS 5) shop_db = (db', Ret out)"
proof -
  have "wf_db shop_db" by (simp add: shop_db_def wf_db_def wf_table_def empty_db_def empty_table_def with_job_id_def)
  moreover have "integrity default_settings shop_db"
    by (simp add: shop_db_def integrity_def reference_defs empty_db_def empty_table_def with_job_id_def demo_job_spec_def)
  moreover have "\<forall>j \<in> set (rows (pr_jobs shop_db)). is_demo False (job_dedup_key j) \<longrightarrow> is_demo True (job_repo j)"
    by (simp add: shop_db_def demo_job_spec_def with_job_id_def is_demo_postgres startswith_def DEMO_ORG_def)
  moreover have "\<forall>d \<in> set (rows (review_decisions shop_db)). is_demo False (dec_dedup_key d) \<longrightarrow> is_demo True (dec_repo d)"
    by (simp add: shop_db_def empty_db_def empty_table_def)
  ultimately show ?thesis using seeding_succeeds [of shop_db default_settings True 5] by blast
qed

end
