(* ===== verification/Negative_Control.thy ===== *)
theory Negative_Control
  imports Policy "HOL-Library.List_Lexorder" "HOL-Library.Char_ord"
begin

text \<open>
  The negative controls of the claim, \<^verbatim>\<open>src/scripts/negative_control_claim.py\<close>: each guard of \<open>process_job\<close> is
  removed from \<^verbatim>\<open>app/worker.py\<close> in turn, the tests that assert it must fail, and the file is put back. The state
  is the content of the file and what has been printed. The test run is a parameter: from the arguments and the
  file to the file it leaves, its output and its exit code. The file is in UTF-8; its lines are those of
  its bytes, with wider characters in comments only.
\<close>

section \<open>Controls\<close>

record control =
  ctl_name :: string
  ctl_find :: string
  ctl_replace :: string
  ctl_tests :: "string list"
  ctl_must_fail :: "string list"
  ctl_drop :: "string option"
  ctl_postgres :: bool

definition CONCURRENCY :: string where "CONCURRENCY = ''tests/test_worker_concurrency.py''"
definition CRASH :: string where "CRASH = ''tests/test_worker_crash.py''"
definition MULTIPROCESS :: string where "MULTIPROCESS = ''tests/test_worker_multiprocess.py''"

definition CONTROLS :: "control list" where
  "CONTROLS =
    [\<lparr>ctl_name = ''claim disabled (every delivery wins the row)'',
      ctl_find = ''PRJob.status.in_([JobStatus.QUEUED, JobStatus.PENDING])'',
      ctl_replace = ''PRJob.id.isnot(None),  # NEGATIVE CONTROL: unconditional claim'',
      ctl_tests = [CONCURRENCY],
      ctl_must_fail = [''test_two_threads_claiming_one_job_run_the_handler_once'', ''test_claim_lost_acks_without_working''],
      ctl_drop = Some ''| ((PRJob.status == JobStatus.PROCESSING)'', ctl_postgres = False\<rparr>,
     \<lparr>ctl_name = ''release disabled (a failed job stays PROCESSING)'',
      ctl_find = ''.values(status=JobStatus.QUEUED, last_error=repr(exc))'',
      ctl_replace = ''.values(last_error=repr(exc))  # NEGATIVE CONTROL: no release'',
      ctl_tests = [CONCURRENCY, CRASH],
      ctl_must_fail = [''test_failed_handler_releases_the_claim'', ''test_retries_capped_then_escalated''],
      ctl_drop = None, ctl_postgres = False\<rparr>,
     \<lparr>ctl_name = ''claim disabled, same test but across processes (needs Postgres)'',
      ctl_find = ''PRJob.status.in_([JobStatus.QUEUED, JobStatus.PENDING])'',
      ctl_replace = ''PRJob.id.isnot(None),  # NEGATIVE CONTROL: unconditional claim'',
      ctl_tests = [MULTIPROCESS],
      ctl_must_fail = [''test_processes_racing_on_one_job_run_the_handler_once'', ''test_many_processes_over_many_jobs_lose_nothing''],
      ctl_drop = Some ''| ((PRJob.status == JobStatus.PROCESSING)'', ctl_postgres = True\<rparr>]"

definition postgres_available :: "string option \<Rightarrow> bool \<Rightarrow> bool" where
  "postgres_available test_url has_pgserver \<longleftrightarrow> strip (get_default [] test_url) \<noteq> [] \<or> has_pgserver"


section \<open>The sabotage\<close>

definition system_exit :: "string \<Rightarrow> exc" where
  "system_exit m = Exc OtherException (''SystemExit: '' @ m)"

definition not_found :: "string \<Rightarrow> control \<Rightarrow> exc" where
  "not_found what c = system_exit (what @ '' not found for control '' @ str_repr (ctl_name c) @ '' '' @ em_dash @
     '' the code changed shape; update this script'')"

fun first_index :: "('a \<Rightarrow> bool) \<Rightarrow> 'a list \<Rightarrow> nat option" where
  "first_index P [] = None"
| "first_index P (x # xs) = (if P x then Some 0 else map_option Suc (first_index P xs))"

definition indent_of :: "string \<Rightarrow> string" where
  "indent_of line = take (length line - length (lstrip line)) line"

text \<open>The inner loop over the three lines after the match.\<close>

definition drop_line :: "control \<Rightarrow> string \<Rightarrow> nat \<Rightarrow> string list \<Rightarrow> string list res" where
  "drop_line c indent i ls = (case ctl_drop c of
       None \<Rightarrow> Ret ls
     | Some mark \<Rightarrow> (case first_index (\<lambda>j. contains (ls ! j) mark) [i + 1..<min (i + 4) (length ls)] of
           None \<Rightarrow> Raise (not_found ''continuation line'' c)
         | Some k \<Rightarrow> Ret (ls[i + 1 + k := indent @ ''# NEGATIVE CONTROL: continuation dropped''])))"

definition sabotaged_lines :: "string list \<Rightarrow> control \<Rightarrow> string list res" where
  "sabotaged_lines ls c = (case first_index (\<lambda>l. contains l (ctl_find c)) ls of
       None \<Rightarrow> Raise (not_found ''sabotage point'' c)
     | Some i \<Rightarrow> drop_line c (indent_of (ls ! i)) i (ls[i := indent_of (ls ! i) @ ctl_replace c]))"

definition crlf :: string where "crlf = [CHR 0x0D, CHR 0x0A]"

definition sabotage :: "string \<Rightarrow> control \<Rightarrow> string res" where
  "sabotage t c = rbind (sabotaged_lines (splitlines t) c) (\<lambda>ls.
     let nl = (if contains t crlf then crlf else newline) in Ret (join nl ls @ nl))"


section \<open>Running a control\<close>

type_synonym test_run = "string list \<Rightarrow> string \<Rightarrow> string \<times> (string \<times> int) res"

record bench =
  worker_file :: string
  printed :: "string list"

definition say :: "string list \<Rightarrow> bench \<Rightarrow> bench" where
  "say ls b = b\<lparr>printed := printed b @ ls\<rparr>"

definition run_argv :: "string \<Rightarrow> string list \<Rightarrow> string list" where
  "run_argv python tests = [python, ''-m'', ''pytest''] @ tests @ [''-q'', ''--no-header'', ''-p'', ''no:cacheprovider'']"

definition failed_name :: "string \<Rightarrow> string res" where
  "failed_name line = (case text_after ''::'' line of
       None \<Rightarrow> Raise (Exc OtherException ''IndexError'')
     | Some rest \<Rightarrow> Ret (text_before '' '' (text_before ''::'' rest)))"

definition run_tests :: "test_run \<Rightarrow> string \<Rightarrow> string list \<Rightarrow> string \<Rightarrow> string \<times> (string list \<times> string) res" where
  "run_tests pytest python tests file = (case pytest (run_argv python tests) file of
       (file1, r) \<Rightarrow> (file1, rbind r (\<lambda>(out, _).
          rbind (rmap failed_name (filter (\<lambda>l. startswith l ''FAILED'') (splitlines out))) (\<lambda>names. Ret (names, out)))))"

definition names_repr :: "string list \<Rightarrow> string" where
  "names_repr names = json_repr (JList (map JStr names))"

definition run_control :: "test_run \<Rightarrow> string \<Rightarrow> control \<Rightarrow> bench \<Rightarrow> bench \<times> bool res" where
  "run_control pytest python c b =
     (let original = worker_file b;
          (left, r) = (case utf8_decode original of
              None \<Rightarrow> (original, Raise (Exc UnicodeDecodeError ''codec can't decode bytes''))
            | Some _ \<Rightarrow> (case sabotage original c of
                Inl e \<Rightarrow> (original, Raise e)
              | Inr bad \<Rightarrow> run_tests pytest python (ctl_tests c) bad));
          b = b\<lparr>worker_file := left\<rparr>;
          b = b\<lparr>worker_file := original\<rparr>;
          restored = (worker_file b = original) in
      case r of
        Inl e \<Rightarrow> (b, Raise e)
      | Inr (names, out) \<Rightarrow>
          (let b = say [newline @ ''['' @ ctl_name c @ '']'',
                 ''  restored byte-identically: '' @ (if restored then ''True'' else ''False'')] b in
           if \<not> restored then
             (say [''  FAIL: could not restore app/worker.py '' @ em_dash @ '' restore from git now''] b, Ret False)
           else
             (let b = say [''  failing tests: '' @ (if names = [] then ''none'' else names_repr (sort (remdups names)))] b;
                  missing = filter (\<lambda>n. n \<notin> set names) (ctl_must_fail c) in
              if missing \<noteq> [] then
                (say [''  FAIL: not load-bearing '' @ em_dash @ '' these passed anyway: '' @ names_repr missing,
                      tail_slice 1500 out] b, Ret False)
              else (say [''  OK: removing the guard breaks '' @ nat_str (length (ctl_must_fail c)) @
                      '' test(s) that assert it''] b, Ret True))))"

definition skipped_lines :: "control \<Rightarrow> string list" where
  "skipped_lines c = [[], ''['' @ ctl_name c @ '']'',
     ''  SKIPPED: no Postgres '' @ em_dash @ '' set AUTOPR_TEST_POSTGRES_URL or install pgserver '' @
     ''(the cross-process half of this control is then unverified here, not passing)'']"

fun run_controls :: "test_run \<Rightarrow> string \<Rightarrow> bool \<Rightarrow> control list \<Rightarrow> bench \<Rightarrow> bench \<times> bool list res" where
  "run_controls pytest python have_pg [] b = (b, Ret [])"
| "run_controls pytest python have_pg (c # cs) b =
     (if ctl_postgres c \<and> \<not> have_pg then
        run_controls pytest python have_pg cs (say (skipped_lines c) b)
      else (case run_control pytest python c b of
          (b1, Inl e) \<Rightarrow> (b1, Raise e)
        | (b1, Inr ok) \<Rightarrow> (case run_controls pytest python have_pg cs b1 of
              (b2, r) \<Rightarrow> (b2, rbind r (\<lambda>oks. Ret (ok # oks))))))"

definition control_main :: "test_run \<Rightarrow> string \<Rightarrow> bool \<Rightarrow> bench \<Rightarrow> bench \<times> int res" where
  "control_main pytest python have_pg b = (case run_controls pytest python have_pg CONTROLS b of
       (b1, Inl e) \<Rightarrow> (b1, Raise e)
     | (b1, Inr results) \<Rightarrow>
         if \<not> list_all id results then (b1, Ret 1)
         else (case pytest [python, ''-m'', ''pytest'', CONCURRENCY, CRASH, ''-q'', ''--no-header''] (worker_file b1) of
             (file, Inl e) \<Rightarrow> (b1\<lparr>worker_file := file\<rparr>, Raise e)
           | (file, Inr (out, rc)) \<Rightarrow>
               (let summary = filter (\<lambda>l. contains l ''passed'') (splitlines out) in
                (say [newline @ ''with both guards restored: '' @ (if summary \<noteq> [] then last summary else tail_slice 300 out)]
                   (b1\<lparr>worker_file := file\<rparr>), Ret (if rc = 0 then 0 else 1)))))"


section \<open>What a sabotage changes\<close>

lemma first_index_Some:
  "first_index P xs = Some i \<longleftrightarrow> i < length xs \<and> P (xs ! i) \<and> (\<forall>k < i. \<not> P (xs ! k))"
proof (induction xs arbitrary: i)
  case (Cons x xs)
  show ?case by (cases i) (auto simp: Cons less_Suc_eq_0_disj)
qed simp

text \<open>
  The first line with the guard gives way to the replacement under the same indentation, at most one of the
  three lines after it goes, the continuation, and every other line is as it was.
\<close>

lemma sabotaged_lines_shape:
  assumes "sabotaged_lines ls c = Ret ls'"
  obtains i where "i < length ls" "length ls' = length ls" "contains (ls ! i) (ctl_find c)"
    "\<forall>k < i. \<not> contains (ls ! k) (ctl_find c)" "ls' ! i = indent_of (ls ! i) @ ctl_replace c"
    "\<forall>k < length ls. k \<noteq> i \<and> ls' ! k \<noteq> ls ! k \<longrightarrow>
      i < k \<and> k < i + 4 \<and> (\<exists>d. ctl_drop c = Some d \<and> contains (ls ! k) d)"
proof -
  obtain i where i: "first_index (\<lambda>l. contains l (ctl_find c)) ls = Some i"
    and d: "drop_line c (indent_of (ls ! i)) i (ls[i := indent_of (ls ! i) @ ctl_replace c]) = Ret ls'"
    using assms by (auto simp: sabotaged_lines_def split: option.splits)
  have li: "i < length ls" "contains (ls ! i) (ctl_find c)" "\<forall>k < i. \<not> contains (ls ! k) (ctl_find c)"
    using i by (simp_all add: first_index_Some)
  let ?ls = "ls[i := indent_of (ls ! i) @ ctl_replace c]"
  show ?thesis
  proof (cases "ctl_drop c")
    case None
    then have "ls' = ?ls" using d by (simp add: drop_line_def)
    then show ?thesis using li by (intro that [of i]) (simp_all add: nth_list_update)
  next
    case (Some mark)
    let ?js = "[i + 1..<min (i + 4) (length ls)]"
    obtain k where k: "first_index (\<lambda>j. contains (?ls ! j) mark) ?js = Some k"
      and ls': "ls' = ?ls[i + 1 + k := indent_of (ls ! i) @ ''# NEGATIVE CONTROL: continuation dropped'']"
      using d Some by (auto simp: drop_line_def split: option.splits)
    have in_js: "k < length ?js" and at_k: "contains (?ls ! (?js ! k)) mark" using k by (simp_all only: first_index_Some)
    have "k < min (i + 4) (length ls) - (i + 1)" using in_js by simp
    then have k: "i + 1 + k < min (i + 4) (length ls)" by linarith
    then have "i + 1 + k < length ls" "k < 3" by linarith+
    moreover have "?js ! k = i + 1 + k" using k by (rule nth_upt)
    then have hit: "contains (ls ! (i + 1 + k)) mark" using at_k by auto
    ultimately show ?thesis using li Some hit by (intro that [of i]) (auto simp: ls' nth_list_update)
  qed
qed

text \<open>On the guard of the claim in \<^verbatim>\<open>worker.py\<close>:\<close>

lemma claim_guard_removed:
  "sabotage (join_lines
     [''            PRJob.id == job_id,'', ''            (PRJob.status.in_([JobStatus.QUEUED, JobStatus.PENDING]))'',
      ''            | ((PRJob.status == JobStatus.PROCESSING) & (PRJob.updated_at < lease_cutoff)),'', ''        )'']) (hd CONTROLS) =
   Ret (join_lines
     [''            PRJob.id == job_id,'', ''            PRJob.id.isnot(None),  # NEGATIVE CONTROL: unconditional claim'',
      ''            # NEGATIVE CONTROL: continuation dropped'', ''        )'', []])"
  by code_simp


section \<open>What a run shows\<close>

lemma run_control_file [simp]: "worker_file (fst (run_control pytest python c b)) = worker_file b"
  by (simp add: run_control_def say_def Let_def split: prod.split sum.split option.split)

lemma say_file [simp]: "worker_file (say ls b) = worker_file b"
  by (simp add: say_def)

lemma run_controls_file [simp]: "worker_file (fst (run_controls pytest python have_pg cs b)) = worker_file b"
proof (induction cs arbitrary: b)
  case (Cons c cs)
  show ?case
  proof (cases "ctl_postgres c \<and> \<not> have_pg")
    case True
    then show ?thesis using Cons [of "say (skipped_lines c) b"] by simp
  next
    case False
    obtain b1 r where one: "run_control pytest python c b = (b1, r)" by fastforce
    obtain b2 q where two: "run_controls pytest python have_pg cs b1 = (b2, q)" by fastforce
    have "worker_file b1 = worker_file b" "worker_file b2 = worker_file b1"
      using run_control_file [of pytest python c b] Cons [of b1] by (simp_all add: one two)
    then show ?thesis using False by (cases r) (auto simp: one two)
  qed
qed simp

lemma run_control_passed:
  assumes "run_control pytest python c b = (b', Ret True)"
  shows "\<exists>bad names out left. sabotage (worker_file b) c = Ret bad \<and>
    run_tests pytest python (ctl_tests c) bad = (left, Ret (names, out)) \<and> set (ctl_must_fail c) \<subseteq> set names"
  using assms unfolding run_control_def
  by (auto simp: Let_def filter_empty_conv split: prod.splits sum.splits option.splits if_splits)

lemma run_controls_passed:
  assumes "run_controls pytest python have_pg cs b = (b', Ret oks)" and "list_all id oks"
    and "c \<in> set cs" and "ctl_postgres c \<longrightarrow> have_pg"
  shows "\<exists>b0 b1. worker_file b0 = worker_file b \<and> run_control pytest python c b0 = (b1, Ret True)"
  using assms
proof (induction cs arbitrary: b oks)
  case (Cons d cs)
  show ?case
  proof (cases "ctl_postgres d \<and> \<not> have_pg")
    case True
    then have "c \<in> set cs" using Cons.prems(3,4) by auto
    moreover have "run_controls pytest python have_pg cs (say (skipped_lines d) b) = (b', Ret oks)"
      using Cons.prems(1) True by simp
    ultimately show ?thesis using Cons.IH Cons.prems(2,4) by (metis say_file)
  next
    case False
    then obtain b1 ok oks' where one: "run_control pytest python d b = (b1, Ret ok)"
      and rest: "run_controls pytest python have_pg cs b1 = (b', Ret oks')" and oks: "oks = ok # oks'"
      using Cons.prems(1) by (auto split: prod.splits sum.splits)
    have same: "worker_file b1 = worker_file b" using run_control_file [of pytest python d b] by (simp add: one)
    show ?thesis
    proof (cases "c = d")
      case True
      then show ?thesis using one oks Cons.prems(2) by auto
    next
      case False
      then show ?thesis using Cons.IH [OF rest] Cons.prems(2-4) oks same by auto
    qed
  qed
qed simp

text \<open>
  The script never leaves a sabotaged \<^verbatim>\<open>app/worker.py\<close> behind, whether it ends with a code or in an exception and
  whatever the tests do to a sabotaged copy.
\<close>

theorem controls_restore:
  assumes "\<And>args. fst (pytest args (worker_file b)) = worker_file b"
  shows "worker_file (fst (control_main pytest python have_pg b)) = worker_file b"
proof -
  obtain b1 r where run: "run_controls pytest python have_pg CONTROLS b = (b1, r)" by fastforce
  have same: "worker_file b1 = worker_file b"
    using run_controls_file [of pytest python have_pg CONTROLS b] by (simp add: run)
  obtain f q where last: "pytest [python, ''-m'', ''pytest'', CONCURRENCY, CRASH, ''-q'', ''--no-header''] (worker_file b1) = (f, q)"
    by fastforce
  have "f = worker_file b" using assms last same by (metis fst_conv)
  then show ?thesis
    using last same by (cases q; cases r) (simp_all add: control_main_def run Let_def split: prod.split)
qed

text \<open>
  Exit code 0 means what it says: with its guard removed each control that ran failed all the tests it names,
  and the tests pass on the file as it is.
\<close>

theorem controls_sound:
  assumes "control_main pytest python have_pg b = (b', Ret 0)" and "c \<in> set CONTROLS" and "ctl_postgres c \<longrightarrow> have_pg"
  shows "(\<exists>bad names out left. sabotage (worker_file b) c = Ret bad \<and>
      run_tests pytest python (ctl_tests c) bad = (left, Ret (names, out)) \<and> set (ctl_must_fail c) \<subseteq> set names) \<and>
    (\<exists>left out. pytest [python, ''-m'', ''pytest'', CONCURRENCY, CRASH, ''-q'', ''--no-header''] (worker_file b) = (left, Ret (out, 0)))"
proof -
  obtain b1 r where run: "run_controls pytest python have_pg CONTROLS b = (b1, r)" by fastforce
  have same: "worker_file b1 = worker_file b"
    using run_controls_file [of pytest python have_pg CONTROLS b] by (simp add: run)
  obtain oks where oks: "r = Ret oks" "list_all id oks"
    and rest: "\<exists>left out. pytest [python, ''-m'', ''pytest'', CONCURRENCY, CRASH, ''-q'', ''--no-header''] (worker_file b) =
      (left, Ret (out, 0))"
    using assms(1) unfolding control_main_def run same [symmetric]
    by (auto simp: Let_def split: sum.splits prod.splits if_splits)
  from run_controls_passed [OF run [unfolded oks(1)] oks(2) assms(2,3)] rest show ?thesis
    by (metis run_control_passed)
qed

end
