(* ===== verification/Spec2Isabelle.thy ===== *)
theory Spec2Isabelle
  imports Config Approval Evolution Job_Claims Verify_Installation Capacity_Plan Seed_Demo Negative_Control Rag
begin

text \<open>
  \<^bold>\<open>AutoPR.\<close> A service that reviews pull requests and repairs failing CI runs. GitHub delivers webhooks; the
  API verifies, deduplicates and queues them; workers run a pipeline of model-backed agents; a policy turns
  the result into one decision; a decision is either carried out or waits for a human, who approves it in
  the dashboard or in a comment. This development models the Python program under \<^verbatim>\<open>src/app/\<close> and five of the
  scripts under \<^verbatim>\<open>src/scripts/\<close>, and proves what makes it correct.

  \<^bold>\<open>How the parts interact.\<close> \<^verbatim>\<open>main.py\<close> receives a delivery (theory \<open>Webhook\<close>): rate limiter and address
  (\<open>Throttling\<close>), signature (\<open>Security\<close>), JSON (\<open>Json\<close>), tenant and comment events (\<open>Tenancy\<close>, \<open>Commands\<close>), quotas
  (\<open>Throttling\<close>), row and stream entry (\<open>Ingest\<close>, \<open>Queue\<close>). A worker reads the entry, claims the row and runs the
  handler (\<open>Worker\<close>, \<open>Worker_Loop\<close>); the handler is the compiled graph (\<open>Graph\<close>) of the agents (\<open>Agents\<close>, grounded by
  \<open>Rag\<close>), the sandbox (\<open>Sandbox\<close>) and the router (\<open>Router\<close>), which applies the policy (\<open>Policy\<close>), writes the decision
  (\<open>Store\<close>) and posts through a client (\<open>Github\<close>, \<open>Github_App\<close>). The operator's endpoints (\<open>Api\<close>) approve and
  reject. All of them share the database of theory \<open>Models\<close>.

  \<^bold>\<open>Theories and files.\<close>

  \<^item> \<open>Prelude\<close>: results with exceptions, Python text functions, JSON values and their truth and access, tables with
    statements over them, and the interface \<open>unique_table\<close> of a table with a primary and a unique key.
  \<^item> \<open>Config\<close>: \<^verbatim>\<open>config.py\<close>. Every field the code reads, derived properties, both validators.
  \<^item> \<open>Models\<close>: \<^verbatim>\<open>models.py\<close>, \<^verbatim>\<open>db.py\<close>. Status enumerations, the four tables, statement helpers, the schema check.
    \<open>wf_db\<close> is the invariant of the unique keys; \<open>unique_table\<close> is interpreted on the three keyed tables.
  \<^item> \<open>Pr_State\<close>: \<^verbatim>\<open>agents/state.py\<close>, the state the nodes pass on; an absent key is \<open>None\<close>.
  \<^item> \<open>Policy\<close>: \<^verbatim>\<open>routing/policy.py\<close>. \<open>Store\<close>: \<^verbatim>\<open>routing/store.py\<close>. \<open>Router\<close>: \<^verbatim>\<open>routing/router.py\<close>.
    \<open>Github\<close>: \<^verbatim>\<open>routing/github.py\<close>. \<open>Github_App\<close>: \<^verbatim>\<open>github_app.py\<close>, \<^verbatim>\<open>http.py\<close>.
  \<^item> \<open>Approval\<close>: the protocol of concurrent approvers over \<open>Store\<close>, as the endpoints of \<^verbatim>\<open>main.py\<close> and \<^verbatim>\<open>commands.py\<close>
    follow it, with crashes and sweeps; the interface \<open>decision_store\<close> is what an approver relies on, interpreted
    on the store.
  \<^item> \<open>Security\<close>: \<^verbatim>\<open>security.py\<close>, SHA-256 and HMAC on words. \<open>Json\<close>: \<^verbatim>\<open>json.loads\<close> and \<^verbatim>\<open>json.dumps\<close> of the
    standard library. \<open>Queue\<close>: \<^verbatim>\<open>queue.py\<close>. \<open>Ingest\<close>: \<^verbatim>\<open>ingest.py\<close>. \<open>Throttling\<close>: \<^verbatim>\<open>quota.py\<close>, \<^verbatim>\<open>ratelimit.py\<close>.
    \<open>Tenancy\<close>: \<^verbatim>\<open>tenancy.py\<close>. \<open>Commands\<close>: \<^verbatim>\<open>commands.py\<close>.
  \<^item> \<open>Webhook\<close>: the delivery route of \<^verbatim>\<open>main.py\<close>. \<open>Api\<close>: its other routes, authentication and start-up.
  \<^item> \<open>Worker\<close>, \<open>Worker_Loop\<close>: \<^verbatim>\<open>worker.py\<close>; the operations on one job, and the process around them.
  \<^item> \<open>Sandbox\<close>: \<^verbatim>\<open>sandbox/\<close>. \<open>Rag\<close>: \<^verbatim>\<open>agents/rag.py\<close>. \<open>Agents\<close>: the other modules of \<^verbatim>\<open>agents/\<close>.
    \<open>Graph\<close>: \<^verbatim>\<open>agents/graph.py\<close> and the handler \<^verbatim>\<open>worker.py\<close> builds from it. \<open>Capacity\<close>: \<^verbatim>\<open>capacity.py\<close>.
  \<^item> \<open>Job_Claims\<close>: the protocol of concurrent workers over one job table, as the statements of \<^verbatim>\<open>process_job\<close> and
    \<^verbatim>\<open>_handle_message\<close> in \<^verbatim>\<open>worker.py\<close> follow it, with publishers, deaths and redeliveries.
  \<^item> \<open>Capacity_Plan\<close>: \<^verbatim>\<open>scripts/capacity_plan.py\<close>. \<open>Seed_Demo\<close>: \<^verbatim>\<open>scripts/seed_demo.py\<close>, with its literal rows.
    \<open>Negative_Control\<close>: \<^verbatim>\<open>scripts/negative_control_claim.py\<close>; the test run is a parameter.
  \<^item> \<open>Send_Pr\<close>: \<^verbatim>\<open>scripts/send_pr.py\<close>. \<open>Verify_Installation\<close>: \<^verbatim>\<open>scripts/verify_installation.py\<close>.
  \<^item> \<open>Service\<close>, \<open>Evolution\<close> and this theory: the composition. \<open>service_step\<close> has one rule for each thing that
    writes the database, whatever process does it; \<open>integrity\<close> is its invariant, \<open>evolves\<close> what a step may do to a
    decision.

  \<^bold>\<open>What is proved.\<close>

  \<^item> Composition: the references between the tables hold in every run (\<open>tables_fit_together\<close>); what a decision
    says never changes and a settled one is final (\<open>decisions_immutable\<close>).
  \<^item> Intake: effects only for a signed, bounded, admitted delivery; what an acknowledgement means; idempotence and
    repair of the publication; a delivery of the replay script is accepted, through encoder, signature, decoder and
    insert; JSON round trip; quotas and limiter bounds; the client address cannot be forged.
  \<^item> Decisions: the life cycle of a decision as an abstract machine that every store operation refines; at most one
    approver at a time and at most one comment per recorded execution, in every interleaving; the router never
    bypasses a human gate; what needs no approval.
  \<^item> Work: the contract of \<open>process_job\<close> on every branch, the number of runs of a failing job, what a poll cycle and
    the loop do with failures, signals and the reconciliation. The statements of concurrent workers in any order:
    one thread runs a job while runs stay within the lease, and a finished job has one result
    (\<open>Job_Claims.job_runs_exclusive\<close>, \<open>Job_Claims.one_result_per_job\<close>); the handler of a message is such a run
    (\<open>message_is_run\<close>), and a delivery that was acknowledged is worked (\<open>acknowledged_delivery_is_worked\<close>).
  \<^item> Pipeline: every run ends on one track within a bound; a fix is proposed only after a completed successful
    check of that very patch; the ranges of the agents' answers; the sandbox leaves the disk as it was and its
    container is isolated.
  \<^item> Tenants: a comment is posted with a token of the installation GitHub names for the repository; an uninstalled
    installation stays so; a comment command needs a permission on an active installation.
  \<^item> Scripts: the demo rows go in from any consistent database and leave one (\<open>Seed_Demo.seeding_succeeds\<close>); no warning
    of a capacity plan is lost (\<open>Capacity_Plan.collapsed_complete\<close>); what the deployment check may post;
    the negative controls put a sabotaged file back, and their exit code 0 is sound (\<open>Negative_Control.controls_sound\<close>).
  \<^item> Deviations between code and intention, each a theorem about the code as it is, such as
    \<open>Worker_Loop.ack_failure_repeats_work\<close>, \<open>Approval.auto_retry_unguarded\<close>, \<open>Api.approval_exception_strands\<close>,
    \<open>Github.tenant_reads_nothing\<close>, \<open>Verify_Installation.probe_fooled\<close>, \<open>Job_Claims.retry_mark_breaks_claim\<close>,
    \<open>Seed_Demo.other_case_is_demo\<close>.

  \<^bold>\<open>Conventions.\<close> An operation that can raise returns \<open>'a res\<close>, with \<open>Raise\<close> an exception of a class and a text. A
  session is a function on the committed \<open>database\<close>; where a read and a later write are two statements and another
  process may come between, the operation takes both states. The current time and the settings are arguments. A text
  is a \<open>string\<close>: characters up to 255 stand for themselves, wider ones for their UTF-8 bytes. Time stamps of rows are
  \<open>int\<close> microseconds; the clocks of the limiter, of tokens and of the worker loop are \<open>rat\<close> seconds. Python's integers
  are \<open>int\<close>, the words of the hash functions \<open>32 word\<close>; floats of the capacity model are exact rationals with
  half-even rounding.

  \<^bold>\<open>Parameters.\<close> Redis, GitHub's HTTP answers, the model, the embedding, Qdrant, Docker, RS256, parsing of ISO times
  and of floats and the other codecs of \<^verbatim>\<open>json\<close> are arguments of the definitions that call them. A write client answers
  from the calls made so far; the absent client is a fresh \<open>FakeGitHubClient\<close>, as in the code. The disk of the sandbox
  is files and directories without symbolic links.

  \<^bold>\<open>Bounds.\<close> LangGraph stops a run after 25 steps; that limit is the fuel of \<open>run_graph\<close>, and
  \<open>step_budget s st = 2 * rounds_left s st + 2\<close> steps are enough (\<open>graph_terminates\<close>); with a setting of at least 12 fix attempts
  the default limit is below this budget. \<open>list_pull_files\<close> has fuel for its pages, and more than the number of
  files divided by 100 is enough (\<open>list_pull_files_complete\<close>). The worker loop runs a given list of cycles; a list that
  is used up gives \<open>Running\<close>, and \<open>stop_ends_loop\<close> says when the loop does end.

  \<^bold>\<open>Concurrency.\<close> Approvals and workers interleave statement by statement (\<open>Approval\<close>, \<open>Job_Claims\<close>). The pool of
  \<open>Worker_Loop\<close> and the steps of \<open>service_step\<close> interleave by whole messages, deliveries and sweeps. The locks of \<^verbatim>\<open>github_app.py\<close> and
  \<^verbatim>\<open>ratelimit.py\<close> make their critical sections single steps and are not modelled further.

  \<^bold>\<open>Not modelled.\<close> \<^verbatim>\<open>observability.py\<close> and the metrics and log lines: configuration of libraries, without effect on
  any state above (the correlation id is modelled where it is stored). The construction of the database engine and the
  SQLite pragmas of \<^verbatim>\<open>db.py\<close>: driver configuration. FastAPI's dispatch, CORS and the Prometheus text format. The
  benchmarks, \<^verbatim>\<open>load_test.py\<close> and the generator of the figures: measurements and
  drawings. Alembic migrations, the TypeScript
  dashboard and the tests.
\<close>

section \<open>The service as one state machine\<close>






section \<open>From a delivery to its result\<close>



text \<open>
  C22. The worker's message handler is what the protocol of concurrent workers says: for the pipeline as the handler,
  the statements of one thread in order are a run of that protocol with exactly the database effect that
  \<open>handle_message\<close> has, and they leave every other thread where it was.
\<close>

theorem message_is_run:
  assumes "wf_db (fdb s)" and "thread s a = Free" and "message_job msg = Ret i" and "0 \<le> d"
  shows "\<exists>s'. (wstep cfg)\<^sup>*\<^sup>* s s' \<and> thread s' = thread s \<and> clk s' = clk s + d \<and>
    fdb s' = fst (handle_message cfg (clk s) (clk s + d) ack
      (graph_handler lf sn (invoke_for_worker limit p w)) msg (fdb s))"
  by (rule message_run [OF assms]) (simp add: piped.handler_wf pipeline_writes)

theorem message_is_run_witness:
  "\<exists>s'. (wstep default_settings)\<^sup>*\<^sup>* demo_fleet s' \<and> clk s' = 5 \<and> fdb s' = fst (handle_message default_settings 2 5 (\<lambda>_. Ret 1)
     (graph_handler (\<lambda>_ _. Ret []) (\<lambda>_ _. Ret []) (invoke_for_worker 25 demo_pipeline demo_run_world)) demo_message (worker_db QUEUED))"
proof -
  have "wf_db (fdb demo_fleet)" "thread demo_fleet 0 = Free" "clk demo_fleet = 2" "fdb demo_fleet = worker_db QUEUED"
    by (simp_all add: demo_fleet_def)
  from message_is_run [OF this(1,2) demo_message_job, of 3 default_settings "\<lambda>_. Ret 1" "\<lambda>_ _. Ret []" "\<lambda>_ _. Ret []" 25
      demo_pipeline demo_run_world] this(3,4) show ?thesis by auto
qed

end
